(* ===== verification/Prelude.thy ===== *)
theory Prelude
  imports Main "HOL-Library.Word" "HOL-Library.Multiset" "HOL-Library.AList" "HOL-Library.Signed_Division"
begin

section \<open>Prelude: the fragment of Go the components share\<close>

text \<open>
  What every component of the development uses: the outcome of a Go call that may
  panic, error values, nil pointers, Go maps with string keys, the range loop, and
  the 64-bit integers of the plugin. The collections \<open>go_simps\<close> (equations of the
  primitives below) and \<open>go_dests\<close> (inversions) are what the component proofs pass
  to the simplifier.
\<close>

named_theorems go_simps \<open>equations of the Go primitives\<close>
named_theorems go_dests \<open>inversion rules of the Go primitives\<close>

subsection \<open>Outcomes, nil pointers\<close>

text \<open>
  A Go call returns or panics. Nothing under \<open>src/\<close> recovers from a panic, so a panic
  ends the process; the outcome says why.
\<close>

datatype panic = NilDereference | TypeAssertion | IndexOutOfRange | PanicWith string

datatype 'a go = Return 'a | Panic panic

primrec go_bind :: "'a go \<Rightarrow> ('a \<Rightarrow> 'b go) \<Rightarrow> 'b go" where
  "go_bind (Return x) k = k x"
| "go_bind (Panic e) k = Panic e"

text \<open>Dereferencing a pointer: \<open>None\<close> is nil.\<close>

primrec deref :: "'a option \<Rightarrow> 'a go" where
  "deref None = Panic NilDereference"
| "deref (Some x) = Return x"

text \<open>
  Running an outcome inside a stateful call: a panic keeps the state reached so far,
  a value goes to the rest of the call.
\<close>

primrec with_result :: "'a go \<Rightarrow> 's \<Rightarrow> ('a \<Rightarrow> 'b go \<times> 's) \<Rightarrow> 'b go \<times> 's" where
  "with_result (Return x) s k = k x"
| "with_result (Panic e) s k = (Panic e, s)"

declare go_bind.simps [go_simps] deref.simps [go_simps] with_result.simps [go_simps]

lemma go_bind_Return_iff [go_simps]:
  "go_bind m k = Return y \<longleftrightarrow> (\<exists>x. m = Return x \<and> k x = Return y)"
  by (cases m) auto

lemma deref_Return_iff [go_simps]: "deref p = Return x \<longleftrightarrow> p = Some x"
  by (cases p) auto

lemma deref_Panic_iff [go_simps]: "deref p = Panic e \<longleftrightarrow> p = None \<and> e = NilDereference"
  by (cases p) auto

lemma with_result_eq:
  "with_result m s k = (out, s') \<longleftrightarrow>
     (case m of Return x \<Rightarrow> k x = (out, s') | Panic e \<Rightarrow> out = Panic e \<and> s' = s)"
  by (cases m) auto

lemma go_bind_assoc: "go_bind (go_bind m f) g = go_bind m (\<lambda>x. go_bind (f x) g)"
  by (cases m) auto

lemma all_present:
  assumes "None \<notin> set ps"
  obtains xs where "ps = map Some xs"
proof -
  have "map Some (map the ps) = ps" using assms by (induction ps) auto
  then show ?thesis by (rule that [OF sym])
qed

text \<open>The index expression \<open>xs[i]\<close> of a slice.\<close>

definition slice_index :: "'a list \<Rightarrow> nat \<Rightarrow> 'a go" where
  "slice_index xs i = (if i < length xs then Return (xs ! i) else Panic IndexOutOfRange)"

lemma slice_index_0 [go_simps]:
  "slice_index (x # xs) 0 = Return x" "slice_index [] i = Panic IndexOutOfRange"
  by (simp_all add: slice_index_def)

lemma if_True_False: "(if b then True else False) = b"
  by simp

subsection \<open>The range loop over a slice\<close>

text \<open>
  \<open>for _, x := range xs { body }\<close> with the loop's variables as the state \<open>s\<close>; a
  \<open>continue\<close> is a body that returns early, a panic ends the loop.
\<close>

primrec range_loop :: "('x \<Rightarrow> 's \<Rightarrow> 's go) \<Rightarrow> 'x list \<Rightarrow> 's \<Rightarrow> 's go" where
  "range_loop body [] s = Return s"
| "range_loop body (x # xs) s = go_bind (body x s) (range_loop body xs)"

lemma range_loop_append:
  "range_loop body (xs @ ys) s = go_bind (range_loop body xs s) (range_loop body ys)"
proof (induction xs arbitrary: s)
  case Nil
  then show ?case by simp
next
  case (Cons x xs)
  then show ?case by (cases "body x s") simp_all
qed

text \<open>The loop that appends the elements that pass a test is \<open>filter\<close>.\<close>

lemma range_loop_filter:
  assumes "\<And>x acc. x \<in> set xs \<Longrightarrow> body x acc = Return (if P x then acc @ [x] else acc)"
  shows "range_loop body xs acc = Return (acc @ filter P xs)"
  using assms by (induction xs arbitrary: acc) auto

lemma range_loop_map:
  assumes "\<And>x acc. x \<in> set xs \<Longrightarrow> body x acc = Return (acc @ [f x])"
  shows "range_loop body xs acc = Return (acc @ map f xs)"
  using assms by (induction xs arbitrary: acc) auto

text \<open>A body that panics on some element makes the loop panic, if no element before it does otherwise.\<close>

lemma range_loop_panic:
  assumes "\<And>x acc. x \<in> set xs \<Longrightarrow> bad x \<Longrightarrow> body x acc = Panic e"
    and "\<And>x acc. x \<in> set xs \<Longrightarrow> \<not> bad x \<Longrightarrow> \<exists>acc'. body x acc = Return acc'"
    and "\<exists>x \<in> set xs. bad x"
  shows "range_loop body xs acc = Panic e"
  using assms
proof (induction xs arbitrary: acc)
  case Nil
  then show ?case by simp
next
  case (Cons x xs)
  show ?case
  proof (cases "bad x")
    case True
    with Cons.prems(1) show ?thesis by simp
  next
    case False
    with Cons.prems(2) obtain acc' where b: "body x acc = Return acc'" by force
    have "range_loop body xs acc' = Panic e"
      using Cons.prems False by (intro Cons.IH) auto
    with b show ?thesis by simp
  qed
qed

lemma range_loop_cong:
  assumes "\<And>x s. x \<in> set xs \<Longrightarrow> f x s = g x s"
  shows "range_loop f xs s = range_loop g xs s"
  using assms
proof (induction xs arbitrary: s)
  case Nil
  then show ?case by simp
next
  case (Cons x xs)
  have "range_loop f xs = range_loop g xs"
    using Cons by (intro ext) auto
  with Cons.prems show ?case by simp
qed

subsection \<open>Maps with string keys\<close>

text \<open>
  A \<open>map[string]T\<close> is the list of its entries with distinct keys (\<open>map_wf\<close>); the
  order of the list stands for the order in which a range over the map visits the
  entries, which Go leaves open. Reading a missing key gives the zero value of the
  element type. A nil map reads as the empty map.
\<close>

type_synonym 'v gomap = "(string \<times> 'v) list"
type_synonym strmap = "string gomap"

definition map_wf :: "'v gomap \<Rightarrow> bool" where
  "map_wf m \<longleftrightarrow> distinct (map fst m)"

definition map_index :: "strmap \<Rightarrow> string \<Rightarrow> string" where
  "map_index m k = (case map_of m k of None \<Rightarrow> '''' | Some v \<Rightarrow> v)"

definition map_store :: "string \<Rightarrow> 'v \<Rightarrow> 'v gomap \<Rightarrow> 'v gomap" where
  "map_store k v m = AList.update k v m"

lemma map_of_store [go_simps]: "map_of (map_store k v m) = (map_of m)(k \<mapsto> v)"
  by (simp add: map_store_def update_conv')

lemma map_index_store [go_simps]:
  "map_index (map_store k v m) k' = (if k' = k then v else map_index m k')"
  by (simp add: map_index_def map_of_store)

lemma map_wf_store [go_simps]: "map_wf m \<Longrightarrow> map_wf (map_store k v m)"
  by (simp add: map_wf_def map_store_def distinct_update)

lemma map_store_keys [go_simps]: "fst ` set (map_store k v m) = insert k (fst ` set m)"
  by (simp add: map_store_def dom_update)

lemma map_wf_empty [go_simps]: "map_wf []"
  by (simp add: map_wf_def)

lemma map_wf_card: "map_wf m \<Longrightarrow> card (dom (map_of m)) = length m"
  by (metis map_wf_def distinct_card dom_map_of_conv_image_fst length_map list.set_map)

lemma map_wf_lookup: "map_wf m \<Longrightarrow> (k, v) \<in> set m \<longleftrightarrow> map_of m k = Some v"
  by (simp add: map_wf_def)

lemma filter_conj_same: "filter P xs = filter (\<lambda>x. P x \<and> Q x) xs \<longleftrightarrow> (\<forall>x \<in> set (filter P xs). Q x)"
  by (metis (no_types) filter_filter filter_id_conv)

lemma map_of_mset: "mset m = mset m' \<Longrightarrow> map_wf m \<Longrightarrow> map_of m = map_of m'"
  by (metis map_wf_def map_of_inject_set mset_eq_setD mset_eq_imp_distinct_iff mset_map)

lemma map_le_Some: "f \<subseteq>\<^sub>m g \<longleftrightarrow> (\<forall>k v. f k = Some v \<longrightarrow> g k = Some v)"
  by (fastforce simp: map_le_def dom_def)

text \<open>A map whose entries all occur in another is at most as long: what a length check relies on.\<close>

lemma map_le_length:
  assumes "map_wf m" "map_wf m'" "map_of m \<subseteq>\<^sub>m map_of m'"
  shows "length m \<le> length m'"
proof -
  have "card (dom (map_of m)) \<le> card (dom (map_of m'))"
    using assms(3) by (intro card_mono) (auto simp: finite_dom_map_of dest: map_le_implies_dom_le)
  with assms show ?thesis by (simp add: map_wf_card)
qed

subsection \<open>64-bit integers\<close>

text \<open>
  Go's \<open>int\<close> and \<open>int64\<close> on the platforms the scheduler is built for: 64-bit two's
  complement, arithmetic wraps, division truncates towards zero.
\<close>

type_synonym int64 = "64 word"
type_synonym int32 = "32 word"

definition len64 :: "'a list \<Rightarrow> int64" where
  "len64 xs = word_of_nat (length xs)"

definition div64 :: "int64 \<Rightarrow> int64 \<Rightarrow> int64" where
  "div64 a b = word_of_int (sint a sdiv sint b)"

lemma sint_word_of_int_id:
  fixes i :: int
  assumes "- (2 ^ 63) \<le> i" "i < 2 ^ 63"
  shows "sint (word_of_int i :: int64) = i"
proof -
  have "signed_take_bit 63 i = i"
    using assms by (intro signed_take_bit_int_eq_self) auto
  then show ?thesis by (simp add: sint_sbintrunc')
qed

lemma sint_len64: "length xs < 2 ^ 63 \<Longrightarrow> sint (len64 xs) = int (length xs)"
proof -
  assume a: "length xs < 2 ^ 63"
  have "sint (word_of_int (int (length xs)) :: int64) = int (length xs)"
    by (rule sint_word_of_int_id) (use a in auto)
  then show ?thesis by (simp add: len64_def)
qed

lemma sint_diff64:
  fixes a b :: int64
  assumes "- (2 ^ 63) \<le> sint a - sint b" "sint a - sint b < 2 ^ 63"
  shows "sint (a - b) = sint a - sint b"
proof -
  have "a - b = word_of_int (sint a - sint b)"
    by (simp add: wi_hom_sub [symmetric])
  with assms show ?thesis by (simp only: sint_word_of_int_id)
qed

lemma sint_mult64:
  fixes a b :: int64
  assumes "- (2 ^ 63) \<le> sint a * sint b" "sint a * sint b < 2 ^ 63"
  shows "sint (a * b) = sint a * sint b"
proof -
  have "a * b = word_of_int (sint a * sint b)"
    by (simp add: wi_hom_mult [symmetric])
  with assms show ?thesis by (simp only: sint_word_of_int_id)
qed

lemma sint_add64:
  fixes a b :: int64
  assumes "- (2 ^ 63) \<le> sint a + sint b" "sint a + sint b < 2 ^ 63"
  shows "sint (a + b) = sint a + sint b"
proof -
  have "a + b = word_of_int (sint a + sint b)"
    by (simp add: wi_hom_add [symmetric])
  with assms show ?thesis by (simp only: sint_word_of_int_id)
qed

lemma sint_bounds64: "- (2 ^ 63) \<le> sint (a :: int64)" "sint (a :: int64) < 2 ^ 63"
  using sint_ge [of a] sint_lt [of a] by simp_all

end
