(* ===== verification/Api_Types.thy ===== *)
theory Api_Types
  imports Prelude
begin

section \<open>The API objects\<close>

text \<open>
  The types of \<open>apis/v1alpha1/placementpolicy_types.go\<close>, the fields of the Kubernetes
  Pod and Node objects the plugin reads, and the values that travel through Go
  interfaces: errors, statuses and the objects of an informer's cache. A pointer field
  that may be nil is an \<open>option\<close>.
\<close>

subsection \<open>Placement policies\<close>

type_synonym EnforcementMode = string
type_synonym Action = string

definition EnforcementModeBestEffort :: EnforcementMode where
  "EnforcementModeBestEffort = ''BestEffort''"

definition EnforcementModeStrict :: EnforcementMode where
  "EnforcementModeStrict = ''Strict''"

definition ActionMust :: Action where
  "ActionMust = ''Must''"

definition ActionMustNot :: Action where
  "ActionMustNot = ''MustNot''"

definition PlacementPolicyAnnotationKey :: string where
  "PlacementPolicyAnnotationKey = ''placement-policy.x-k8s.io/policy-name''"

definition PlacementPolicyPreferenceAnnotationKey :: string where
  "PlacementPolicyPreferenceAnnotationKey =
     ''placement-policy.x-k8s.io/node-preference-matching-labels''"

lemmas api_constants =
  EnforcementModeBestEffort_def EnforcementModeStrict_def ActionMust_def ActionMustNot_def
  PlacementPolicyAnnotationKey_def PlacementPolicyPreferenceAnnotationKey_def

lemma mode_constants_differ [simp]:
  "EnforcementModeStrict \<noteq> EnforcementModeBestEffort" "EnforcementModeBestEffort \<noteq> EnforcementModeStrict"
  by (simp_all add: api_constants)

text \<open>
  \<open>metav1.LabelSelector\<close> and \<open>intstr.IntOrString\<close> come from apimachinery; only their
  data is needed here. The plugin reads \<open>MatchLabels\<close> and never \<open>MatchExpressions\<close>.
\<close>

record LabelSelectorRequirement =
  reqKey :: string
  reqOperator :: string
  reqValues :: "string list"

record LabelSelector =
  MatchLabels :: strmap
  MatchExpressions :: "LabelSelectorRequirement list"

datatype IntOrString = FromInt int32 | FromString string

record Policy =
  PolicyAction :: Action
  TargetSize :: "IntOrString option"

record PlacementPolicySpec =
  Weight :: int32
  EnforcementModeOf :: EnforcementMode
  PodSelector :: "LabelSelector option"
  NodeSelector :: "LabelSelector option"
  PolicyOf :: "Policy option"

record PlacementPolicy =
  ppName :: string
  ppNamespace :: string
  ppLabels :: strmap
  Spec :: PlacementPolicySpec

record PlacementPolicyList =
  ListResourceVersion :: string
  Items :: "PlacementPolicy list"

subsection \<open>Group, version and resource\<close>

text \<open>\<open>apis/v1alpha1/zz_generated.register.go\<close>: the API group the objects are registered under.\<close>

record GroupVersion =
  gvGroup :: string
  gvVersion :: string

record GroupResource =
  grGroup :: string
  grResource :: string

record GroupVersionResource =
  gvrGroup :: string
  gvrVersion :: string
  gvrResource :: string

definition GroupName :: string where
  "GroupName = ''placement-policy.scheduling.x-k8s.io''"

definition SchemeGroupVersion :: GroupVersion where
  "SchemeGroupVersion = \<lparr>gvGroup = GroupName, gvVersion = ''v1alpha1''\<rparr>"

text \<open>\<open>GroupVersion.WithResource\<close> and \<open>GroupVersionResource.GroupResource\<close> only move fields.\<close>

definition WithResource :: "GroupVersion \<Rightarrow> string \<Rightarrow> GroupVersionResource" where
  "WithResource gv r = \<lparr>gvrGroup = gvGroup gv, gvrVersion = gvVersion gv, gvrResource = r\<rparr>"

definition GroupResourceOf :: "GroupVersionResource \<Rightarrow> GroupResource" where
  "GroupResourceOf gvr = \<lparr>grGroup = gvrGroup gvr, grResource = gvrResource gvr\<rparr>"

definition Resource :: "string \<Rightarrow> GroupResource" where
  "Resource r = GroupResourceOf (WithResource SchemeGroupVersion r)"

subsection \<open>Pods and nodes\<close>

text \<open>
  A pod's annotations are a map that may be nil: \<open>AnnotatePod\<close> tests for it. Labels are
  only read, where nil and empty agree. A pod is addressed by its pointer, a node is
  read only and stands for itself. \<open>NodeInfo\<close> is what \<open>nodeInfo.Node()\<close> returns: the
  node, or nil.
\<close>

record Pod =
  podName :: string
  podNamespace :: string
  podUID :: string
  podLabels :: strmap
  podAnnotations :: "strmap option"
  podNodeName :: string

type_synonym pod_ref = nat

record Node =
  nodeName :: string
  nodeLabels :: strmap

type_synonym NodeInfo = "Node option"

definition pod_annotation :: "Pod \<Rightarrow> string \<Rightarrow> string" where
  "pod_annotation p k = (case podAnnotations p of None \<Rightarrow> '''' | Some m \<Rightarrow> map_index m k)"

subsection \<open>Errors and statuses\<close>

text \<open>
  \<open>FrameworkErrNotFound\<close> is the sentinel \<open>framework.ErrNotFound\<close>, which the code compares
  by identity. \<open>ApiNotFound\<close> is \<open>errors.NewNotFound(resource, name)\<close>. \<open>NumError\<close> is the
  syntax error of \<open>strconv\<close>, with the function and its input. An error made by code
  outside the repository is \<open>External\<close>, one made by \<open>fmt.Errorf\<close> its call. A message is the \<open>fmt.Sprintf\<close> call that
  makes it: the format string and its arguments.
\<close>

datatype goerror =
  FrameworkErrNotFound
| ApiNotFound (notFoundResource: GroupResource) (notFoundName: string)
| NumError (numFunc: string) (numInput: string)
| Errorf string "fmtarg list"
| External string
and fmtarg = ArgString string | ArgError goerror | ArgResource GroupVersionResource

datatype message = Text string | Sprintf string "fmtarg list"

datatype Code = Success | Error | Unschedulable

text \<open>A \<open>*framework.Status\<close>: \<open>None\<close> is the nil status, which the framework reads as success.\<close>

datatype Status = NewStatus (statusCode: Code) (statusReason: message)

definition status_ok :: "Status option \<Rightarrow> bool" where
  "status_ok s = (case s of None \<Rightarrow> True | Some st \<Rightarrow> statusCode st = Success)"

text \<open>What an \<open>interface{}\<close> from an informer's cache holds.\<close>

datatype iface = IfacePolicy PlacementPolicy | IfaceOther string

text \<open>The type assertion \<open>m.(*v1alpha1.PlacementPolicy)\<close>.\<close>

primrec assert_PlacementPolicy :: "iface \<Rightarrow> PlacementPolicy go" where
  "assert_PlacementPolicy (IfacePolicy pp) = Return pp"
| "assert_PlacementPolicy (IfaceOther t) = Panic TypeAssertion"

text \<open>An object of other code that is stored and passed on, never looked into.\<close>

datatype handle = Handle nat

subsection \<open>The process\<close>

text \<open>
  The mutable part of the process: the Pod structs, by address, and the world outside
  (API server, informer caches, scheduler snapshot), of which this repository sees only
  what the operations of other packages return.
\<close>

record 'w machine =
  mem :: "pod_ref \<Rightarrow> Pod option"
  world :: 'w

subsection \<open>Parsing a boolean\<close>

text \<open>\<open>strconv.ParseBool\<close> of the standard library; \<open>None\<close> is the syntax error.\<close>

definition ParseBool :: "string \<Rightarrow> bool option" where
  "ParseBool s =
     (if s \<in> set [''1'', ''t'', ''T'', ''true'', ''TRUE'', ''True''] then Some True
      else if s \<in> set [''0'', ''f'', ''F'', ''false'', ''FALSE'', ''False''] then Some False
      else None)"

lemma ParseBool_simps [simp]:
  "ParseBool ''true'' = Some True" "ParseBool ''false'' = Some False" "ParseBool '''' = None"
  by (simp_all add: ParseBool_def)

lemma ParseBool_True_iff:
  "ParseBool s = Some True \<longleftrightarrow> s \<in> {''1'', ''t'', ''T'', ''true'', ''TRUE'', ''True''}"
  by (simp add: ParseBool_def)

end
