(* ===== verification/Labels.thy ===== *)
theory Labels
  imports Api_Types
begin

section \<open>Label matching\<close>

text \<open>
  \<open>utils.HasMatchingLabels\<close> (\<open>pkg/utils/labels.go\<close>) and \<open>checkHasLabels\<close>
  (\<open>pkg/plugins/placementpolicy/placementpolicy.go\<close>): the same routine, written twice.
  The locale \<open>label_matcher\<close> is the contract both share; what follows from it is proved
  once and holds of both by interpretation.
\<close>

subsection \<open>The two routines\<close>

text \<open>The loop \<open>for k, v := range wantLabels { if l[k] != v { return false } }; return true\<close>.\<close>

primrec want_loop :: "strmap \<Rightarrow> (string \<times> string) list \<Rightarrow> bool" where
  "want_loop l [] = True"
| "want_loop l (kv # want) =
     (if map_index l (fst kv) \<noteq> snd kv then False else want_loop l want)"

definition HasMatchingLabels :: "strmap \<Rightarrow> strmap \<Rightarrow> bool" where
  "HasMatchingLabels l wantLabels =
     (if length l < length wantLabels then False else want_loop l wantLabels)"

primrec check_loop :: "strmap \<Rightarrow> (string \<times> string) list \<Rightarrow> bool" where
  "check_loop l [] = True"
| "check_loop l (kv # want) =
     (if map_index l (fst kv) \<noteq> snd kv then False else check_loop l want)"

definition checkHasLabels :: "strmap \<Rightarrow> strmap \<Rightarrow> bool" where
  "checkHasLabels l wantLabels =
     (if length l < length wantLabels then False else check_loop l wantLabels)"

lemma want_loop_iff: "want_loop l want \<longleftrightarrow> (\<forall>(k, v) \<in> set want. map_index l k = v)"
  by (induction want) auto

lemma check_loop_iff: "check_loop l want \<longleftrightarrow> (\<forall>(k, v) \<in> set want. map_index l k = v)"
  by (induction want) auto

subsection \<open>The contract\<close>

locale label_matcher =
  fixes matches :: "strmap \<Rightarrow> strmap \<Rightarrow> bool"
  assumes matches_iff: "matches l want \<longleftrightarrow>
    length want \<le> length l \<and> (\<forall>(k, v) \<in> set want. map_index l k = v)"
begin

lemma matches_Nil: "matches l []"
  by (simp add: matches_iff)

text \<open>The answer depends on the entries only, not on the order a range visits them in.\<close>

lemma order_independent:
  assumes "mset want = mset want'" "mset l = mset l'" "map_wf l"
  shows "matches l want = matches l' want'"
proof -
  have "map_of l = map_of l'"
    using assms(2,3) by (rule map_of_mset)
  moreover have "length want = length want'" "set want = set want'" "length l = length l'"
    using assms by (auto dest: mset_eq_length mset_eq_setD)
  ultimately show ?thesis by (simp add: matches_iff map_index_def)
qed

text \<open>
  With no empty wanted value the routine decides inclusion of maps: the length check
  never changes the answer.
\<close>

lemma submap:
  assumes "map_wf l" "map_wf want" "'''' \<notin> snd ` set want"
  shows "matches l want \<longleftrightarrow> map_of want \<subseteq>\<^sub>m map_of l"
proof
  assume "matches l want"
  then have m: "map_index l k = v" if "(k, v) \<in> set want" for k v
    using that by (auto simp: matches_iff)
  show "map_of want \<subseteq>\<^sub>m map_of l"
  proof (unfold map_le_Some, intro allI impI)
    fix k v
    assume "map_of want k = Some v"
    then have "(k, v) \<in> set want" by (rule map_of_SomeD)
    moreover from this have "v \<noteq> ''''" using assms(3) by force
    ultimately show "map_of l k = Some v"
      using m [of k v] by (auto simp: map_index_def split: option.splits)
  qed
next
  assume sub: "map_of want \<subseteq>\<^sub>m map_of l"
  have "map_index l k = v" if "(k, v) \<in> set want" for k v
    using that sub assms(2) by (auto simp: map_index_def map_wf_lookup map_le_def dom_def)
  with sub assms show "matches l want"
    by (auto simp: matches_iff intro: map_le_length)
qed

lemma matches_refl: "map_wf l \<Longrightarrow> matches l l"
  by (auto simp: matches_iff map_index_def map_wf_lookup)

end

interpretation pod_labels: label_matcher HasMatchingLabels
  by unfold_locales (auto simp: HasMatchingLabels_def want_loop_iff)

interpretation node_labels: label_matcher checkHasLabels
  by unfold_locales (auto simp: checkHasLabels_def check_loop_iff)

text \<open>Both routines meet one contract that fixes every answer, so they agree.\<close>

lemma checkHasLabels_eq: "checkHasLabels = HasMatchingLabels"
  by (intro ext) (simp add: node_labels.matches_iff pod_labels.matches_iff)

end
