(* ===== verification/Label_Selectors.thy ===== *)
theory Label_Selectors
  imports Labels
begin

section \<open>Label selectors as documented\<close>

text \<open>
  What the resource definition of the policies
  (\<open>config/crd/bases/placement-policy.scheduling.x-k8s.io_placementpolicies.yaml\<close>) says of
  \<open>podSelector\<close> and \<open>nodeSelector\<close>: requirements with the operators In, NotIn, Exists and
  DoesNotExist, all of which must hold, an entry of \<open>matchLabels\<close> being a requirement In with
  one value. This is the reference the plugin's use of selectors is compared with.
\<close>

definition requirement_holds :: "LabelSelectorRequirement \<Rightarrow> strmap \<Rightarrow> bool" where
  "requirement_holds req l =
     (if reqOperator req = ''In'' then (case map_of l (reqKey req) of None \<Rightarrow> False | Some v \<Rightarrow> v \<in> set (reqValues req))
      else if reqOperator req = ''NotIn'' then (case map_of l (reqKey req) of None \<Rightarrow> True | Some v \<Rightarrow> v \<notin> set (reqValues req))
      else if reqOperator req = ''Exists'' then map_of l (reqKey req) \<noteq> None
      else if reqOperator req = ''DoesNotExist'' then map_of l (reqKey req) = None
      else False)"

definition label_query :: "LabelSelector \<Rightarrow> strmap \<Rightarrow> bool" where
  "label_query sel l \<longleftrightarrow>
     list_all (\<lambda>(k, v). requirement_holds \<lparr>reqKey = k, reqOperator = ''In'', reqValues = [v]\<rparr> l) (MatchLabels sel) \<and>
     list_all (\<lambda>req. requirement_holds req l) (MatchExpressions sel)"

text \<open>A selector whose labels can be compared with an object's by a lookup in Go.\<close>

definition plain_labels :: "LabelSelector \<Rightarrow> bool" where
  "plain_labels sel \<longleftrightarrow> map_wf (MatchLabels sel) \<and> '''' \<notin> snd ` set (MatchLabels sel)"

text \<open>The requirements of \<open>matchLabels\<close> alone say that the labels are among those of the object.\<close>

lemma match_labels_query:
  "list_all (\<lambda>(k, v). requirement_holds \<lparr>reqKey = k, reqOperator = ''In'', reqValues = [v]\<rparr> l) want \<longleftrightarrow>
   (\<forall>(k, v) \<in> set want. map_of l k = Some v)"
  by (auto simp: list_all_iff requirement_holds_def split: option.splits)

lemma map_le_entries: "map_wf want \<Longrightarrow> map_of want \<subseteq>\<^sub>m m \<longleftrightarrow> (\<forall>(k, v) \<in> set want. m k = Some v)"
  by (auto simp: map_wf_lookup map_le_Some)

text \<open>The plugin's two routines decide the query of a selector without its expressions.\<close>

context label_matcher
begin

lemma decides_match_labels:
  assumes "map_wf l" "plain_labels sel"
  shows "matches l (MatchLabels sel) \<longleftrightarrow> label_query (sel\<lparr>MatchExpressions := []\<rparr>) l"
  using assms submap [of l "MatchLabels sel"]
  by (simp add: plain_labels_def label_query_def match_labels_query map_le_entries)

end

lemma label_query_split:
  "label_query sel l \<longleftrightarrow> label_query (sel\<lparr>MatchExpressions := []\<rparr>) l \<and> list_all (\<lambda>req. requirement_holds req l) (MatchExpressions sel)"
  by (simp add: label_query_def)

end
