(* ===== verification/Weight_Sort.thy ===== *)
theory Weight_Sort
  imports Api_Types
begin

section \<open>Sorting by weight\<close>

text \<open>
  \<open>pkg/plugins/placementpolicy/core/sort.go\<close>: the three methods that make a slice of
  policies a \<open>sort.Interface\<close>, with \<open>sort.Reverse\<close> and \<open>sort.Sort\<close> of the standard
  library. The locale \<open>sort_interface\<close> is the contract of \<open>sort.Interface\<close>: \<open>Swap\<close>
  exchanges two elements and \<open>Less\<close> compares them by a key. \<open>sort_contract\<close> is what the
  documentation of \<open>sort.Sort\<close> promises; \<open>sort_Sort_12\<close> is the code the library runs on
  at most twelve elements, and meets it.
\<close>

subsection \<open>The methods of ByWeight\<close>

definition ByWeight_Len :: "PlacementPolicy list \<Rightarrow> nat" where
  "ByWeight_Len a = length a"

definition ByWeight_Swap :: "nat \<Rightarrow> nat \<Rightarrow> PlacementPolicy list \<Rightarrow> PlacementPolicy list" where
  "ByWeight_Swap i j a = a[i := a ! j, j := a ! i]"

definition ByWeight_Less :: "PlacementPolicy list \<Rightarrow> nat \<Rightarrow> nat \<Rightarrow> bool" where
  "ByWeight_Less a i j \<longleftrightarrow> sint (Weight (Spec (a ! i))) > sint (Weight (Spec (a ! j)))"

text \<open>\<open>sort.Reverse(data)\<close>: the same data with the arguments of \<open>Less\<close> exchanged.\<close>

definition Reverse_Less :: "('d \<Rightarrow> nat \<Rightarrow> nat \<Rightarrow> bool) \<Rightarrow> 'd \<Rightarrow> nat \<Rightarrow> nat \<Rightarrow> bool" where
  "Reverse_Less lss d i j = lss d j i"

subsection \<open>The standard library's sort\<close>

text \<open>
  The inner loop of \<open>insertionSort\<close>:
  \<open>for j := i; j > 0 && data.Less(j, j-1); j-- { data.Swap(j, j-1) }\<close>.
\<close>

type_synonym 'a less = "'a list \<Rightarrow> nat \<Rightarrow> nat \<Rightarrow> bool"
type_synonym 'a swap = "nat \<Rightarrow> nat \<Rightarrow> 'a list \<Rightarrow> 'a list"

primrec sift :: "'a less \<Rightarrow> 'a swap \<Rightarrow> nat \<Rightarrow> 'a list \<Rightarrow> 'a list" where
  "sift lss swap 0 d = d"
| "sift lss swap (Suc j) d =
     (if lss d (Suc j) j then sift lss swap j (swap (Suc j) j d) else d)"

definition insertionSort :: "'a less \<Rightarrow> 'a swap \<Rightarrow> nat \<Rightarrow> 'a list \<Rightarrow> 'a list" where
  "insertionSort lss swap n d = fold (sift lss swap) [1..<n] d"

text \<open>The Shell pass with gap 6 that \<open>quickSort\<close> makes before \<open>insertionSort\<close>.\<close>

definition shell_pass :: "'a less \<Rightarrow> 'a swap \<Rightarrow> nat \<Rightarrow> 'a list \<Rightarrow> 'a list" where
  "shell_pass lss swap n d =
     fold (\<lambda>i d. if lss d i (i - 6) then swap i (i - 6) d else d) [6..<n] d"

definition sort_Sort_12 :: "'a less \<Rightarrow> 'a swap \<Rightarrow> nat \<Rightarrow> 'a list \<Rightarrow> 'a list" where
  "sort_Sort_12 lss swap n d =
     (if n > 1 then insertionSort lss swap n (shell_pass lss swap n d) else d)"

subsection \<open>The contract of sort.Interface\<close>

locale sort_interface =
  fixes Less :: "'a less" and Swap :: "'a swap" and key :: "'a \<Rightarrow> int"
  assumes Swap_eq: "i < length d \<Longrightarrow> j < length d \<Longrightarrow> Swap i j d = d[i := d ! j, j := d ! i]"
    and Less_iff: "i < length d \<Longrightarrow> j < length d \<Longrightarrow> Less d i j \<longleftrightarrow> key (d ! i) < key (d ! j)"

definition sort_contract :: "('a less \<Rightarrow> 'a swap \<Rightarrow> nat \<Rightarrow> 'a list \<Rightarrow> 'a list) \<Rightarrow> bool" where
  "sort_contract srt \<longleftrightarrow>
     (\<forall>Less Swap key d. sort_interface Less Swap key \<longrightarrow>
        mset (srt Less Swap (length d) d) = mset d \<and>
        sorted (map key (srt Less Swap (length d) d)))"

text \<open>
  The sifting loop inserts an element into the sorted part to its left; on the reversed
  prefix that is the usual insertion.
\<close>

primrec insert_rev :: "('a \<Rightarrow> int) \<Rightarrow> 'a \<Rightarrow> 'a list \<Rightarrow> 'a list" where
  "insert_rev key y [] = [y]"
| "insert_rev key y (x # xs) = (if key y < key x then x # insert_rev key y xs else y # x # xs)"

lemma mset_insert_rev [simp]: "mset (insert_rev key y xs) = add_mset y (mset xs)"
  by (induction xs) auto

lemma set_insert_rev [simp]: "set (insert_rev key y xs) = insert y (set xs)"
  by (induction xs) auto

lemma length_insert_rev [simp]: "length (insert_rev key y xs) = Suc (length xs)"
  by (induction xs) auto

lemma sorted_insert_rev:
  "sorted (map key (rev xs)) \<Longrightarrow> sorted (map key (rev (insert_rev key y xs)))"
  by (induction xs) (fastforce simp: sorted_append)+

context sort_interface
begin

lemma sift_eq:
  "sift Less Swap (length rxs) (rev rxs @ y # zs) = rev (insert_rev key y rxs) @ zs"
proof (induction rxs arbitrary: zs)
  case Nil
  then show ?case by simp
next
  case (Cons x rxs)
  let ?d = "rev rxs @ x # y # zs"
  have nth: "?d ! length rxs = x" "?d ! Suc (length rxs) = y"
    by (simp_all add: nth_append)
  have lss: "Less ?d (Suc (length rxs)) (length rxs) \<longleftrightarrow> key y < key x"
    using nth by (simp add: Less_iff)
  have swap: "Swap (Suc (length rxs)) (length rxs) ?d = rev rxs @ y # x # zs"
    using nth by (simp add: Swap_eq list_update_append)
  show ?case
    using Cons.IH [of "x # zs"] lss swap by simp
qed

lemma sift_step:
  assumes "k < length d" "sorted (map key (take k d))"
  shows "mset (sift Less Swap k d) = mset d" "length (sift Less Swap k d) = length d"
    "sorted (map key (take (Suc k) (sift Less Swap k d)))"
proof -
  let ?r = "rev (take k d)"
  have len: "length ?r = k" using assms(1) by simp
  have d: "d = rev ?r @ d ! k # drop (Suc k) d"
    using assms(1) by (simp add: id_take_nth_drop [symmetric])
  have eq: "sift Less Swap k d = rev (insert_rev key (d ! k) ?r) @ drop (Suc k) d"
    using sift_eq [of ?r "d ! k" "drop (Suc k) d"] len d by metis
  have "mset d = mset (rev ?r @ d ! k # drop (Suc k) d)" using d by metis
  then show "mset (sift Less Swap k d) = mset d" by (simp add: eq)
  then show "length (sift Less Swap k d) = length d" by (rule mset_eq_length)
  have "take (Suc k) (sift Less Swap k d) = rev (insert_rev key (d ! k) ?r)"
    using assms(1) by (simp add: eq)
  with assms(2) show "sorted (map key (take (Suc k) (sift Less Swap k d)))"
    by (simp add: sorted_insert_rev)
qed

lemma insertionSort_prefix:
  assumes "k \<le> length d"
  shows "mset (fold (sift Less Swap) [1..<k] d) = mset d \<and>
    sorted (map key (take k (fold (sift Less Swap) [1..<k] d)))"
  using assms
proof (induction k)
  case 0
  then show ?case by simp
next
  case (Suc k)
  show ?case
  proof (cases "k = 0")
    case True
    then show ?thesis by (cases d) simp_all
  next
    case False
    let ?e = "fold (sift Less Swap) [1..<k] d"
    have e: "mset ?e = mset d" "sorted (map key (take k ?e))"
      using Suc by simp_all
    have "k < length ?e" using Suc.prems mset_eq_length [OF e(1)] by simp
    from sift_step [OF this e(2)] e(1) False show ?thesis by simp
  qed
qed

lemma insertionSort_sorts:
  "mset (insertionSort Less Swap (length d) d) = mset d"
  "sorted (map key (insertionSort Less Swap (length d) d))"
proof -
  have i: "mset (insertionSort Less Swap (length d) d) = mset d \<and>
    sorted (map key (take (length d) (insertionSort Less Swap (length d) d)))"
    unfolding insertionSort_def by (rule insertionSort_prefix) simp
  then show m: "mset (insertionSort Less Swap (length d) d) = mset d" by simp
  from i mset_eq_length [OF m] show "sorted (map key (insertionSort Less Swap (length d) d))"
    by simp
qed

lemma Swap_mset: "i < length d \<Longrightarrow> j < length d \<Longrightarrow> mset (Swap i j d) = mset d"
  by (simp add: Swap_eq mset_swap)

lemma shell_pass_mset:
  assumes "n \<le> length d"
  shows "mset (shell_pass Less Swap n d) = mset d"
proof -
  have "mset (fold (\<lambda>i d. if Less d i (i - 6) then Swap i (i - 6) d else d) is d) = mset d"
    if "\<forall>i \<in> set is. i < length d" for "is" :: "nat list"
    using that
  proof (induction "is" arbitrary: d)
    case Nil
    then show ?case by simp
  next
    case (Cons i "is")
    let ?e = "if Less d i (i - 6) then Swap i (i - 6) d else d"
    have e: "mset ?e = mset d" using Cons.prems
      by (auto simp: Swap_mset less_imp_diff_less)
    then have "length ?e = length d" by (rule mset_eq_length)
    with Cons.prems have "\<forall>i \<in> set is. i < length ?e" by simp
    from Cons.IH [OF this] e show ?case by simp
  qed
  then show ?thesis using assms by (simp add: shell_pass_def)
qed

lemma sort_Sort_12_sorts:
  "mset (sort_Sort_12 Less Swap (length d) d) = mset d"
  "sorted (map key (sort_Sort_12 Less Swap (length d) d))"
proof -
  let ?e = "shell_pass Less Swap (length d) d"
  have m: "mset ?e = mset d" by (rule shell_pass_mset) simp
  then have l: "length ?e = length d" by (rule mset_eq_length)
  show "mset (sort_Sort_12 Less Swap (length d) d) = mset d"
    using insertionSort_sorts(1) [of ?e] m l by (simp add: sort_Sort_12_def)
  show "sorted (map key (sort_Sort_12 Less Swap (length d) d))"
  proof (cases "length d > 1")
    case True
    then show ?thesis using insertionSort_sorts(2) [of ?e] l by (simp add: sort_Sort_12_def)
  next
    case False
    then show ?thesis by (cases d) (auto simp: sort_Sort_12_def)
  qed
qed

lemma contract_sorts:
  assumes "sort_contract srt"
  shows "mset (srt Less Swap (length d) d) = mset d"
    "sorted (map key (srt Less Swap (length d) d))"
  using assms sort_interface_axioms unfolding sort_contract_def by blast+

lemma contract_hd_least:
  assumes "sort_contract srt" "x \<in> set d"
  shows "key (srt Less Swap (length d) d ! 0) \<le> key x"
proof -
  let ?r = "srt Less Swap (length d) d"
  have "x \<in> set ?r" using contract_sorts(1) [OF assms(1), of d] assms(2) by (metis set_mset_mset)
  then obtain i where i: "i < length ?r" "?r ! i = x" by (metis in_set_conv_nth)
  then have "map key ?r ! 0 \<le> map key ?r ! i"
    using contract_sorts(2) [OF assms(1)] by (intro sorted_nth_mono) simp_all
  moreover have "0 < length ?r" using i(1) by linarith
  ultimately show ?thesis using i by simp
qed

end

lemma sort_Sort_12_contract [simp]: "sort_contract sort_Sort_12"
  by (simp add: sort_contract_def sort_interface.sort_Sort_12_sorts)

subsection \<open>ByWeight and its reverse as sort.Interface\<close>

definition policy_weight :: "PlacementPolicy \<Rightarrow> int" where
  "policy_weight pp = sint (Weight (Spec pp))"

interpretation by_weight: sort_interface ByWeight_Less ByWeight_Swap "\<lambda>pp. - policy_weight pp"
  by unfold_locales (auto simp: ByWeight_Less_def ByWeight_Swap_def policy_weight_def)

interpretation reverse_by_weight:
  sort_interface "Reverse_Less ByWeight_Less" ByWeight_Swap policy_weight
  by unfold_locales (auto simp: Reverse_Less_def ByWeight_Less_def ByWeight_Swap_def policy_weight_def)

end
