(* ===== verification/Lister.thy ===== *)
theory Lister
  imports Api_Types
begin

section \<open>The policy lister\<close>

text \<open>
  \<open>pkg/client/listers/apis/v1alpha1/placementpolicy.go\<close>: reading policies out of an
  informer's cache. The cache is code of client-go and a parameter of the model
  (\<open>Indexer\<close>): what \<open>cache.ListAll\<close> and \<open>cache.ListAllByNamespace\<close> hand to their
  callback, in order, with the error they end with, and what \<open>GetByKey\<close> answers.
\<close>

record ('w, 'sel) Indexer =
  ListAll :: "'w \<Rightarrow> 'sel \<Rightarrow> iface list \<times> goerror option"
  ListAllByNamespace :: "'w \<Rightarrow> string \<Rightarrow> 'sel \<Rightarrow> iface list \<times> goerror option"
  GetByKey :: "'w \<Rightarrow> string \<Rightarrow> iface option \<times> bool \<times> goerror option"

record ('w, 'sel) placementPolicyLister =
  lister_indexer :: "('w, 'sel) Indexer"

record ('w, 'sel) placementPolicyNamespaceLister =
  nslister_indexer :: "('w, 'sel) Indexer"
  nslister_namespace :: string

text \<open>
  The interfaces \<open>PlacementPolicyNamespaceLister\<close> and \<open>PlacementPolicyLister\<close>, as records of
  their methods.
\<close>

record ('w, 'sel) PlacementPolicyNamespaceLister =
  pn_List :: "'w \<Rightarrow> 'sel \<Rightarrow> (PlacementPolicy list \<times> goerror option) go"
  pn_Get :: "'w \<Rightarrow> string \<Rightarrow> (PlacementPolicy option \<times> goerror option) go"

record ('w, 'sel) PlacementPolicyLister =
  pl_List :: "'w \<Rightarrow> 'sel \<Rightarrow> (PlacementPolicy list \<times> goerror option) go"
  pl_PlacementPolicies :: "string \<Rightarrow> ('w, 'sel) PlacementPolicyNamespaceLister"

text \<open>
  The callback \<open>func(m interface{}) { ret = append(ret, m.(*v1alpha1.PlacementPolicy)) }\<close>
  of both lists.
\<close>

definition append_callback :: "iface \<Rightarrow> PlacementPolicy list \<Rightarrow> PlacementPolicy list go" where
  "append_callback m ret = go_bind (assert_PlacementPolicy m) (\<lambda>pp. Return (ret @ [pp]))"

definition Lister_List ::
    "('w, 'sel) placementPolicyLister \<Rightarrow> 'w \<Rightarrow> 'sel \<Rightarrow> (PlacementPolicy list \<times> goerror option) go" where
  "Lister_List s w selector =
     (case ListAll (lister_indexer s) w selector of (objs, err) \<Rightarrow>
        go_bind (range_loop append_callback objs []) (\<lambda>ret. Return (ret, err)))"

definition NamespaceLister_List ::
    "('w, 'sel) placementPolicyNamespaceLister \<Rightarrow> 'w \<Rightarrow> 'sel
      \<Rightarrow> (PlacementPolicy list \<times> goerror option) go" where
  "NamespaceLister_List s w selector =
     (case ListAllByNamespace (nslister_indexer s) w (nslister_namespace s) selector of (objs, err) \<Rightarrow>
        go_bind (range_loop append_callback objs []) (\<lambda>ret. Return (ret, err)))"

definition NamespaceLister_Get ::
    "('w, 'sel) placementPolicyNamespaceLister \<Rightarrow> 'w \<Rightarrow> string
      \<Rightarrow> (PlacementPolicy option \<times> goerror option) go" where
  "NamespaceLister_Get s w name =
     (case GetByKey (nslister_indexer s) w (nslister_namespace s @ ''/'' @ name) of
        (obj, exists, err) \<Rightarrow>
        (case err of
           Some e \<Rightarrow> Return (None, Some e)
         | None \<Rightarrow>
             if \<not> exists then Return (None, Some (ApiNotFound (Resource ''placementpolicy'') name))
             else (case obj of
                     None \<Rightarrow> Panic TypeAssertion
                   | Some m \<Rightarrow> go_bind (assert_PlacementPolicy m) (\<lambda>pp. Return (Some pp, None)))))"

text \<open>The structs as values of their interfaces; the two functions that make them return these.\<close>

definition NamespaceLister_Interface ::
    "('w, 'sel) placementPolicyNamespaceLister \<Rightarrow> ('w, 'sel) PlacementPolicyNamespaceLister" where
  "NamespaceLister_Interface s = \<lparr>pn_List = NamespaceLister_List s, pn_Get = NamespaceLister_Get s\<rparr>"

definition Lister_PlacementPolicies ::
    "('w, 'sel) placementPolicyLister \<Rightarrow> string \<Rightarrow> ('w, 'sel) PlacementPolicyNamespaceLister" where
  "Lister_PlacementPolicies s namespace =
     NamespaceLister_Interface \<lparr>nslister_indexer = lister_indexer s, nslister_namespace = namespace\<rparr>"

definition Lister_Interface :: "('w, 'sel) placementPolicyLister \<Rightarrow> ('w, 'sel) PlacementPolicyLister" where
  "Lister_Interface s = \<lparr>pl_List = Lister_List s, pl_PlacementPolicies = Lister_PlacementPolicies s\<rparr>"

definition NewPlacementPolicyLister :: "('w, 'sel) Indexer \<Rightarrow> ('w, 'sel) PlacementPolicyLister" where
  "NewPlacementPolicyLister ix = Lister_Interface \<lparr>lister_indexer = ix\<rparr>"

lemma new_lister_simps [simp]:
  "pl_List (NewPlacementPolicyLister ix) = Lister_List \<lparr>lister_indexer = ix\<rparr>"
  "pn_List (pl_PlacementPolicies (NewPlacementPolicyLister ix) ns) =
     NamespaceLister_List \<lparr>nslister_indexer = ix, nslister_namespace = ns\<rparr>"
  "pn_Get (pl_PlacementPolicies (NewPlacementPolicyLister ix) ns) =
     NamespaceLister_Get \<lparr>nslister_indexer = ix, nslister_namespace = ns\<rparr>"
  by (simp_all add: NewPlacementPolicyLister_def Lister_Interface_def Lister_PlacementPolicies_def
      NamespaceLister_Interface_def)

subsection \<open>What the lists return\<close>

lemma append_callback_simps [go_simps]:
  "append_callback (IfacePolicy pp) ret = Return (ret @ [pp])"
  "append_callback (IfaceOther t) ret = Panic TypeAssertion"
  by (simp_all add: append_callback_def)

lemma append_callback_policies:
  "range_loop append_callback (map IfacePolicy pps) acc = Return (acc @ pps)"
  by (induction pps arbitrary: acc) (simp_all add: go_simps)

lemma append_callback_Return:
  "range_loop append_callback objs acc = Return ret \<Longrightarrow>
   \<exists>pps. objs = map IfacePolicy pps \<and> ret = acc @ pps"
proof (induction objs arbitrary: acc)
  case Nil
  then show ?case by simp
next
  case (Cons m objs)
  show ?case
  proof (cases m)
    case (IfacePolicy pp)
    with Cons.prems have "range_loop append_callback objs (acc @ [pp]) = Return ret"
      by (simp add: append_callback_simps)
    from Cons.IH [OF this] obtain pps
      where "objs = map IfacePolicy pps" "ret = (acc @ [pp]) @ pps" by blast
    with IfacePolicy show ?thesis by (intro exI [of _ "pp # pps"]) simp
  next
    case (IfaceOther t)
    with Cons.prems show ?thesis by (simp add: append_callback_simps)
  qed
qed

lemma NamespaceLister_List_policies [go_simps]:
  "ListAllByNamespace ix w ns sel = (map IfacePolicy pps, err) \<Longrightarrow>
   NamespaceLister_List \<lparr>nslister_indexer = ix, nslister_namespace = ns\<rparr> w sel = Return (pps, err)"
  by (simp add: NamespaceLister_List_def append_callback_policies)

lemma NamespaceLister_List_Return:
  assumes "NamespaceLister_List s w sel = Return (pps, err)"
  shows "ListAllByNamespace (nslister_indexer s) w (nslister_namespace s) sel = (map IfacePolicy pps, err)"
proof -
  obtain objs e
    where o: "ListAllByNamespace (nslister_indexer s) w (nslister_namespace s) sel = (objs, e)"
    by fastforce
  with assms have "range_loop append_callback objs [] = Return pps" and "e = err"
    by (auto simp: NamespaceLister_List_def go_simps)
  with o append_callback_Return [of objs "[]" pps] show ?thesis by auto
qed

lemma Lister_List_policies [go_simps]:
  "ListAll ix w sel = (map IfacePolicy pps, err) \<Longrightarrow>
   Lister_List \<lparr>lister_indexer = ix\<rparr> w sel = Return (pps, err)"
  by (simp add: Lister_List_def append_callback_policies)

lemma Lister_List_Return:
  assumes "Lister_List s w sel = Return (pps, err)"
  shows "ListAll (lister_indexer s) w sel = (map IfacePolicy pps, err)"
proof -
  obtain objs e where o: "ListAll (lister_indexer s) w sel = (objs, e)"
    by fastforce
  with assms have "range_loop append_callback objs [] = Return pps" and "e = err"
    by (auto simp: Lister_List_def go_simps)
  with o append_callback_Return [of objs "[]" pps] show ?thesis by auto
qed

subsection \<open>Keys of the cache\<close>

text \<open>A namespace has no slash, so a key \<open>namespace/name\<close> splits in one way.\<close>

lemma key_splits:
  "CHR ''/'' \<notin> set ns \<Longrightarrow> CHR ''/'' \<notin> set ns' \<Longrightarrow>
   ns' @ CHR ''/'' # x' = ns @ CHR ''/'' # x \<longleftrightarrow> ns' = ns \<and> x' = x"
proof (induction ns arbitrary: ns')
  case Nil
  then show ?case by (cases ns') auto
next
  case (Cons c ns)
  then show ?case by (cases ns') auto
qed

lemma find_key:
  assumes "CHR ''/'' \<notin> set ns" "\<forall>pp \<in> set pps. CHR ''/'' \<notin> set (ppNamespace pp)"
  shows "find (\<lambda>pp. ppNamespace pp @ CHR ''/'' # ppName pp = ns @ CHR ''/'' # x) pps =
    find (\<lambda>pp. ppNamespace pp = ns \<and> ppName pp = x) pps"
  by (rule find_cong [OF refl]) (use assms in \<open>simp add: key_splits\<close>)

subsection \<open>The contract of a lister\<close>

text \<open>
  What a caller relies on: the lists of everything and of a namespace have what is held and
  selected, and a policy is found by its namespace and name. A cache is \<open>ok\<close> in the states
  in which client-go keeps its promises.
\<close>

locale policy_lister =
  fixes l :: "('w, 'sel) PlacementPolicyLister"
    and held :: "'w \<Rightarrow> PlacementPolicy set"
    and chosen :: "'sel \<Rightarrow> PlacementPolicy \<Rightarrow> bool"
    and ok :: "'w \<Rightarrow> bool"
  assumes lists: "ok w \<Longrightarrow> \<exists>pps. pl_List l w sel = Return (pps, None) \<and> distinct pps \<and>
      set pps = {p \<in> held w. chosen sel p}"
    and lists_namespace: "ok w \<Longrightarrow> ns \<noteq> '''' \<Longrightarrow>
      \<exists>pps. pn_List (pl_PlacementPolicies l ns) w sel = Return (pps, None) \<and> distinct pps \<and>
        set pps = {p \<in> held w. ppNamespace p = ns \<and> chosen sel p}"
    and gets: "ok w \<Longrightarrow> CHR ''/'' \<notin> set ns \<Longrightarrow> p \<in> held w \<Longrightarrow> ppNamespace p = ns \<Longrightarrow> ppName p = name \<Longrightarrow>
      pn_Get (pl_PlacementPolicies l ns) w name = Return (Some p, None)"
    and misses: "ok w \<Longrightarrow> CHR ''/'' \<notin> set ns \<Longrightarrow> \<forall>p \<in> held w. ppNamespace p = ns \<longrightarrow> ppName p \<noteq> name \<Longrightarrow>
      pn_Get (pl_PlacementPolicies l ns) w name = Return (None, Some (ApiNotFound (Resource ''placementpolicy'') name))"
begin

text \<open>What a list shows is found by its name, and what is found is in the list.\<close>

lemma listed_is_found:
  assumes "ok w" "ns \<noteq> ''''" "CHR ''/'' \<notin> set ns"
    and "pn_List (pl_PlacementPolicies l ns) w sel = Return (pps, err)" "p \<in> set pps"
  shows "ppNamespace p = ns \<and> pn_Get (pl_PlacementPolicies l ns) w (ppName p) = Return (Some p, None)"
  using lists_namespace [OF assms(1,2), of sel] gets [OF assms(1,3), of p "ppName p"] assms(4,5) by auto

lemma found_is_listed:
  assumes "ok w" "ns \<noteq> ''''" "CHR ''/'' \<notin> set ns"
    and "pn_Get (pl_PlacementPolicies l ns) w name = Return (Some p, err)" "chosen sel p"
  shows "\<exists>pps. pn_List (pl_PlacementPolicies l ns) w sel = Return (pps, None) \<and> p \<in> set pps \<and> ppName p = name"
proof -
  have "\<exists>q \<in> held w. ppNamespace q = ns \<and> ppName q = name"
    using misses [OF assms(1,3), of name] assms(4) by auto
  then obtain q where q: "q \<in> held w" "ppNamespace q = ns" "ppName q = name" by blast
  with gets [OF assms(1,3) q] assms(4) have "q = p" by simp
  with lists_namespace [OF assms(1,2), of sel] q assms(5) show ?thesis by auto
qed

text \<open>The list of a namespace is the part of the list of everything that is in it.\<close>

lemma namespace_of_list:
  assumes "ok w" "ns \<noteq> ''''" "pl_List l w sel = Return (pps, err)"
    and "pn_List (pl_PlacementPolicies l ns) w sel = Return (pps', err')"
  shows "set pps' = {p \<in> set pps. ppNamespace p = ns}"
  using lists [OF assms(1), of sel] lists_namespace [OF assms(1,2), of sel] assms(3,4) by auto

end

text \<open>
  What client-go documents of the cache of an informer, with the namespace index the
  informer is made with: \<open>cache.ListAll\<close> and \<open>cache.ListAllByNamespace\<close> go through the
  objects a selector matches, and \<open>GetByKey\<close> finds an object under \<open>namespace/name\<close>, the
  key of one object only. A namespace has no slash in its name.
\<close>

definition cache_contract ::
    "('w, 'sel) Indexer \<Rightarrow> ('w \<Rightarrow> PlacementPolicy set) \<Rightarrow> ('sel \<Rightarrow> PlacementPolicy \<Rightarrow> bool) \<Rightarrow> 'w \<Rightarrow> bool" where
  "cache_contract ix held chosen w \<longleftrightarrow>
     (\<forall>sel. \<exists>pps. ListAll ix w sel = (map IfacePolicy pps, None) \<and> distinct pps \<and>
        set pps = {p \<in> held w. chosen sel p}) \<and>
     (\<forall>ns sel. ns \<noteq> '''' \<longrightarrow> (\<exists>pps. ListAllByNamespace ix w ns sel = (map IfacePolicy pps, None) \<and> distinct pps \<and>
        set pps = {p \<in> held w. ppNamespace p = ns \<and> chosen sel p})) \<and>
     (\<forall>p \<in> held w. GetByKey ix w (ppNamespace p @ ''/'' @ ppName p) = (Some (IfacePolicy p), True, None)) \<and>
     (\<forall>key. (\<forall>p \<in> held w. ppNamespace p @ ''/'' @ ppName p \<noteq> key) \<longrightarrow> GetByKey ix w key = (None, False, None)) \<and>
     (\<forall>p \<in> held w. CHR ''/'' \<notin> set (ppNamespace p))"

interpretation cached: policy_lister "NewPlacementPolicyLister ix" held chosen "cache_contract ix held chosen"
  for ix :: "('w, 'sel) Indexer" and held chosen
proof unfold_locales
  fix w sel
  assume "cache_contract ix held chosen w"
  then obtain pps where "ListAll ix w sel = (map IfacePolicy pps, None)" "distinct pps"
    "set pps = {p \<in> held w. chosen sel p}" unfolding cache_contract_def by metis
  then show "\<exists>pps. pl_List (NewPlacementPolicyLister ix) w sel = Return (pps, None) \<and> distinct pps \<and>
      set pps = {p \<in> held w. chosen sel p}" by (simp add: Lister_List_policies)
next
  fix w sel and ns :: string
  assume "cache_contract ix held chosen w" "ns \<noteq> ''''"
  then obtain pps where "ListAllByNamespace ix w ns sel = (map IfacePolicy pps, None)" "distinct pps"
    "set pps = {p \<in> held w. ppNamespace p = ns \<and> chosen sel p}" unfolding cache_contract_def by metis
  then show "\<exists>pps. pn_List (pl_PlacementPolicies (NewPlacementPolicyLister ix) ns) w sel = Return (pps, None) \<and>
      distinct pps \<and> set pps = {p \<in> held w. ppNamespace p = ns \<and> chosen sel p}"
    by (simp add: NamespaceLister_List_policies)
next
  fix w p and ns name :: string
  assume "cache_contract ix held chosen w" "p \<in> held w" "ppNamespace p = ns" "ppName p = name"
  then have "GetByKey ix w (ns @ ''/'' @ name) = (Some (IfacePolicy p), True, None)"
    unfolding cache_contract_def by blast
  then show "pn_Get (pl_PlacementPolicies (NewPlacementPolicyLister ix) ns) w name = Return (Some p, None)"
    by (simp add: NamespaceLister_Get_def)
next
  fix w and ns name :: string
  assume c: "cache_contract ix held chosen w" and ns: "CHR ''/'' \<notin> set ns"
    and no: "\<forall>p \<in> held w. ppNamespace p = ns \<longrightarrow> ppName p \<noteq> name"
  have "\<forall>p \<in> held w. CHR ''/'' \<notin> set (ppNamespace p)" using c unfolding cache_contract_def by blast
  then have "\<forall>p \<in> held w. ppNamespace p @ ''/'' @ ppName p \<noteq> ns @ ''/'' @ name"
    using no by (auto simp: key_splits [OF ns])
  then have "GetByKey ix w (ns @ ''/'' @ name) = (None, False, None)"
    using c unfolding cache_contract_def by blast
  then show "pn_Get (pl_PlacementPolicies (NewPlacementPolicyLister ix) ns) w name =
      Return (None, Some (ApiNotFound (Resource ''placementpolicy'') name))"
    by (simp add: NamespaceLister_Get_def)
qed

end
