(* ===== verification/Informer_Factory.thy ===== *)
theory Informer_Factory
  imports Lister
begin

section \<open>The shared informer factory\<close>

text \<open>
  \<open>pkg/client/informers/externalversions/factory.go\<close>: the factory that creates one informer
  per type on demand, starts each at most once, and waits for the started ones. An
  informer is an object of client-go (type \<open>'inf\<close>), made by the function the caller gives
  to \<open>InformerFor\<close>; a Go type (\<open>reflect.Type\<close>) is its name. Every method holds the
  factory's lock, so a call is one step. A \<open>go informer.Run(stopCh)\<close> is an entry of the
  list of launches that \<open>Start\<close> returns.
\<close>

type_synonym Duration = int64

text \<open>The fields of \<open>v1.ListOptions\<close>, as far as the repository and its callers set them.\<close>

record ListOptions =
  loLabelSelector :: string
  loFieldSelector :: string
  loWatch :: bool
  loTimeoutSeconds :: "int64 option"

type_synonym TweakListOptionsFunc = "ListOptions \<Rightarrow> ListOptions"

record 'inf sharedInformerFactory =
  fac_client :: handle
  fac_namespace :: string
  fac_tweakListOptions :: "TweakListOptionsFunc option"
  fac_defaultResync :: Duration
  fac_customResync :: "Duration gomap"
  fac_informers :: "'inf gomap"
  fac_startedInformers :: "bool gomap"

type_synonym 'inf SharedInformerOption = "'inf sharedInformerFactory \<Rightarrow> 'inf sharedInformerFactory"

text \<open>
  The interface \<open>PlacementPolicyInformer\<close> of \<open>apis/v1alpha1/placementpolicy.go\<close> and
  \<open>GenericInformer\<close> of \<open>generic.go\<close>. The first reaches its informer through a factory in
  state \<open>'f\<close>, which it may change; the second holds its informer.
\<close>

record ('f, 'inf, 'w, 'sel) PlacementPolicyInformer =
  pp_Informer :: "'f \<Rightarrow> 'inf \<times> 'f"
  pp_Lister :: "'f \<Rightarrow> ('w, 'sel) PlacementPolicyLister \<times> 'f"

text \<open>
  The interfaces of the factory: the small one of \<open>internalinterfaces\<close>, which the accessors
  hold, and \<open>SharedInformerFactory\<close>, which extends it; a launched informer is an entry of the
  list \<open>Start\<close> returns. \<open>'g\<close> is the group accessor, \<open>'gen\<close> the generic informer.
\<close>

type_synonym 'inf NewInformerFunc = "handle \<Rightarrow> Duration \<Rightarrow> 'inf"

record ('f, 'inf) internal_SharedInformerFactory =
  sif_Start :: "'f \<Rightarrow> 'f \<times> (string \<times> 'inf) list"
  sif_InformerFor :: "string \<Rightarrow> 'inf NewInformerFunc \<Rightarrow> 'f \<Rightarrow> 'inf \<times> 'f"

record ('f, 'inf, 'g, 'gen) SharedInformerFactory = "('f, 'inf) internal_SharedInformerFactory" +
  sif_ForResource :: "GroupVersionResource \<Rightarrow> 'f \<Rightarrow> ('gen option \<times> goerror option) \<times> 'f"
  sif_WaitForCacheSync :: "('inf \<Rightarrow> bool) \<Rightarrow> 'f \<Rightarrow> bool gomap"
  sif_Placementpolicy :: "'f \<Rightarrow> 'g"

record ('inf, 'lister) GenericInformer =
  gen_Informer :: 'inf
  gen_Lister :: 'lister

subsection \<open>Construction\<close>

definition WithCustomResyncConfig :: "(string \<times> Duration) list \<Rightarrow> 'inf SharedInformerOption" where
  "WithCustomResyncConfig resyncConfig factory =
     fold (\<lambda>(k, v) f. f\<lparr>fac_customResync := map_store k v (fac_customResync f)\<rparr>) resyncConfig factory"

definition WithTweakListOptions :: "TweakListOptionsFunc option \<Rightarrow> 'inf SharedInformerOption" where
  "WithTweakListOptions tweak factory = factory\<lparr>fac_tweakListOptions := tweak\<rparr>"

definition WithNamespace :: "string \<Rightarrow> 'inf SharedInformerOption" where
  "WithNamespace namespace factory = factory\<lparr>fac_namespace := namespace\<rparr>"

text \<open>\<open>v1.NamespaceAll\<close> is the empty string.\<close>

definition NewSharedInformerFactoryWithOptions ::
    "handle \<Rightarrow> Duration \<Rightarrow> 'inf SharedInformerOption list \<Rightarrow> 'inf sharedInformerFactory" where
  "NewSharedInformerFactoryWithOptions c defaultResync options =
     fold (\<lambda>opt factory. opt factory) options
       \<lparr>fac_client = c, fac_namespace = '''', fac_tweakListOptions = None,
        fac_defaultResync = defaultResync, fac_customResync = [],
        fac_informers = [], fac_startedInformers = []\<rparr>"

definition NewSharedInformerFactory :: "handle \<Rightarrow> Duration \<Rightarrow> 'inf sharedInformerFactory" where
  "NewSharedInformerFactory c defaultResync = NewSharedInformerFactoryWithOptions c defaultResync []"

definition NewFilteredSharedInformerFactory ::
    "handle \<Rightarrow> Duration \<Rightarrow> string \<Rightarrow> TweakListOptionsFunc option \<Rightarrow> 'inf sharedInformerFactory" where
  "NewFilteredSharedInformerFactory c defaultResync namespace tweak =
     NewSharedInformerFactoryWithOptions c defaultResync
       [WithNamespace namespace, WithTweakListOptions tweak]"

subsection \<open>Operations\<close>

definition started :: "bool gomap \<Rightarrow> string \<Rightarrow> bool" where
  "started m t = (case map_of m t of None \<Rightarrow> False | Some b \<Rightarrow> b)"

text \<open>The loop of \<open>Start\<close>: over the informers, with the started map and the launches so far.\<close>

primrec start_loop ::
    "(string \<times> 'inf) list \<Rightarrow> bool gomap \<times> (string \<times> 'inf) list \<Rightarrow> bool gomap \<times> (string \<times> 'inf) list" where
  "start_loop [] s = s"
| "start_loop (ti # tis) s =
     start_loop tis
       (if \<not> started (fst s) (fst ti)
        then (map_store (fst ti) True (fst s), snd s @ [ti])
        else s)"

definition Start :: "'inf sharedInformerFactory \<Rightarrow> 'inf sharedInformerFactory \<times> (string \<times> 'inf) list" where
  "Start f =
     (case start_loop (fac_informers f) (fac_startedInformers f, []) of
        (m, launches) \<Rightarrow> (f\<lparr>fac_startedInformers := m\<rparr>, launches))"

text \<open>\<open>has_synced\<close> is the answer of \<open>cache.WaitForCacheSync(stopCh, informer.HasSynced)\<close>.\<close>

definition WaitForCacheSync :: "('inf \<Rightarrow> bool) \<Rightarrow> 'inf sharedInformerFactory \<Rightarrow> bool gomap" where
  "WaitForCacheSync has_synced f =
     (let informers = fold (\<lambda>(t, i) m. if started (fac_startedInformers f) t then map_store t i m else m)
            (fac_informers f) []
      in fold (\<lambda>(t, i) res. map_store t (has_synced i) res) informers [])"

definition InformerFor ::
    "string \<Rightarrow> 'inf NewInformerFunc \<Rightarrow> 'inf sharedInformerFactory \<Rightarrow> 'inf \<times> 'inf sharedInformerFactory" where
  "InformerFor informerType newFunc f =
     (case map_of (fac_informers f) informerType of
        Some informer \<Rightarrow> (informer, f)
      | None \<Rightarrow>
          let resyncPeriod =
                (case map_of (fac_customResync f) informerType of
                   Some d \<Rightarrow> d | None \<Rightarrow> fac_defaultResync f);
              informer = newFunc (fac_client f) resyncPeriod
          in (informer, f\<lparr>fac_informers := map_store informerType informer (fac_informers f)\<rparr>))"

subsection \<open>Start\<close>

lemma started_store [go_simps]: "started (map_store t b m) t' = (if t' = t then b else started m t')"
  by (simp add: started_def map_of_store)

lemma start_loop_started:
  "started (fst (start_loop tis s)) t \<longleftrightarrow> started (fst s) t \<or> t \<in> fst ` set tis"
  by (induction tis arbitrary: s) (auto simp: go_simps)

lemma start_loop_launches:
  assumes "distinct (map fst tis)"
  shows "snd (start_loop tis s) = snd s @ filter (\<lambda>ti. \<not> started (fst s) (fst ti)) tis"
  using assms
proof (induction tis arbitrary: s)
  case Nil
  then show ?case by simp
next
  case (Cons ti tis)
  have ne: "fst x \<noteq> fst ti" if "x \<in> set tis" for x
    using Cons.prems imageI [OF that, of fst] by (metis distinct.simps(2) list.simps(9) list.set_map)
  have "filter (\<lambda>x. \<not> started (map_store (fst ti) True (fst s)) (fst x)) tis =
      filter (\<lambda>x. \<not> started (fst s) (fst x)) tis"
    by (rule filter_cong [OF refl]) (simp add: ne started_store)
  with Cons show ?case by simp
qed

lemma Start_fields [simp]:
  "fac_informers (fst (Start f)) = fac_informers f"
  "fac_customResync (fst (Start f)) = fac_customResync f"
  "fac_client (fst (Start f)) = fac_client f"
  "fac_namespace (fst (Start f)) = fac_namespace f"
  "fac_tweakListOptions (fst (Start f)) = fac_tweakListOptions f"
  "fac_defaultResync (fst (Start f)) = fac_defaultResync f"
  by (simp_all add: Start_def split: prod.splits)

lemma Start_started:
  "started (fac_startedInformers (fst (Start f))) t \<longleftrightarrow>
     started (fac_startedInformers f) t \<or> t \<in> fst ` set (fac_informers f)"
  using start_loop_started [of "fac_informers f" "(fac_startedInformers f, [])" t]
  by (simp add: Start_def case_prod_beta)

lemma Start_launches:
  "map_wf (fac_informers f) \<Longrightarrow>
   snd (Start f) = filter (\<lambda>ti. \<not> started (fac_startedInformers f) (fst ti)) (fac_informers f)"
  using start_loop_launches [of "fac_informers f" "(fac_startedInformers f, [])"]
  by (simp add: Start_def map_wf_def case_prod_beta)

subsection \<open>InformerFor and WaitForCacheSync\<close>

lemma InformerFor_registered:
  "map_of (fac_informers (snd (InformerFor t newFunc f))) t = Some (fst (InformerFor t newFunc f))"
  by (auto simp: InformerFor_def Let_def go_simps split: option.splits)

lemma InformerFor_keeps:
  "map_of (fac_informers f) t' = Some i \<Longrightarrow>
   map_of (fac_informers (snd (InformerFor t newFunc f))) t' = Some i"
  by (auto simp: InformerFor_def Let_def go_simps split: option.splits)

lemma InformerFor_wf:
  "map_wf (fac_informers f) \<Longrightarrow> map_wf (fac_informers (snd (InformerFor t newFunc f)))"
  by (auto simp: InformerFor_def Let_def go_simps split: option.splits)

lemma InformerFor_started [simp]:
  "fac_startedInformers (snd (InformerFor t newFunc f)) = fac_startedInformers f"
  by (auto simp: InformerFor_def Let_def split: option.splits)

lemma wait_collect:
  assumes "distinct (map fst tis)"
  shows "map_of (fold (\<lambda>(t, i) m. if P t then map_store t i m else m) tis acc) t =
    (case map_of tis t of Some i \<Rightarrow> if P t then Some i else map_of acc t | None \<Rightarrow> map_of acc t)"
  using assms
proof (induction tis arbitrary: acc)
  case Nil
  then show ?case by simp
next
  case (Cons ti tis)
  obtain t' i' where ti: "ti = (t', i')" by (cases ti)
  with Cons.prems have "map_of tis t' = None" by (simp add: map_of_eq_None_iff)
  with Cons ti show ?case by (auto simp: go_simps split: option.splits)
qed

lemma map_wf_collect:
  "map_wf acc \<Longrightarrow> map_wf (fold (\<lambda>(t, i) m. if P t then map_store t (g i) m else m) tis acc)"
  by (induction tis arbitrary: acc) (auto simp: go_simps split: prod.splits)

lemma wait_results:
  assumes "distinct (map fst tis)"
  shows "map_of (fold (\<lambda>(t, i) res. map_store t (g i) res) tis acc) t =
    (case map_of tis t of Some i \<Rightarrow> Some (g i) | None \<Rightarrow> map_of acc t)"
  using assms
proof (induction tis arbitrary: acc)
  case Nil
  then show ?case by simp
next
  case (Cons ti tis)
  obtain t' i' where ti: "ti = (t', i')" by (cases ti)
  with Cons.prems have "map_of tis t' = None" by (simp add: map_of_eq_None_iff)
  with Cons ti show ?case by (auto simp: go_simps split: option.splits)
qed

lemma WaitForCacheSync_lookup:
  assumes "map_wf (fac_informers f)"
  shows "map_of (WaitForCacheSync has_synced f) t =
    (if started (fac_startedInformers f) t
     then map_option has_synced (map_of (fac_informers f) t) else None)"
proof -
  let ?c = "fold (\<lambda>(t, i) m. if started (fac_startedInformers f) t then map_store t i m else m)
    (fac_informers f) []"
  have d: "distinct (map fst (fac_informers f))" using assms by (simp add: map_wf_def)
  have "map_wf ?c"
    using map_wf_collect [of "[]" "started (fac_startedInformers f)" "\<lambda>x. x" "fac_informers f"]
    by (simp add: map_wf_empty)
  then have "map_of (WaitForCacheSync has_synced f) t =
    (case map_of ?c t of Some i \<Rightarrow> Some (has_synced i) | None \<Rightarrow> None)"
    using wait_results [of ?c has_synced "[]" t]
    by (simp add: WaitForCacheSync_def Let_def map_wf_def split: option.splits)
  also have "map_of ?c t = (if started (fac_startedInformers f) t then map_of (fac_informers f) t else None)"
    using wait_collect [OF d, of "started (fac_startedInformers f)" "[]" t] by (auto split: option.splits)
  finally show ?thesis by (auto split: option.splits)
qed

subsection \<open>Runs of the factory\<close>

text \<open>
  Any interleaving of registrations and starts, with the launches in order. A factory is
  well formed when its informers map is a map and only registered types are started.
\<close>

datatype 'inf factory_op = Register string "handle \<Rightarrow> Duration \<Rightarrow> 'inf" | StartAll

fun run_factory ::
    "'inf factory_op list \<Rightarrow> 'inf sharedInformerFactory \<Rightarrow> 'inf sharedInformerFactory \<times> (string \<times> 'inf) list" where
  "run_factory [] f = (f, [])"
| "run_factory (Register t newFunc # ops) f = run_factory ops (snd (InformerFor t newFunc f))"
| "run_factory (StartAll # ops) f =
     (case Start f of (f', launches) \<Rightarrow>
        case run_factory ops f' of (f'', later) \<Rightarrow> (f'', launches @ later))"

definition factory_ok :: "'inf sharedInformerFactory \<Rightarrow> bool" where
  "factory_ok f \<longleftrightarrow> map_wf (fac_informers f) \<and>
     (\<forall>t. started (fac_startedInformers f) t \<longrightarrow> t \<in> fst ` set (fac_informers f))"

lemma factory_ok_Start: "factory_ok f \<Longrightarrow> factory_ok (fst (Start f))"
  by (auto simp: factory_ok_def Start_started)

lemma factory_ok_InformerFor: "factory_ok f \<Longrightarrow> factory_ok (snd (InformerFor t newFunc f))"
  by (auto simp: factory_ok_def InformerFor_def Let_def go_simps split: option.splits)

lemma run_factory_launches:
  assumes "factory_ok f" "run_factory ops f = (f', launches)"
  shows "factory_ok f' \<and> distinct (map fst launches) \<and>
    (\<forall>ti \<in> set launches. \<not> started (fac_startedInformers f) (fst ti) \<and>
       map_of (fac_informers f') (fst ti) = Some (snd ti)) \<and>
    (\<forall>t i. map_of (fac_informers f) t = Some i \<longrightarrow> map_of (fac_informers f') t = Some i)"
  using assms
proof (induction ops f arbitrary: f' launches rule: run_factory.induct)
  case (1 f)
  then show ?case by simp
next
  case (2 t newFunc ops f)
  have "factory_ok (snd (InformerFor t newFunc f))" using 2(2) by (rule factory_ok_InformerFor)
  from "2.IH" [OF this] 2(3) show ?case by (simp add: InformerFor_keeps)
next
  case (3 ops f)
  obtain l later where r: "run_factory ops (fst (Start f)) = (f', later)" and l: "launches = snd (Start f) @ later"
    using 3(3) by (auto split: prod.splits)
  have wf: "map_wf (fac_informers f)" using 3(2) by (simp add: factory_ok_def)
  note s = Start_launches [OF wf]
  have ih: "factory_ok f' \<and> distinct (map fst later) \<and>
    (\<forall>ti \<in> set later. \<not> started (fac_startedInformers (fst (Start f))) (fst ti) \<and>
       map_of (fac_informers f') (fst ti) = Some (snd ti)) \<and>
    (\<forall>t i. map_of (fac_informers f) t = Some i \<longrightarrow> map_of (fac_informers f') t = Some i)"
    using "3.IH" [of "fst (Start f)" "snd (Start f)" f' later] r factory_ok_Start [OF 3(2)] by simp
  have d: "distinct (map fst (snd (Start f)))"
    using wf by (simp add: s map_wf_def distinct_map_filter)
  have "fst ` set (snd (Start f)) \<inter> fst ` set later = {}"
    using ih by (force simp: s Start_started)
  with ih d wf show ?case
    by (auto simp: l s Start_started map_wf_lookup)
qed

text \<open>Which types are started is exactly which were launched; registrations are kept.\<close>

lemma run_factory_started:
  assumes "factory_ok f" "run_factory ops f = (f', launches)"
  shows "started (fac_startedInformers f') t \<longleftrightarrow>
    started (fac_startedInformers f) t \<or> t \<in> fst ` set launches"
  using assms
proof (induction ops f arbitrary: f' launches rule: run_factory.induct)
  case (1 f)
  then show ?case by simp
next
  case (2 u newFunc ops f)
  have "factory_ok (snd (InformerFor u newFunc f))" using 2(2) by (rule factory_ok_InformerFor)
  from "2.IH" [OF this] 2(3) show ?case by simp
next
  case (3 ops f)
  obtain later where r: "run_factory ops (fst (Start f)) = (f', later)" and l: "launches = snd (Start f) @ later"
    using 3(3) by (auto split: prod.splits)
  have wf: "map_wf (fac_informers f)" using 3(2) by (simp add: factory_ok_def)
  have "started (fac_startedInformers f') t \<longleftrightarrow>
      started (fac_startedInformers (fst (Start f))) t \<or> t \<in> fst ` set later"
    using "3.IH" [of "fst (Start f)" "snd (Start f)" f' later] r factory_ok_Start [OF 3(2)] by simp
  then show ?case by (auto simp: l Start_started Start_launches [OF wf])
qed

lemma Start_informers: "Start f = (f', launches) \<Longrightarrow> fac_informers f' = fac_informers f"
  by (metis Start_fields(1) fst_conv)

lemma run_factory_keeps:
  "run_factory ops f = (f', launches) \<Longrightarrow> map_of (fac_informers f) t = Some i \<Longrightarrow>
   map_of (fac_informers f') t = Some i"
  by (induction ops f arbitrary: f' launches rule: run_factory.induct)
    (auto simp: InformerFor_keeps Start_informers split: prod.splits)

text \<open>The options of the package leave a new factory without informers.\<close>

definition package_option :: "'inf SharedInformerOption \<Rightarrow> bool" where
  "package_option opt \<longleftrightarrow>
     (\<exists>cfg. opt = WithCustomResyncConfig cfg) \<or> (\<exists>tweak. opt = WithTweakListOptions tweak) \<or>
     (\<exists>ns. opt = WithNamespace ns)"

lemma custom_resync_fields:
  "fac_informers (WithCustomResyncConfig cfg f) = fac_informers f"
  "fac_startedInformers (WithCustomResyncConfig cfg f) = fac_startedInformers f"
  "fac_defaultResync (WithCustomResyncConfig cfg f) = fac_defaultResync f"
  "fac_client (WithCustomResyncConfig cfg f) = fac_client f"
  by (induction cfg arbitrary: f) (auto simp: WithCustomResyncConfig_def)

lemma custom_resync_lookup:
  "map_of (fac_customResync (WithCustomResyncConfig cfg f)) t =
     (case map_of (rev cfg) t of Some d \<Rightarrow> Some d | None \<Rightarrow> map_of (fac_customResync f) t)"
proof (induction cfg arbitrary: f)
  case Nil
  then show ?case by (simp add: WithCustomResyncConfig_def)
next
  case (Cons kv cfg)
  obtain k v where kv: "kv = (k, v)" by (cases kv)
  have "WithCustomResyncConfig (kv # cfg) f =
      WithCustomResyncConfig cfg (f\<lparr>fac_customResync := map_store k v (fac_customResync f)\<rparr>)"
    by (simp add: WithCustomResyncConfig_def kv)
  with Cons.IH show ?case
    by (auto simp: kv go_simps map_add_def split: option.splits)
qed

lemma package_option_fields:
  "package_option opt \<Longrightarrow> fac_informers (opt f) = fac_informers f \<and>
   fac_startedInformers (opt f) = fac_startedInformers f"
  by (auto simp: package_option_def custom_resync_fields WithTweakListOptions_def WithNamespace_def)

lemma new_factory_ok:
  assumes "\<forall>opt \<in> set options. package_option opt"
  shows "factory_ok (NewSharedInformerFactoryWithOptions c d options)"
    "\<not> started (fac_startedInformers (NewSharedInformerFactoryWithOptions c d options)) t"
proof -
  have "fac_informers (fold (\<lambda>opt f. opt f) options f) = fac_informers f \<and>
      fac_startedInformers (fold (\<lambda>opt f. opt f) options f) = fac_startedInformers f" for f
    using assms by (induction options arbitrary: f) (simp_all add: package_option_fields)
  then show "factory_ok (NewSharedInformerFactoryWithOptions c d options)"
    "\<not> started (fac_startedInformers (NewSharedInformerFactoryWithOptions c d options)) t"
    by (simp_all add: NewSharedInformerFactoryWithOptions_def factory_ok_def map_wf_empty started_def)
qed

end
