(* ===== verification/Policy_Manager.thy ===== *)
theory Policy_Manager
  imports Label_Selectors Weight_Sort Informer_Factory
begin

section \<open>The policy manager\<close>

text \<open>
  \<open>pkg/plugins/placementpolicy/core/core.go\<close>: choosing the policy of a pod, listing the
  pods of a policy, and annotating a pod with the decision. \<open>packages\<close> holds the functions
  of other packages (labels, intstr, sort) that the plugin calls; \<open>KubeClient\<close> the one
  call on the Kubernetes client. The pod lister reads the Pod structs of the process, so
  it sees the whole machine.
\<close>

subsection \<open>Parameters and state\<close>

record 'sel packages =
  labels_Everything :: 'sel
  labels_Set_AsSelector :: "strmap \<Rightarrow> 'sel"
  GetScaledValueFromIntOrPercent :: "IntOrString option \<Rightarrow> int64 \<Rightarrow> bool \<Rightarrow> int64 \<times> goerror option"
  sort_Sort :: "PlacementPolicy less \<Rightarrow> PlacementPolicy swap \<Rightarrow> nat \<Rightarrow> PlacementPolicy list \<Rightarrow> PlacementPolicy list"

record 'w KubeClient =
  Pods_Update :: "string \<Rightarrow> Pod \<Rightarrow> 'w \<Rightarrow> (Pod option \<times> goerror option) \<times> 'w"

record ('w, 'sel) PlacementPolicyManager =
  client :: "'w KubeClient"
  ppClient :: handle
  podLister :: "'w machine \<Rightarrow> 'sel \<Rightarrow> pod_ref list \<times> goerror option"
  snapshotSharedLister :: handle
  ppLister :: "('w, 'sel) PlacementPolicyLister"

text \<open>
  The constructor calls \<open>ppInformer.Lister()\<close>, which may register the informer with its
  factory, whose state is \<open>f\<close>.
\<close>

definition NewPlacementPolicyManager ::
    "'w KubeClient \<Rightarrow> handle \<Rightarrow> handle \<Rightarrow> ('f, 'inf, 'w, 'sel) PlacementPolicyInformer
      \<Rightarrow> ('w machine \<Rightarrow> 'sel \<Rightarrow> pod_ref list \<times> goerror option) \<Rightarrow> 'f
      \<Rightarrow> ('w, 'sel) PlacementPolicyManager \<times> 'f" where
  "NewPlacementPolicyManager c ppc snapshot ppInformer pods f =
     (case pp_Lister ppInformer f of (lister, f') \<Rightarrow>
       (\<lparr>client = c, ppClient = ppc, podLister = pods, snapshotSharedLister = snapshot,
         ppLister = lister\<rparr>, f'))"

subsection \<open>Operations\<close>

definition filter_body :: "Pod \<Rightarrow> PlacementPolicy \<Rightarrow> PlacementPolicy list \<Rightarrow> PlacementPolicy list go" where
  "filter_body pod pp filteredPPList =
     go_bind (deref (PodSelector (Spec pp))) (\<lambda>sel.
       Return (if HasMatchingLabels (podLabels pod) (MatchLabels sel)
               then filteredPPList @ [pp] else filteredPPList))"

definition filterPlacementPolicyList :: "PlacementPolicy list \<Rightarrow> Pod \<Rightarrow> PlacementPolicy list go" where
  "filterPlacementPolicyList ppList pod = range_loop (filter_body pod) ppList []"

definition GetPlacementPolicyForPod ::
    "'sel packages \<Rightarrow> ('w, 'sel) PlacementPolicyManager \<Rightarrow> 'w machine \<Rightarrow> pod_ref
      \<Rightarrow> (PlacementPolicy option \<times> goerror option) go" where
  "GetPlacementPolicyForPod pk m \<sigma> r =
     go_bind (deref (mem \<sigma> r)) (\<lambda>pod.
     go_bind (pn_List (pl_PlacementPolicies (ppLister m) (podNamespace pod))
                (world \<sigma>) (labels_Everything pk)) (\<lambda>(ppList, err).
     case err of
       Some e \<Rightarrow> Return (None, Some e)
     | None \<Rightarrow>
         go_bind (filterPlacementPolicyList ppList pod) (\<lambda>ppList.
         if length ppList = 0 then Return (None, None)
         else
           let ppList =
             (if length ppList > 1
              then sort_Sort pk (Reverse_Less ByWeight_Less) ByWeight_Swap (ByWeight_Len ppList) ppList
              else ppList)
           in go_bind (slice_index ppList 0) (\<lambda>pp. Return (Some pp, None)))))"

definition GetPodsWithLabels ::
    "'sel packages \<Rightarrow> ('w, 'sel) PlacementPolicyManager \<Rightarrow> 'w machine \<Rightarrow> strmap
      \<Rightarrow> (pod_ref list \<times> goerror option) go" where
  "GetPodsWithLabels pk m \<sigma> wanted =
     Return (podLister m \<sigma> (labels_Set_AsSelector pk wanted))"

text \<open>
  What client-go documents of a pod lister over an informer's cache: it lists all pods of the
  cache, whatever their namespace, that carry the labels of the selector.
\<close>

definition pod_cache ::
    "'sel packages \<Rightarrow> ('w, 'sel) PlacementPolicyManager \<Rightarrow> 'w machine \<Rightarrow> pod_ref list \<Rightarrow> bool" where
  "pod_cache pk m \<sigma> all \<longleftrightarrow> (\<forall>q \<in> set all. mem \<sigma> q \<noteq> None) \<and>
     (\<forall>wanted. podLister m \<sigma> (labels_Set_AsSelector pk wanted) =
        (filter (\<lambda>q. \<forall>(k, v) \<in> set wanted. map_of (podLabels (the (mem \<sigma> q))) k = Some v) all, None))"

text \<open>The annotations \<open>AnnotatePod\<close> leaves on a pod, and the pod that carries them.\<close>

definition annotated :: "PlacementPolicy \<Rightarrow> bool \<Rightarrow> Pod \<Rightarrow> Pod" where
  "annotated pp preferredNodeWithMatchingLabels pod =
     (let annotations = (case podAnnotations pod of Some a \<Rightarrow> a | None \<Rightarrow> []);
          preference = (if preferredNodeWithMatchingLabels then ''true'' else ''false'');
          annotations = map_store PlacementPolicyAnnotationKey (ppName pp) annotations;
          annotations = map_store PlacementPolicyPreferenceAnnotationKey preference annotations
      in pod\<lparr>podAnnotations := Some annotations\<rparr>)"

text \<open>The pod is changed in place before the update is sent, whatever the update returns.\<close>

definition AnnotatePod ::
    "('w, 'sel) PlacementPolicyManager \<Rightarrow> 'w machine \<Rightarrow> pod_ref \<Rightarrow> PlacementPolicy \<Rightarrow> bool
      \<Rightarrow> (Pod option \<times> goerror option) go \<times> 'w machine" where
  "AnnotatePod m \<sigma> r pp preferredNodeWithMatchingLabels =
     with_result (deref (mem \<sigma> r)) \<sigma> (\<lambda>pod.
       let pod' = annotated pp preferredNodeWithMatchingLabels pod;
           \<sigma>' = \<sigma>\<lparr>mem := (mem \<sigma>)(r \<mapsto> pod')\<rparr>
       in case Pods_Update (client m) (podNamespace pod') pod' (world \<sigma>') of
            (res, w') \<Rightarrow> (Return res, \<sigma>'\<lparr>world := w'\<rparr>))"

definition GetPlacementPolicy ::
    "('w, 'sel) PlacementPolicyManager \<Rightarrow> 'w machine \<Rightarrow> string \<Rightarrow> string
      \<Rightarrow> (PlacementPolicy option \<times> goerror option) go" where
  "GetPlacementPolicy m \<sigma> namespace name =
     pn_Get (pl_PlacementPolicies (ppLister m) namespace) (world \<sigma>) name"

subsection \<open>Filtering the policies of a namespace\<close>

definition selects :: "PlacementPolicy \<Rightarrow> Pod \<Rightarrow> bool" where
  "selects pp pod =
     (case PodSelector (Spec pp) of
        None \<Rightarrow> False
      | Some sel \<Rightarrow> HasMatchingLabels (podLabels pod) (MatchLabels sel))"

lemma filterPlacementPolicyList_eq:
  assumes "\<forall>pp \<in> set ppList. PodSelector (Spec pp) \<noteq> None"
  shows "filterPlacementPolicyList ppList pod = Return (filter (\<lambda>pp. selects pp pod) ppList)"
proof -
  have "range_loop (filter_body pod) ppList [] =
      Return ([] @ filter (\<lambda>pp. selects pp pod) ppList)"
    by (rule range_loop_filter) (use assms in \<open>auto simp: filter_body_def selects_def dest!: bspec\<close>)
  then show ?thesis by (simp add: filterPlacementPolicyList_def)
qed

lemma filterPlacementPolicyList_nil_selector:
  assumes "\<exists>pp \<in> set ppList. PodSelector (Spec pp) = None"
  shows "filterPlacementPolicyList ppList pod = Panic NilDereference"
  unfolding filterPlacementPolicyList_def
  by (rule range_loop_panic [where bad = "\<lambda>pp. PodSelector (Spec pp) = None"])
    (use assms in \<open>auto simp: filter_body_def\<close>)

lemma filterPlacementPolicyList_Return:
  assumes "filterPlacementPolicyList ppList pod = Return pps"
  shows "\<forall>pp \<in> set ppList. PodSelector (Spec pp) \<noteq> None"
    "pps = filter (\<lambda>pp. selects pp pod) ppList"
proof -
  show s: "\<forall>pp \<in> set ppList. PodSelector (Spec pp) \<noteq> None"
    using assms filterPlacementPolicyList_nil_selector by force
  show "pps = filter (\<lambda>pp. selects pp pod) ppList"
    using assms filterPlacementPolicyList_eq [OF s, of pod] by simp
qed

subsection \<open>The policy chosen for a pod\<close>

text \<open>The policies of a namespace, as the manager's lister hands them out.\<close>

definition namespace_policies ::
    "'sel packages \<Rightarrow> ('w, 'sel) PlacementPolicyManager \<Rightarrow> 'w \<Rightarrow> string
      \<Rightarrow> (PlacementPolicy list \<times> goerror option) go" where
  "namespace_policies pk m w ns = pn_List (pl_PlacementPolicies (ppLister m) ns) w (labels_Everything pk)"

definition by_weight_order :: "'sel packages \<Rightarrow> PlacementPolicy list \<Rightarrow> PlacementPolicy list" where
  "by_weight_order pk pps =
     (if length pps > 1
      then sort_Sort pk (Reverse_Less ByWeight_Less) ByWeight_Swap (length pps) pps
      else pps)"

lemma GetPlacementPolicyForPod_nil_pod [go_simps]:
  "mem \<sigma> r = None \<Longrightarrow> GetPlacementPolicyForPod pk m \<sigma> r = Panic NilDereference"
  by (simp add: GetPlacementPolicyForPod_def)

lemma GetPlacementPolicyForPod_eq:
  assumes "mem \<sigma> r = Some pod"
    and "namespace_policies pk m (world \<sigma>) (podNamespace pod) = Return (pps, err)"
  shows "GetPlacementPolicyForPod pk m \<sigma> r =
    (case err of
       Some e \<Rightarrow> Return (None, Some e)
     | None \<Rightarrow>
         go_bind (filterPlacementPolicyList pps pod) (\<lambda>pps.
           if pps = [] then Return (None, None)
           else go_bind (slice_index (by_weight_order pk pps) 0) (\<lambda>pp. Return (Some pp, None))))"
  using assms
  by (cases err)
    (simp_all add: GetPlacementPolicyForPod_def namespace_policies_def ByWeight_Len_def by_weight_order_def Let_def cong: if_cong)

lemma GetPlacementPolicyForPod_Return:
  assumes "GetPlacementPolicyForPod pk m \<sigma> r = Return (pp, err)"
  obtains pod pps where "mem \<sigma> r = Some pod"
    "namespace_policies pk m (world \<sigma>) (podNamespace pod) = Return (pps, err)"
proof -
  obtain pod where pod: "mem \<sigma> r = Some pod"
    using assms by (cases "mem \<sigma> r") (simp_all add: go_simps)
  from assms pod obtain pps e where
    l: "pn_List (pl_PlacementPolicies (ppLister m) (podNamespace pod))
          (world \<sigma>) (labels_Everything pk) = Return (pps, e)"
    by (auto simp: GetPlacementPolicyForPod_def go_simps)
  have "e = err"
    using assms pod l
    by (auto simp: GetPlacementPolicyForPod_def go_simps Let_def split: option.splits if_splits)
  with l pod that show ?thesis by (simp add: namespace_policies_def)
qed

lemma least_first:
  assumes "sort_contract (sort_Sort pk)" "pps \<noteq> []"
  obtains pp where "slice_index (by_weight_order pk pps) 0 = Return pp" "pp \<in> set pps"
    "\<forall>pp' \<in> set pps. policy_weight pp \<le> policy_weight pp'"
proof (cases "length pps > 1")
  case True
  let ?s = "by_weight_order pk pps"
  have s: "?s = sort_Sort pk (Reverse_Less ByWeight_Less) ByWeight_Swap (length pps) pps"
    using True by (simp add: by_weight_order_def)
  have m: "mset ?s = mset pps"
    using reverse_by_weight.contract_sorts(1) [OF assms(1)] s by metis
  then have ne: "0 < length ?s" using True by (metis mset_eq_length neq0_conv not_less_zero)
  show ?thesis
  proof (rule that [of "?s ! 0"])
    show "slice_index ?s 0 = Return (?s ! 0)" using ne by (simp add: slice_index_def)
    show "?s ! 0 \<in> set pps" using ne m by (metis mset_eq_setD nth_mem)
    show "\<forall>pp' \<in> set pps. policy_weight (?s ! 0) \<le> policy_weight pp'"
      using reverse_by_weight.contract_hd_least [OF assms(1)] s by metis
  qed
next
  case False
  with assms(2) obtain pp where "pps = [pp]" by (cases pps) auto
  then show ?thesis using that [of pp] by (simp add: by_weight_order_def go_simps)
qed

text \<open>What the manager returns: nothing, or a policy of least weight among those that select the pod.\<close>

definition least_selecting :: "Pod \<Rightarrow> PlacementPolicy list \<Rightarrow> PlacementPolicy option \<Rightarrow> bool" where
  "least_selecting pod pps res \<longleftrightarrow>
     (case res of
        None \<Rightarrow> \<forall>pp \<in> set pps. \<not> selects pp pod
      | Some pp \<Rightarrow> pp \<in> set pps \<and> selects pp pod \<and>
          (\<forall>pp' \<in> set pps. selects pp' pod \<longrightarrow> policy_weight pp \<le> policy_weight pp'))"

lemma least_selecting_chosen:
  assumes "sort_contract (sort_Sort pk)" "mem \<sigma> r = Some pod"
    and "namespace_policies pk m (world \<sigma>) (podNamespace pod) = Return (pps, None)"
    and "\<forall>pp \<in> set pps. PodSelector (Spec pp) \<noteq> None"
  shows "\<exists>res. GetPlacementPolicyForPod pk m \<sigma> r = Return (res, None) \<and> least_selecting pod pps res"
proof -
  let ?s = "filter (\<lambda>pp. selects pp pod) pps"
  note eq = GetPlacementPolicyForPod_eq [OF assms(2,3)] filterPlacementPolicyList_eq [OF assms(4)]
  show ?thesis
  proof (cases "?s = []")
    case True
    then show ?thesis by (simp add: eq filter_empty_conv least_selecting_def)
  next
    case False
    from least_first [OF assms(1) this] obtain pp
      where "slice_index (by_weight_order pk ?s) 0 = Return pp" "pp \<in> set ?s"
        "\<forall>pp' \<in> set ?s. policy_weight pp \<le> policy_weight pp'" by blast
    with False show ?thesis by (simp add: eq least_selecting_def)
  qed
qed

lemma lightest_chosen:
  assumes "sort_contract (sort_Sort pk)" "mem \<sigma> r = Some pod"
    and "namespace_policies pk m (world \<sigma>) (podNamespace pod) = Return (pps, None)"
    and "\<forall>pp \<in> set pps. PodSelector (Spec pp) \<noteq> None" "pp \<in> set pps" "selects pp pod"
    and "\<forall>pp' \<in> set pps. selects pp' pod \<and> pp' \<noteq> pp \<longrightarrow> policy_weight pp < policy_weight pp'"
  shows "GetPlacementPolicyForPod pk m \<sigma> r = Return (Some pp, None)"
proof -
  from least_selecting_chosen [OF assms(1-4)] obtain res
    where res: "GetPlacementPolicyForPod pk m \<sigma> r = Return (res, None)" "least_selecting pod pps res" by blast
  show ?thesis
  proof (cases res)
    case None
    with res(2) assms(5,6) show ?thesis by (simp add: least_selecting_def)
  next
    case (Some q)
    then have "q \<in> set pps" "selects q pod" "policy_weight q \<le> policy_weight pp"
      using res(2) assms(5,6) by (simp_all add: least_selecting_def)
    with assms(7) have "q = pp" by force
    with Some res(1) show ?thesis by simp
  qed
qed

subsection \<open>Annotations\<close>

lemma annotated_frame [simp]:
  "podName (annotated pp b pod) = podName pod"
  "podNamespace (annotated pp b pod) = podNamespace pod"
  "podUID (annotated pp b pod) = podUID pod"
  "podLabels (annotated pp b pod) = podLabels pod"
  "podNodeName (annotated pp b pod) = podNodeName pod"
  by (simp_all add: annotated_def Let_def)

lemma annotated_strip [simp]: "(annotated pp b pod)\<lparr>podAnnotations := podAnnotations pod\<rparr> = pod"
  by (simp add: annotated_def Let_def)

lemma annotated_preference [simp]:
  "pod_annotation (annotated pp b pod) PlacementPolicyPreferenceAnnotationKey =
     (if b then ''true'' else ''false'')"
  by (simp add: annotated_def pod_annotation_def Let_def go_simps)

lemma pod_annotation_node [simp]: "pod_annotation (pod\<lparr>podNodeName := x\<rparr>) k = pod_annotation pod k"
  by (simp add: pod_annotation_def)

lemma annotated_other:
  "k \<noteq> PlacementPolicyPreferenceAnnotationKey \<Longrightarrow>
   pod_annotation (annotated pp b pod) k =
     (if k = PlacementPolicyAnnotationKey then ppName pp else pod_annotation pod k)"
  by (auto simp: annotated_def pod_annotation_def Let_def go_simps map_index_def split: option.splits)

lemma AnnotatePod_eq [go_simps]:
  "mem \<sigma> r = Some pod \<Longrightarrow>
   AnnotatePod m \<sigma> r pp b =
     (Return (fst (Pods_Update (client m) (podNamespace pod) (annotated pp b pod) (world \<sigma>))),
      \<sigma>\<lparr>mem := (mem \<sigma>)(r \<mapsto> annotated pp b pod),
        world := snd (Pods_Update (client m) (podNamespace pod) (annotated pp b pod) (world \<sigma>))\<rparr>)"
  by (simp add: AnnotatePod_def Let_def split: prod.splits)

lemma ParseBool_annotated [simp]:
  "ParseBool (pod_annotation (annotated pp b pod) PlacementPolicyPreferenceAnnotationKey) = Some b"
  by simp

lemma AnnotatePod_nil [go_simps]:
  "mem \<sigma> r = None \<Longrightarrow> AnnotatePod m \<sigma> r pp b = (Panic NilDereference, \<sigma>)"
  by (simp add: AnnotatePod_def)

subsection \<open>The Manager interface\<close>

text \<open>
  \<open>core.Manager\<close>, the interface the plugin holds, as the record of its methods, and the
  laws the plugin relies on: a nil pod panics, an error comes without a policy, and
  annotating a pod writes the two annotations into that pod and into nothing else of the
  process.
\<close>

record 'w Manager =
  mGetPlacementPolicyForPod :: "'w machine \<Rightarrow> pod_ref \<Rightarrow> (PlacementPolicy option \<times> goerror option) go"
  mGetPodsWithLabels :: "'w machine \<Rightarrow> strmap \<Rightarrow> (pod_ref list \<times> goerror option) go"
  mAnnotatePod :: "'w machine \<Rightarrow> pod_ref \<Rightarrow> PlacementPolicy \<Rightarrow> bool
    \<Rightarrow> (Pod option \<times> goerror option) go \<times> 'w machine"
  mGetPlacementPolicy :: "'w machine \<Rightarrow> string \<Rightarrow> string \<Rightarrow> (PlacementPolicy option \<times> goerror option) go"

definition as_Manager :: "'sel packages \<Rightarrow> ('w, 'sel) PlacementPolicyManager \<Rightarrow> 'w Manager" where
  "as_Manager pk m =
     \<lparr>mGetPlacementPolicyForPod = GetPlacementPolicyForPod pk m,
      mGetPodsWithLabels = GetPodsWithLabels pk m,
      mAnnotatePod = AnnotatePod m,
      mGetPlacementPolicy = GetPlacementPolicy m\<rparr>"

lemma as_Manager_simps [simp]:
  "mGetPlacementPolicyForPod (as_Manager pk m) = GetPlacementPolicyForPod pk m"
  "mGetPodsWithLabels (as_Manager pk m) = GetPodsWithLabels pk m"
  "mAnnotatePod (as_Manager pk m) = AnnotatePod m"
  "mGetPlacementPolicy (as_Manager pk m) = GetPlacementPolicy m"
  by (simp_all add: as_Manager_def)

locale policy_manager =
  fixes mgr :: "'w Manager"
  assumes get_nil_pod: "mem \<sigma> r = None \<Longrightarrow>
      mGetPlacementPolicyForPod mgr \<sigma> r = Panic NilDereference"
    and get_error: "mGetPlacementPolicyForPod mgr \<sigma> r = Return (choice, Some e) \<Longrightarrow> choice = None"
    and annotate: "mem \<sigma> r = Some pod \<Longrightarrow>
      \<exists>res w'. mAnnotatePod mgr \<sigma> r pp b =
        (Return res, \<sigma>\<lparr>mem := (mem \<sigma>)(r \<mapsto> annotated pp b pod), world := w'\<rparr>)"

interpretation core_manager: policy_manager "as_Manager pk m"
  for pk :: "'sel packages" and m :: "('w, 'sel) PlacementPolicyManager"
proof unfold_locales
  fix \<sigma> :: "'w machine" and r pp e
  assume g: "mGetPlacementPolicyForPod (as_Manager pk m) \<sigma> r = Return (pp, Some e)"
  then obtain pod pps where "mem \<sigma> r = Some pod"
    "namespace_policies pk m (world \<sigma>) (podNamespace pod) = Return (pps, Some e)"
    by (auto elim: GetPlacementPolicyForPod_Return)
  from GetPlacementPolicyForPod_eq [OF this] g show "pp = None" by simp
qed (auto simp: go_simps)

end
