(* ===== verification/Node_Pod_Groups.thy ===== *)
theory Node_Pod_Groups
  imports Labels
begin

section \<open>Grouping nodes and pods\<close>

text \<open>
  \<open>groupNodesWithLabels\<close> and \<open>groupPodsBasedOnNodePreference\<close> of
  \<open>pkg/plugins/placementpolicy/placementpolicy.go\<close>: which nodes a policy is about, and
  which pods already count as placed on them.
\<close>

subsection \<open>Nodes\<close>

definition group_nodes_body :: "strmap \<Rightarrow> NodeInfo \<Rightarrow> Node gomap \<Rightarrow> Node gomap go" where
  "group_nodes_body labels n nodeWithMatchingLabels =
     go_bind (deref n) (\<lambda>node.
       Return (if checkHasLabels (nodeLabels node) labels
               then map_store (nodeName node) node nodeWithMatchingLabels
               else nodeWithMatchingLabels))"

definition groupNodesWithLabels :: "NodeInfo list \<Rightarrow> strmap \<Rightarrow> Node gomap go" where
  "groupNodesWithLabels nodeList labels = range_loop (group_nodes_body labels) nodeList []"

lemma group_nodes_loop:
  "range_loop (group_nodes_body labels) (map Some nodes) acc =
     Return (fold (\<lambda>n. map_store (nodeName n) n)
       (filter (\<lambda>n. checkHasLabels (nodeLabels n) labels) nodes) acc)"
  by (induction nodes arbitrary: acc) (simp_all add: group_nodes_body_def)

lemma map_of_fold_store:
  "map_of (fold (\<lambda>n. map_store (nodeName n) n) nodes acc) x =
     (case map_of (rev (map (\<lambda>n. (nodeName n, n)) nodes)) x of Some n \<Rightarrow> Some n | None \<Rightarrow> map_of acc x)"
  by (induction nodes arbitrary: acc) (auto simp: go_simps map_add_def split: option.splits)

lemma dom_fold_store:
  "dom (map_of (fold (\<lambda>n. map_store (nodeName n) n) nodes acc)) =
     nodeName ` set nodes \<union> dom (map_of acc)"
  by (induction nodes arbitrary: acc) (auto simp: go_simps)

lemma map_wf_fold_store:
  "map_wf acc \<Longrightarrow> map_wf (fold (\<lambda>n. map_store (nodeName n) n) nodes acc)"
  by (induction nodes arbitrary: acc) (auto simp: go_simps)

lemma groupNodesWithLabels_eq:
  "groupNodesWithLabels (map Some nodes) labels =
     Return (fold (\<lambda>n. map_store (nodeName n) n)
       (filter (\<lambda>n. checkHasLabels (nodeLabels n) labels) nodes) [])"
  by (simp add: groupNodesWithLabels_def group_nodes_loop)

lemma groupNodesWithLabels_nil:
  "None \<in> set nodeList \<Longrightarrow> groupNodesWithLabels nodeList labels = Panic NilDereference"
  unfolding groupNodesWithLabels_def
  by (rule range_loop_panic [where bad = "\<lambda>n. n = None"]) (auto simp: group_nodes_body_def)

lemma groupNodesWithLabels_Return:
  assumes "groupNodesWithLabels nodeList labels = Return grp"
  obtains nodes where "nodeList = map Some nodes"
    "grp = fold (\<lambda>n. map_store (nodeName n) n)
       (filter (\<lambda>n. checkHasLabels (nodeLabels n) labels) nodes) []"
proof -
  have "None \<notin> set nodeList" using assms groupNodesWithLabels_nil by force
  then obtain nodes where nodes: "nodeList = map Some nodes" by (rule all_present)
  with assms show ?thesis by (intro that [OF nodes]) (simp add: groupNodesWithLabels_eq)
qed

subsection \<open>Pods\<close>

text \<open>
  The branches follow the code: the pod being scheduled is skipped; a pod on a node counts
  if the node is in the group; a pod without a node counts if its annotation says true.
\<close>

definition group_pods_body ::
    "(pod_ref \<Rightarrow> Pod option) \<Rightarrow> pod_ref \<Rightarrow> Node gomap \<Rightarrow> pod_ref \<Rightarrow> pod_ref list \<Rightarrow> pod_ref list go" where
  "group_pods_body h pod nodeWithMatchingLabels p acc =
     go_bind (deref (h p)) (\<lambda>P.
     go_bind (deref (h pod)) (\<lambda>current.
       if podUID P = podUID current then Return acc
       else if podNodeName P \<noteq> '''' then
         Return (if map_of nodeWithMatchingLabels (podNodeName P) \<noteq> None then acc @ [p] else acc)
       else
         let ann = pod_annotation P PlacementPolicyPreferenceAnnotationKey
         in if ann = '''' then Return acc
            else (case ParseBool ann of
                    None \<Rightarrow> Return acc
                  | Some preferredNodeWithMatchingLabels \<Rightarrow>
                      Return (if preferredNodeWithMatchingLabels then acc @ [p] else acc))))"

definition groupPodsBasedOnNodePreference ::
    "(pod_ref \<Rightarrow> Pod option) \<Rightarrow> pod_ref list \<Rightarrow> pod_ref \<Rightarrow> Node gomap \<Rightarrow> pod_ref list go" where
  "groupPodsBasedOnNodePreference h podList pod nodeWithMatchingLabels =
     range_loop (group_pods_body h pod nodeWithMatchingLabels) podList []"

text \<open>When a pod counts as placed on the nodes of the group.\<close>

definition counted :: "string set \<Rightarrow> Pod \<Rightarrow> bool" where
  "counted names P \<longleftrightarrow>
     (if podNodeName P \<noteq> '''' then podNodeName P \<in> names
      else ParseBool (pod_annotation P PlacementPolicyPreferenceAnnotationKey) = Some True)"

lemma group_pods_body_eq:
  assumes "h p = Some P" "h pod = Some current"
  shows "group_pods_body h pod grp p acc =
    Return (if podUID P \<noteq> podUID current \<and> counted (dom (map_of grp)) P then acc @ [p] else acc)"
  using assms by (auto simp: group_pods_body_def counted_def Let_def split: option.splits)

lemma groupPodsBasedOnNodePreference_eq:
  assumes "\<forall>p \<in> set podList. h p \<noteq> None" "h pod = Some current"
  shows "groupPodsBasedOnNodePreference h podList pod grp =
    Return (filter (\<lambda>p. podUID (the (h p)) \<noteq> podUID current \<and>
      counted (dom (map_of grp)) (the (h p))) podList)"
proof -
  have "range_loop (group_pods_body h pod grp) podList [] =
      Return ([] @ filter (\<lambda>p. podUID (the (h p)) \<noteq> podUID current \<and>
        counted (dom (map_of grp)) (the (h p))) podList)"
  proof (rule range_loop_filter)
    fix p acc
    assume "p \<in> set podList"
    with assms(1) obtain P where "h p = Some P" by blast
    with assms(2) show "group_pods_body h pod grp p acc =
      Return (if podUID (the (h p)) \<noteq> podUID current \<and> counted (dom (map_of grp)) (the (h p))
              then acc @ [p] else acc)"
      by (simp add: group_pods_body_eq)
  qed
  then show ?thesis by (simp add: groupPodsBasedOnNodePreference_def)
qed

lemma groupPodsBasedOnNodePreference_dangling:
  assumes "\<exists>p \<in> set podList. h p = None" "h pod \<noteq> None"
  shows "groupPodsBasedOnNodePreference h podList pod grp = Panic NilDereference"
  unfolding groupPodsBasedOnNodePreference_def
  by (rule range_loop_panic [where bad = "\<lambda>p. h p = None"])
    (use assms in \<open>auto simp: group_pods_body_def Let_def split: option.splits\<close>)

end
