(* ===== verification/Plugin_State.thy ===== *)
theory Plugin_State
  imports Policy_Manager Node_Pod_Groups
begin

section \<open>The plugin object and the cycle state\<close>

text \<open>
  The plugin of \<open>pkg/plugins/placementpolicy/placementpolicy.go\<close> holds the framework's
  handle and the manager (its embedded mutex is never locked). What one scheduling cycle
  passes from a pre-hook to its hook is a \<open>stateData\<close> (\<open>state.go\<close>) written under a key of
  the cycle state. The framework is code outside the repository: its snapshot, its cycle
  state and its score bounds are parameters.
\<close>

record stateData =
  stateName :: string
  statePolicy :: "PlacementPolicy option"

datatype StateData = StatePlacement stateData | StateOther string

definition NewStateData :: "string \<Rightarrow> PlacementPolicy option \<Rightarrow> StateData" where
  "NewStateData name pp = StatePlacement \<lparr>stateName = name, statePolicy = pp\<rparr>"

definition stateData_Clone :: "stateData \<Rightarrow> StateData" where
  "stateData_Clone d = StatePlacement d"

text \<open>\<open>framework.CycleState\<close>: \<open>Read\<close> and \<open>Write\<close> of a value of some type \<open>'c\<close>.\<close>

record 'c CycleOps =
  csRead :: "'c \<Rightarrow> string \<Rightarrow> StateData option \<times> goerror option"
  csWrite :: "'c \<Rightarrow> string \<Rightarrow> StateData \<Rightarrow> 'c"

text \<open>
  What the framework documents: a value written under a key is read back under it, and a
  write leaves the other keys alone.
\<close>

definition cycle_contract :: "'c CycleOps \<Rightarrow> bool" where
  "cycle_contract cy \<longleftrightarrow>
     (\<forall>st k d. csRead cy (csWrite cy st k d) k = (Some d, None)) \<and>
     (\<forall>st k k' d. k' \<noteq> k \<longrightarrow> csRead cy (csWrite cy st k d) k' = csRead cy st k')"

lemma cycle_contract_read [go_simps]:
  assumes "cycle_contract cy"
  shows "csRead cy (csWrite cy st k d) k' = (if k' = k then (Some d, None) else csRead cy st k')"
  using assms by (simp add: cycle_contract_def)

text \<open>\<open>framework.Handle\<close>: the node snapshot and the score bounds.\<close>

record 'w FrameworkHandle =
  NodeInfos_List :: "'w \<Rightarrow> NodeInfo list \<times> goerror option"
  NodeInfos_Get :: "'w \<Rightarrow> string \<Rightarrow> NodeInfo \<times> goerror option"
  MinNodeScore :: int64
  MaxNodeScore :: int64

record 'w Plugin =
  frameworkHandler :: "'w FrameworkHandle"
  ppMgr :: "'w Manager"

definition PluginName :: string where
  "PluginName = ''placementpolicy''"

definition Plugin_Name :: "'w Plugin \<Rightarrow> string" where
  "Plugin_Name p = PluginName"

definition getPreFilterStateKey :: "'w Plugin \<Rightarrow> string" where
  "getPreFilterStateKey p = ''Prefilter-'' @ Plugin_Name p"

definition getPreScoreStateKey :: "'w Plugin \<Rightarrow> string" where
  "getPreScoreStateKey p = ''Prescore-'' @ Plugin_Name p"

lemma state_keys_distinct [simp]:
  "getPreFilterStateKey p \<noteq> getPreScoreStateKey q"
  "getPreScoreStateKey q \<noteq> getPreFilterStateKey p"
  by (simp_all add: getPreFilterStateKey_def getPreScoreStateKey_def)

definition ok_status :: "Status option" where
  "ok_status = Some (NewStatus Success (Text ''''))"

definition error_status :: "message \<Rightarrow> Status option" where
  "error_status msg = Some (NewStatus Error msg)"

lemma status_ok_simps [simp]:
  "status_ok ok_status" "\<not> status_ok (error_status msg)" "status_ok None"
  "ok_status \<noteq> error_status msg" "error_status msg \<noteq> ok_status"
  by (simp_all add: status_ok_def ok_status_def error_status_def)

end
