(* ===== verification/Plugin_Hooks.thy ===== *)
theory Plugin_Hooks
  imports Plugin_State
begin

section \<open>The scheduling hooks\<close>

text \<open>
  \<open>PreFilter\<close>, \<open>Filter\<close>, \<open>PreScore\<close>, \<open>Score\<close> and \<open>NormalizeScore\<close> of
  \<open>pkg/plugins/placementpolicy/placementpolicy.go\<close>, branch by branch. A pre-hook returns
  its status with the cycle state and the machine it leaves; a panic keeps both as they
  were when it happened.
\<close>

type_synonym ('c, 'w) hook_result = "Status option go \<times> 'c \<times> 'w machine"

subsection \<open>PreFilter\<close>

definition PreFilter ::
    "'sel packages \<Rightarrow> 'c CycleOps \<Rightarrow> 'w Plugin \<Rightarrow> 'c \<Rightarrow> pod_ref \<Rightarrow> 'w machine \<Rightarrow> ('c, 'w) hook_result" where
  "PreFilter pk cy p st r \<sigma> =
     with_result (mGetPlacementPolicyForPod (ppMgr p) \<sigma> r) (st, \<sigma>) (\<lambda>(pp, err).
     case err of
       Some e \<Rightarrow> with_result (deref (mem \<sigma> r)) (st, \<sigma>) (\<lambda>pod.
         (Return (error_status (Sprintf ''failed to get placement policy for pod %s: %v''
            [ArgString (podName pod), ArgError e])), st, \<sigma>))
     | None \<Rightarrow>
     (case pp of
       None \<Rightarrow> with_result (deref (mem \<sigma> r)) (st, \<sigma>) (\<lambda>pod. (Return ok_status, st, \<sigma>))
     | Some pp \<Rightarrow>
       if EnforcementModeOf (Spec pp) = EnforcementModeBestEffort
       then (Return ok_status, st, \<sigma>)
       else
       (case NodeInfos_List (frameworkHandler p) (world \<sigma>) of (nodeInfoList, err) \<Rightarrow>
       case err of
         Some e \<Rightarrow> (Return (error_status (Sprintf ''failed to get nodes in the cluster: %v''
            [ArgError e])), st, \<sigma>)
       | None \<Rightarrow>
       let nodeList = nodeInfoList in
       with_result (deref (NodeSelector (Spec pp))) (st, \<sigma>) (\<lambda>nodeSelector.
       with_result (groupNodesWithLabels nodeList (MatchLabels nodeSelector)) (st, \<sigma>) (\<lambda>nodeWithMatchingLabels.
       with_result (deref (PodSelector (Spec pp))) (st, \<sigma>) (\<lambda>podSelector.
       with_result (mGetPodsWithLabels (ppMgr p) \<sigma> (MatchLabels podSelector)) (st, \<sigma>) (\<lambda>(podList, err).
       case err of
         Some e \<Rightarrow> (Return (error_status (Sprintf ''failed to get pods with labels: %v''
            [ArgError e])), st, \<sigma>)
       | None \<Rightarrow>
       with_result (groupPodsBasedOnNodePreference (mem \<sigma>) podList r nodeWithMatchingLabels) (st, \<sigma>) (\<lambda>grp.
       let podsOnNodeWithMatchingLabels = len64 grp in
       with_result (deref (PolicyOf (Spec pp))) (st, \<sigma>) (\<lambda>policy.
       case GetScaledValueFromIntOrPercent pk (TargetSize policy) (len64 podList) False of (targetSize, err) \<Rightarrow>
       case err of
         Some e \<Rightarrow> (Return (error_status (Sprintf ''failed to get scaled value from int or percent: %v''
            [ArgError e])), st, \<sigma>)
       | None \<Rightarrow>
       let targetSize =
             (if PolicyAction policy = ActionMustNot then len64 podList - targetSize else targetSize);
           preferredNodeWithMatchingLabels =
             (if podsOnNodeWithMatchingLabels <s targetSize then True else False)
       in
       with_result (deref (mem \<sigma> r)) (st, \<sigma>) (\<lambda>pod.
       case mAnnotatePod (ppMgr p) \<sigma> r pp preferredNodeWithMatchingLabels of (res, \<sigma>') \<Rightarrow>
       with_result res (st, \<sigma>') (\<lambda>(pod', err).
       case err of
         Some e \<Rightarrow> with_result (deref pod') (st, \<sigma>') (\<lambda>pod'.
           (Return (error_status (Sprintf ''failed to annotate pod %s: %v''
              [ArgString (podName pod'), ArgError e])), st, \<sigma>'))
       | None \<Rightarrow> with_result (deref pod') (st, \<sigma>') (\<lambda>pod'.
           (Return ok_status,
            csWrite cy st (getPreFilterStateKey p) (NewStateData (podName pod') (Some pp)),
            \<sigma>')))))))))))))"

definition PreFilterExtensions :: "'w Plugin \<Rightarrow> handle option" where
  "PreFilterExtensions p = None"

subsection \<open>Filter\<close>

definition Filter ::
    "'c CycleOps \<Rightarrow> 'w Plugin \<Rightarrow> 'c \<Rightarrow> pod_ref \<Rightarrow> NodeInfo \<Rightarrow> 'w machine \<Rightarrow> Status option go" where
  "Filter cy p st r nodeInfo \<sigma> =
     (case nodeInfo of
        None \<Rightarrow> Return (error_status (Text ''node not found''))
      | Some node \<Rightarrow>
      (case csRead cy st (getPreFilterStateKey p) of (data, err) \<Rightarrow>
      case err of
        Some e \<Rightarrow>
          (if e = FrameworkErrNotFound then Return ok_status
           else Return (error_status (Sprintf ''failed to read state: %v'' [ArgError e])))
      | None \<Rightarrow>
      (case data of
         Some (StatePlacement d) \<Rightarrow>
           go_bind (deref (statePolicy d)) (\<lambda>pp.
           go_bind (deref (NodeSelector (Spec pp))) (\<lambda>nodeSelector.
           let nodeMatchesLabels = checkHasLabels (nodeLabels node) (MatchLabels nodeSelector) in
           go_bind (deref (mem \<sigma> r)) (\<lambda>pod.
           let preference = pod_annotation pod PlacementPolicyPreferenceAnnotationKey in
           case ParseBool preference of
             None \<Rightarrow> Return (error_status (Sprintf ''failed to parse pod annotation: %v''
               [ArgError (NumError ''ParseBool'' preference)]))
           | Some podNodePreferMatchingLabels \<Rightarrow>
               if nodeMatchesLabels \<and> podNodePreferMatchingLabels \<or>
                  \<not> nodeMatchesLabels \<and> \<not> podNodePreferMatchingLabels
               then Return ok_status
               else Return (Some (NewStatus Unschedulable (Text ''''))))))
       | _ \<Rightarrow> Return (error_status (Text ''failed to cast state data'')))))"

subsection \<open>PreScore\<close>

definition PreScore ::
    "'sel packages \<Rightarrow> 'c CycleOps \<Rightarrow> 'w Plugin \<Rightarrow> 'c \<Rightarrow> pod_ref \<Rightarrow> NodeInfo list \<Rightarrow> 'w machine
      \<Rightarrow> ('c, 'w) hook_result" where
  "PreScore pk cy p st r nodes \<sigma> =
     with_result (mGetPlacementPolicyForPod (ppMgr p) \<sigma> r) (st, \<sigma>) (\<lambda>(pp, err).
     case err of
       Some e \<Rightarrow> with_result (deref (mem \<sigma> r)) (st, \<sigma>) (\<lambda>pod.
         (Return (error_status (Sprintf ''failed to get placement policy for pod %s: %v''
            [ArgString (podName pod), ArgError e])), st, \<sigma>))
     | None \<Rightarrow>
     (case pp of
       None \<Rightarrow> with_result (deref (mem \<sigma> r)) (st, \<sigma>) (\<lambda>pod. (Return ok_status, st, \<sigma>))
     | Some pp \<Rightarrow>
       if EnforcementModeOf (Spec pp) = EnforcementModeStrict
       then (Return ok_status, st, \<sigma>)
       else
       with_result (deref (NodeSelector (Spec pp))) (st, \<sigma>) (\<lambda>nodeSelector.
       with_result (groupNodesWithLabels nodes (MatchLabels nodeSelector)) (st, \<sigma>) (\<lambda>nodeWithMatchingLabels.
       with_result (deref (PodSelector (Spec pp))) (st, \<sigma>) (\<lambda>podSelector.
       with_result (mGetPodsWithLabels (ppMgr p) \<sigma> (MatchLabels podSelector)) (st, \<sigma>) (\<lambda>(podList, err).
       case err of
         Some e \<Rightarrow> (Return (error_status (Sprintf ''failed to get pods with labels: %v''
            [ArgError e])), st, \<sigma>)
       | None \<Rightarrow>
       with_result (groupPodsBasedOnNodePreference (mem \<sigma>) podList r nodeWithMatchingLabels) (st, \<sigma>) (\<lambda>grp.
       let podsOnNodeWithMatchingLabels = len64 grp in
       with_result (deref (PolicyOf (Spec pp))) (st, \<sigma>) (\<lambda>policy.
       case GetScaledValueFromIntOrPercent pk (TargetSize policy) (len64 podList) False of (targetSize, err) \<Rightarrow>
       case err of
         Some e \<Rightarrow> (Return (error_status (Sprintf ''failed to get scaled value from int or percent: %v''
            [ArgError e])), st, \<sigma>)
       | None \<Rightarrow>
       let targetSize =
             (if PolicyAction policy = ActionMustNot then len64 podList - targetSize else targetSize);
           preferredNodeWithMatchingLabels =
             (if podsOnNodeWithMatchingLabels <s targetSize then True else False)
       in
       with_result (deref (mem \<sigma> r)) (st, \<sigma>) (\<lambda>pod.
       case mAnnotatePod (ppMgr p) \<sigma> r pp preferredNodeWithMatchingLabels of (res, \<sigma>') \<Rightarrow>
       with_result res (st, \<sigma>') (\<lambda>(pod', err).
       case err of
         Some e \<Rightarrow> with_result (deref pod') (st, \<sigma>') (\<lambda>pod'.
           (Return (error_status (Sprintf ''failed to annotate pod %s: %v''
              [ArgString (podName pod'), ArgError e])), st, \<sigma>'))
       | None \<Rightarrow> with_result (deref pod') (st, \<sigma>') (\<lambda>pod'.
           (Return ok_status,
            csWrite cy st (getPreScoreStateKey p) (NewStateData (podName pod') (Some pp)),
            \<sigma>'))))))))))))"

subsection \<open>Score and NormalizeScore\<close>

definition Score ::
    "'c CycleOps \<Rightarrow> 'w Plugin \<Rightarrow> 'c \<Rightarrow> pod_ref \<Rightarrow> string \<Rightarrow> 'w machine \<Rightarrow> (int64 \<times> Status option) go" where
  "Score cy p st r name \<sigma> =
     (case csRead cy st (getPreScoreStateKey p) of (data, err) \<Rightarrow>
      case err of
        Some e \<Rightarrow>
          (if e = FrameworkErrNotFound then Return (0, None)
           else Return (0, error_status (Sprintf ''failed to read state: %v'' [ArgError e])))
      | None \<Rightarrow>
      (case data of
         Some (StatePlacement d) \<Rightarrow>
         (case NodeInfos_Get (frameworkHandler p) (world \<sigma>) name of (nodeInfo, err) \<Rightarrow>
          case err of
            Some e \<Rightarrow> Return (0, error_status (Sprintf ''getting node %q from Snapshot: %v''
              [ArgString name, ArgError e]))
          | None \<Rightarrow>
           go_bind (deref nodeInfo) (\<lambda>node.
           go_bind (deref (statePolicy d)) (\<lambda>pp.
           go_bind (deref (NodeSelector (Spec pp))) (\<lambda>nodeSelector.
           let nodeMatchesLabels = checkHasLabels (nodeLabels node) (MatchLabels nodeSelector) in
           go_bind (deref (mem \<sigma> r)) (\<lambda>pod.
           let preference = pod_annotation pod PlacementPolicyPreferenceAnnotationKey in
           case ParseBool preference of
             None \<Rightarrow> Return (0, error_status (Sprintf ''failed to parse pod annotation: %v''
               [ArgError (NumError ''ParseBool'' preference)]))
           | Some podNodePreferMatchingLabels \<Rightarrow>
               if nodeMatchesLabels \<and> podNodePreferMatchingLabels \<or>
                  \<not> nodeMatchesLabels \<and> \<not> podNodePreferMatchingLabels
               then Return (100, None)
               else Return (0, None))))))
       | _ \<Rightarrow> Return (0, error_status (Text ''failed to cast state data''))))"

definition ScoreExtensions :: "'w Plugin \<Rightarrow> 'w Plugin" where
  "ScoreExtensions p = p"

record NodeScore =
  scoreName :: string
  scoreValue :: int64

text \<open>\<open>math.MaxInt64\<close>.\<close>

definition MaxInt64 :: int64 where
  "MaxInt64 = 9223372036854775807"

text \<open>The first loop: the highest and the lowest score.\<close>

primrec score_range :: "NodeScore list \<Rightarrow> int64 \<times> int64 \<Rightarrow> int64 \<times> int64" where
  "score_range [] hl = hl"
| "score_range (s # scores) hl =
     score_range scores
       (if fst hl <s scoreValue s then scoreValue s else fst hl,
        if scoreValue s <s snd hl then scoreValue s else snd hl)"

definition NormalizeScore ::
    "'w Plugin \<Rightarrow> pod_ref \<Rightarrow> NodeScore list \<Rightarrow> 'w machine \<Rightarrow> Status option go \<times> NodeScore list" where
  "NormalizeScore p r scores \<sigma> =
     (let (highest, lowest) = score_range scores (- MaxInt64, MaxInt64);
          oldRange = highest - lowest;
          newRange = MaxNodeScore (frameworkHandler p) - MinNodeScore (frameworkHandler p);
          scores' = map (\<lambda>s. s\<lparr>scoreValue :=
            (if oldRange = 0 then MinNodeScore (frameworkHandler p)
             else div64 ((scoreValue s - lowest) * newRange) oldRange
                  + MinNodeScore (frameworkHandler p))\<rparr>) scores
      in with_result (deref (mem \<sigma> r)) scores' (\<lambda>pod. (Return ok_status, scores')))"

end
