(* ===== verification/Placement_Decision.thy ===== *)
theory Placement_Decision
  imports Plugin_Hooks
begin

section \<open>The placement decision\<close>

text \<open>
  \<open>PreFilter\<close> and \<open>PreScore\<close> repeat one computation (the code has a TODO about it).
  \<open>placement_stage\<close> is that computation; both hooks are shown to be it behind different
  guards, so the decision is analysed once. The lemmas about a manager are proved in the
  context of the interface \<open>policy_manager\<close>.
\<close>

subsection \<open>The decision as arithmetic\<close>

definition prefers :: "Action \<Rightarrow> int64 \<Rightarrow> 'p list \<Rightarrow> 'q list \<Rightarrow> bool" where
  "prefers action t podList grp \<longleftrightarrow>
     len64 grp <s (if action = ActionMustNot then len64 podList - t else t)"

text \<open>The target on unbounded integers, and when the 64-bit computation reaches it.\<close>

definition target :: "Action \<Rightarrow> int \<Rightarrow> nat \<Rightarrow> int" where
  "target action t n = (if action = ActionMustNot then int n - t else t)"

lemma prefers_iff:
  assumes "length grp < 2 ^ 63" "length podList < 2 ^ 62" "- (2 ^ 62) \<le> sint t"
  shows "prefers action t podList grp \<longleftrightarrow> int (length grp) < target action (sint t) (length podList)"
proof -
  have l: "sint (len64 podList) = int (length podList)"
    using assms(2) by (intro sint_len64) simp
  have "int (length podList) < 2 ^ 62" using assms(2) by simp
  then have "sint (len64 podList - t) = int (length podList) - sint t"
    using assms(3) sint_bounds64 [of t] l by (subst sint_diff64) auto
  then show ?thesis
    using assms(1) by (auto simp: prefers_def target_def word_sless_alt sint_len64)
qed

subsection \<open>The common stage\<close>

definition finish_stage ::
    "'c CycleOps \<Rightarrow> string \<Rightarrow> PlacementPolicy \<Rightarrow> 'c \<Rightarrow> (Pod option \<times> goerror option) go \<Rightarrow> 'w machine
      \<Rightarrow> ('c, 'w) hook_result" where
  "finish_stage cy key pp st res \<sigma>' =
     with_result res (st, \<sigma>') (\<lambda>(pod', err).
     case err of
       Some e \<Rightarrow> with_result (deref pod') (st, \<sigma>') (\<lambda>pod'.
         (Return (error_status (Sprintf ''failed to annotate pod %s: %v''
            [ArgString (podName pod'), ArgError e])), st, \<sigma>'))
     | None \<Rightarrow> with_result (deref pod') (st, \<sigma>') (\<lambda>pod'.
         (Return ok_status, csWrite cy st key (NewStateData (podName pod') (Some pp)), \<sigma>')))"

definition placement_stage ::
    "'sel packages \<Rightarrow> 'c CycleOps \<Rightarrow> 'w Manager \<Rightarrow> string \<Rightarrow> NodeInfo list \<Rightarrow> PlacementPolicy
      \<Rightarrow> 'c \<Rightarrow> pod_ref \<Rightarrow> 'w machine \<Rightarrow> ('c, 'w) hook_result" where
  "placement_stage pk cy mgr key nodes pp st r \<sigma> =
     with_result (deref (NodeSelector (Spec pp))) (st, \<sigma>) (\<lambda>nodeSelector.
     with_result (groupNodesWithLabels nodes (MatchLabels nodeSelector)) (st, \<sigma>) (\<lambda>nodeGroup.
     with_result (deref (PodSelector (Spec pp))) (st, \<sigma>) (\<lambda>podSelector.
     with_result (mGetPodsWithLabels mgr \<sigma> (MatchLabels podSelector)) (st, \<sigma>) (\<lambda>(podList, err).
     case err of
       Some e \<Rightarrow> (Return (error_status (Sprintf ''failed to get pods with labels: %v''
          [ArgError e])), st, \<sigma>)
     | None \<Rightarrow>
     with_result (groupPodsBasedOnNodePreference (mem \<sigma>) podList r nodeGroup) (st, \<sigma>) (\<lambda>grp.
     with_result (deref (PolicyOf (Spec pp))) (st, \<sigma>) (\<lambda>policy.
     case GetScaledValueFromIntOrPercent pk (TargetSize policy) (len64 podList) False of (t, err) \<Rightarrow>
     case err of
       Some e \<Rightarrow> (Return (error_status (Sprintf ''failed to get scaled value from int or percent: %v''
          [ArgError e])), st, \<sigma>)
     | None \<Rightarrow>
     with_result (deref (mem \<sigma> r)) (st, \<sigma>) (\<lambda>pod.
     case mAnnotatePod mgr \<sigma> r pp (prefers (PolicyAction policy) t podList grp) of (res, \<sigma>') \<Rightarrow>
     finish_stage cy key pp st res \<sigma>')))))))"

text \<open>The guard in front of the stage: find the policy, skip the other hook's mode.\<close>

definition policy_guard ::
    "'w Manager \<Rightarrow> EnforcementMode \<Rightarrow> 'c \<Rightarrow> pod_ref \<Rightarrow> 'w machine
      \<Rightarrow> (PlacementPolicy \<Rightarrow> ('c, 'w) hook_result) \<Rightarrow> ('c, 'w) hook_result" where
  "policy_guard mgr skip st r \<sigma> k =
     with_result (mGetPlacementPolicyForPod mgr \<sigma> r) (st, \<sigma>) (\<lambda>(pp, err).
     case err of
       Some e \<Rightarrow> with_result (deref (mem \<sigma> r)) (st, \<sigma>) (\<lambda>pod.
         (Return (error_status (Sprintf ''failed to get placement policy for pod %s: %v''
            [ArgString (podName pod), ArgError e])), st, \<sigma>))
     | None \<Rightarrow>
     (case pp of
       None \<Rightarrow> with_result (deref (mem \<sigma> r)) (st, \<sigma>) (\<lambda>pod. (Return ok_status, st, \<sigma>))
     | Some pp \<Rightarrow>
       if EnforcementModeOf (Spec pp) = skip then (Return ok_status, st, \<sigma>) else k pp))"

lemma PreFilter_stage:
  "PreFilter pk cy p st r \<sigma> =
     policy_guard (ppMgr p) EnforcementModeBestEffort st r \<sigma> (\<lambda>pp.
       case NodeInfos_List (frameworkHandler p) (world \<sigma>) of (nodes, err) \<Rightarrow>
       case err of
         Some e \<Rightarrow> (Return (error_status (Sprintf ''failed to get nodes in the cluster: %v''
            [ArgError e])), st, \<sigma>)
       | None \<Rightarrow> placement_stage pk cy (ppMgr p) (getPreFilterStateKey p) nodes pp st r \<sigma>)"
  by (simp only: PreFilter_def policy_guard_def placement_stage_def finish_stage_def prefers_def
      Let_def if_True_False)

lemma PreScore_stage:
  "PreScore pk cy p st r nodes \<sigma> =
     policy_guard (ppMgr p) EnforcementModeStrict st r \<sigma> (\<lambda>pp.
       placement_stage pk cy (ppMgr p) (getPreScoreStateKey p) nodes pp st r \<sigma>)"
  by (simp only: PreScore_def policy_guard_def placement_stage_def finish_stage_def prefers_def
      Let_def if_True_False)

subsection \<open>What a stage may change\<close>

lemma finish_stage_machine: "finish_stage cy key pp st res \<sigma> = (out, st', \<sigma>') \<Longrightarrow> \<sigma>' = \<sigma>"
  by (auto simp: finish_stage_def with_result_eq split: go.splits option.splits prod.splits)

lemma finish_stage_ok:
  "finish_stage cy key pp st res \<sigma> = (Return s, st', \<sigma>') \<Longrightarrow> status_ok s \<Longrightarrow>
   \<exists>pod'. res = Return (Some pod', None) \<and>
     st' = csWrite cy st key (NewStateData (podName pod') (Some pp))"
  by (auto simp: finish_stage_def with_result_eq deref_Return_iff
      split: go.splits option.splits prod.splits)

lemma finish_stage_cycle:
  "finish_stage cy key pp st res \<sigma> = (out, st', \<sigma>') \<Longrightarrow>
   st' = st \<or> (\<exists>name. st' = csWrite cy st key (NewStateData name (Some pp)))"
  by (auto simp: finish_stage_def with_result_eq split: go.splits option.splits prod.splits)

text \<open>A hook leaves everything as it was, or writes the two annotations of the pod it is given.\<close>

definition annotates_only ::
    "'w machine \<Rightarrow> 'c \<Rightarrow> pod_ref \<Rightarrow> 'w machine \<Rightarrow> 'c \<Rightarrow> bool" where
  "annotates_only \<sigma> st r \<sigma>' st' \<longleftrightarrow> \<sigma>' = \<sigma> \<and> st' = st \<or>
     (\<exists>pod pp b. mem \<sigma> r = Some pod \<and> mem \<sigma>' = (mem \<sigma>)(r \<mapsto> annotated pp b pod))"

lemma annotates_only_refl [simp]: "annotates_only \<sigma> st r \<sigma> st"
  by (simp add: annotates_only_def)

text \<open>
  A stage uses the key of its hook in one place only: what it writes there, if it writes,
  does not depend on the key.
\<close>

definition written :: "'c CycleOps \<Rightarrow> string \<Rightarrow> 'c \<Rightarrow> StateData option \<Rightarrow> 'c" where
  "written cy key st wr = (case wr of None \<Rightarrow> st | Some d \<Rightarrow> csWrite cy st key d)"

definition key_uniform :: "'c CycleOps \<Rightarrow> 'c \<Rightarrow> (string \<Rightarrow> ('c, 'w) hook_result) \<Rightarrow> bool" where
  "key_uniform cy st f \<longleftrightarrow> (\<exists>out wr \<sigma>'. \<forall>key. f key = (out, written cy key st wr, \<sigma>'))"

lemma uniform_const: "key_uniform cy st (\<lambda>key. (out, st, \<sigma>'))"
  unfolding key_uniform_def written_def by (rule exI, rule exI [of _ None]) simp

lemma uniform_write: "key_uniform cy st (\<lambda>key. (out, csWrite cy st key d, \<sigma>'))"
  unfolding key_uniform_def written_def by (rule exI, rule exI [of _ "Some d"]) simp

lemma uniform_with:
  "(\<And>x. key_uniform cy st (\<lambda>key. k key x)) \<Longrightarrow>
   key_uniform cy st (\<lambda>key. with_result m (st, \<sigma>) (k key))"
  by (cases m) (simp_all add: uniform_const)

lemma uniform_option:
  "key_uniform cy st a \<Longrightarrow> (\<And>y. key_uniform cy st (\<lambda>key. b key y)) \<Longrightarrow>
   key_uniform cy st (\<lambda>key. case x of None \<Rightarrow> a key | Some y \<Rightarrow> b key y)"
  by (cases x) simp_all

lemma uniform_prod:
  "(\<And>y z. key_uniform cy st (\<lambda>key. b key y z)) \<Longrightarrow>
   key_uniform cy st (\<lambda>key. case x of (y, z) \<Rightarrow> b key y z)"
  by (cases x) simp

lemmas uniform_intros = uniform_const uniform_write uniform_with uniform_option uniform_prod

lemma stage_uniform:
  "key_uniform cy st (\<lambda>key. placement_stage pk cy mgr key nodes pp st r \<sigma>)"
  unfolding placement_stage_def finish_stage_def by (intro uniform_intros)

lemma stage_cycle:
  assumes "placement_stage pk cy mgr key nodes pp st r \<sigma> = (out, st', \<sigma>')"
  obtains wr where "st' = written cy key st wr"
  using stage_uniform [of cy st pk mgr nodes pp r \<sigma>] assms that
  unfolding key_uniform_def by (metis fst_conv snd_conv)

lemma written_read:
  "cycle_contract cy \<Longrightarrow> key' \<noteq> key \<Longrightarrow> csRead cy (written cy key st wr) key' = csRead cy st key'"
  by (simp add: written_def cycle_contract_read split: option.split)

text \<open>A \<open>PreFilter\<close> writes under its own key only, so it leaves the other keys readable as before.\<close>

lemma PreFilter_read:
  assumes c: "cycle_contract cy" and pre: "PreFilter pk cy p st r \<sigma> = (out, st', \<sigma>')"
    and k: "key \<noteq> getPreFilterStateKey p"
  shows "csRead cy st' key = csRead cy st key"
proof -
  have "st' = st \<or> (\<exists>nodes pp. placement_stage pk cy (ppMgr p) (getPreFilterStateKey p) nodes pp st r \<sigma> =
      (out, st', \<sigma>'))"
    using pre
    by (auto simp: PreFilter_stage policy_guard_def with_result_eq
        split: go.splits option.splits prod.splits if_splits)
  then show ?thesis
    by (elim disjE exE stage_cycle) (simp_all add: written_read [OF c k])
qed

text \<open>
  Everything a hook looks up on its way to the decision: the pod and its policy with the
  selectors and the rule of the policy, the pods the policy selects (all allocated), and
  the scaled target.
\<close>

record hook_view =
  vPod :: Pod
  vPolicy :: PlacementPolicy
  vNodeSelector :: LabelSelector
  vPodSelector :: LabelSelector
  vRule :: Policy
  vPods :: "pod_ref list"
  vTarget :: int64

definition sees :: "'sel packages \<Rightarrow> 'w Manager \<Rightarrow> 'w machine \<Rightarrow> pod_ref \<Rightarrow> hook_view \<Rightarrow> bool" where
  "sees pk mgr \<sigma> r v \<longleftrightarrow>
     mem \<sigma> r = Some (vPod v) \<and>
     mGetPlacementPolicyForPod mgr \<sigma> r = Return (Some (vPolicy v), None) \<and>
     NodeSelector (Spec (vPolicy v)) = Some (vNodeSelector v) \<and>
     PodSelector (Spec (vPolicy v)) = Some (vPodSelector v) \<and>
     PolicyOf (Spec (vPolicy v)) = Some (vRule v) \<and>
     mGetPodsWithLabels mgr \<sigma> (MatchLabels (vPodSelector v)) = Return (vPods v, None) \<and>
     (\<forall>q \<in> set (vPods v). mem \<sigma> q \<noteq> None) \<and>
     GetScaledValueFromIntOrPercent pk (TargetSize (vRule v)) (len64 (vPods v)) False = (vTarget v, None)"

text \<open>The nodes a selector picks, by name, and the pods that count towards them.\<close>

definition matching_names :: "LabelSelector \<Rightarrow> Node list \<Rightarrow> string set" where
  "matching_names sel nodes =
     nodeName ` set (filter (\<lambda>n. checkHasLabels (nodeLabels n) (MatchLabels sel)) nodes)"

definition placed :: "(pod_ref \<Rightarrow> Pod option) \<Rightarrow> string set \<Rightarrow> string \<Rightarrow> pod_ref list \<Rightarrow> pod_ref list" where
  "placed h names uid rs =
     filter (\<lambda>q. podUID (the (h q)) \<noteq> uid \<and> counted names (the (h q))) rs"

lemma placed_filter: "placed h names uid (filter P rs) = filter P (placed h names uid rs)"
  by (induction rs) (simp_all add: placed_def)

definition decision :: "'w machine \<Rightarrow> Node list \<Rightarrow> hook_view \<Rightarrow> bool" where
  "decision \<sigma> nodes v =
     prefers (PolicyAction (vRule v)) (vTarget v) (vPods v)
       (placed (mem \<sigma>) (matching_names (vNodeSelector v) nodes) (podUID (vPod v)) (vPods v))"

lemma decision_iff:
  assumes "length (vPods v) < 2 ^ 62" "- (2 ^ 62) \<le> sint (vTarget v)"
  shows "decision \<sigma> nodes v \<longleftrightarrow>
    int (length (placed (mem \<sigma>) (matching_names (vNodeSelector v) nodes) (podUID (vPod v)) (vPods v)))
      < target (PolicyAction (vRule v)) (sint (vTarget v)) (length (vPods v))"
proof -
  have "length (placed (mem \<sigma>) (matching_names (vNodeSelector v) nodes) (podUID (vPod v)) (vPods v))
      \<le> length (vPods v)"
    by (simp add: placed_def)
  with assms show ?thesis unfolding decision_def by (intro prefers_iff) simp_all
qed

context policy_manager
begin

lemma stage_frame:
  assumes "placement_stage pk cy mgr key nodes pp st r \<sigma> = (out, st', \<sigma>')"
  shows "annotates_only \<sigma> st r \<sigma>' st'"
proof -
  have "\<sigma>' = \<sigma> \<and> st' = st \<or> (\<exists>pod b res \<sigma>''. mem \<sigma> r = Some pod \<and>
      mAnnotatePod mgr \<sigma> r pp b = (res, \<sigma>'') \<and> finish_stage cy key pp st res \<sigma>'' = (out, st', \<sigma>'))"
    using assms
    by (auto simp: placement_stage_def with_result_eq deref_Return_iff
        split: go.splits option.splits prod.splits)
  then show ?thesis
  proof (elim disjE exE conjE)
    fix pod b res \<sigma>''
    assume pod: "mem \<sigma> r = Some pod" and a: "mAnnotatePod mgr \<sigma> r pp b = (res, \<sigma>'')"
      and f: "finish_stage cy key pp st res \<sigma>'' = (out, st', \<sigma>')"
    from annotate [OF pod, of pp b] a finish_stage_machine [OF f]
    have "mem \<sigma>' = (mem \<sigma>)(r \<mapsto> annotated pp b pod)" by auto
    with pod show ?thesis unfolding annotates_only_def by blast
  qed simp
qed

text \<open>When everything is found, the stage annotates the pod with the decision.\<close>

lemma stage_annotates:
  assumes v: "sees pk mgr \<sigma> r v"
  shows "placement_stage pk cy mgr key (map Some ns) (vPolicy v) st r \<sigma> =
    (case mAnnotatePod mgr \<sigma> r (vPolicy v) (decision \<sigma> ns v) of (res, \<sigma>') \<Rightarrow>
      finish_stage cy key (vPolicy v) st res \<sigma>')"
proof -
  let ?nodes = "filter (\<lambda>n. checkHasLabels (nodeLabels n) (MatchLabels (vNodeSelector v))) ns"
  let ?grp = "fold (\<lambda>n. map_store (nodeName n) n) ?nodes []"
  have names: "dom (map_of ?grp) = matching_names (vNodeSelector v) ns"
    by (simp add: dom_fold_store matching_names_def)
  have pods: "groupPodsBasedOnNodePreference (mem \<sigma>) (vPods v) r ?grp =
      Return (placed (mem \<sigma>) (matching_names (vNodeSelector v) ns) (podUID (vPod v)) (vPods v))"
    using v groupPodsBasedOnNodePreference_eq [of "vPods v" "mem \<sigma>" r "vPod v" ?grp]
    by (simp add: sees_def placed_def names)
  show ?thesis
    using v by (simp add: sees_def placement_stage_def groupNodesWithLabels_eq pods decision_def)
qed

lemma stage_decides:
  assumes v: "sees pk mgr \<sigma> r v"
  shows "\<exists>res w'. placement_stage pk cy mgr key (map Some ns) (vPolicy v) st r \<sigma> =
    finish_stage cy key (vPolicy v) st (Return res)
      (\<sigma>\<lparr>mem := (mem \<sigma>)(r \<mapsto> annotated (vPolicy v) (decision \<sigma> ns v) (vPod v)), world := w'\<rparr>)"
proof -
  from v have "mem \<sigma> r = Some (vPod v)" by (simp add: sees_def)
  from annotate [OF this, of "vPolicy v" "decision \<sigma> ns v"] obtain res w'
    where "mAnnotatePod mgr \<sigma> r (vPolicy v) (decision \<sigma> ns v) = (Return res,
      \<sigma>\<lparr>mem := (mem \<sigma>)(r \<mapsto> annotated (vPolicy v) (decision \<sigma> ns v) (vPod v)), world := w'\<rparr>)"
    by blast
  then have "placement_stage pk cy mgr key (map Some ns) (vPolicy v) st r \<sigma> =
    finish_stage cy key (vPolicy v) st (Return res)
      (\<sigma>\<lparr>mem := (mem \<sigma>)(r \<mapsto> annotated (vPolicy v) (decision \<sigma> ns v) (vPod v)), world := w'\<rparr>)"
    by (simp add: stage_annotates [OF v])
  then show ?thesis by blast
qed

lemma guard_skips:
  "mGetPlacementPolicyForPod mgr \<sigma> r = Return (Some pp, None) \<Longrightarrow>
   EnforcementModeOf (Spec pp) = skip \<Longrightarrow>
   policy_guard mgr skip st r \<sigma> k = (Return ok_status, st, \<sigma>)"
  by (simp add: policy_guard_def)

lemma guard_passes:
  "sees pk mgr \<sigma> r v \<Longrightarrow> EnforcementModeOf (Spec (vPolicy v)) \<noteq> skip \<Longrightarrow>
   policy_guard mgr skip st r \<sigma> k = k (vPolicy v)"
  by (simp add: policy_guard_def sees_def)

lemma guard_no_policy:
  "mem \<sigma> r = Some pod \<Longrightarrow> mGetPlacementPolicyForPod mgr \<sigma> r = Return (None, None) \<Longrightarrow>
   policy_guard mgr skip st r \<sigma> k = (Return ok_status, st, \<sigma>)"
  by (simp add: policy_guard_def)

lemma guard_frame:
  assumes "policy_guard mgr skip st r \<sigma> k = (out, st', \<sigma>')"
    and "\<And>pp. k pp = (out, st', \<sigma>') \<Longrightarrow> annotates_only \<sigma> st r \<sigma>' st'"
  shows "annotates_only \<sigma> st r \<sigma>' st'"
  using assms
  by (auto simp: policy_guard_def with_result_eq split: go.splits option.splits prod.splits if_splits)

lemma pre_filter_frame:
  assumes "ppMgr p = mgr" "PreFilter pk cy p st r \<sigma> = (out, st', \<sigma>')"
  shows "annotates_only \<sigma> st r \<sigma>' st'"
proof (rule guard_frame [of EnforcementModeBestEffort st r \<sigma> _ out st' \<sigma>'])
  show "policy_guard mgr EnforcementModeBestEffort st r \<sigma> (\<lambda>pp.
       case NodeInfos_List (frameworkHandler p) (world \<sigma>) of (nodes, err) \<Rightarrow>
       case err of
         Some e \<Rightarrow> (Return (error_status (Sprintf ''failed to get nodes in the cluster: %v''
            [ArgError e])), st, \<sigma>)
       | None \<Rightarrow> placement_stage pk cy (ppMgr p) (getPreFilterStateKey p) nodes pp st r \<sigma>) =
      (out, st', \<sigma>')"
    using assms by (simp add: PreFilter_stage)
qed (auto simp: assms(1) split: prod.splits option.splits intro: stage_frame)

lemma pre_score_frame:
  assumes "ppMgr p = mgr" "PreScore pk cy p st r nodes \<sigma> = (out, st', \<sigma>')"
  shows "annotates_only \<sigma> st r \<sigma>' st'"
proof (rule guard_frame [of EnforcementModeStrict st r \<sigma> _ out st' \<sigma>'])
  show "policy_guard mgr EnforcementModeStrict st r \<sigma> (\<lambda>pp.
       placement_stage pk cy (ppMgr p) (getPreScoreStateKey p) nodes pp st r \<sigma>) = (out, st', \<sigma>')"
    using assms by (simp add: PreScore_stage)
qed (auto simp: assms(1) intro: stage_frame)

lemma pre_filter_decides:
  assumes "ppMgr p = mgr" "sees pk mgr \<sigma> r v"
    and "EnforcementModeOf (Spec (vPolicy v)) \<noteq> EnforcementModeBestEffort"
    and "NodeInfos_List (frameworkHandler p) (world \<sigma>) = (map Some ns, None)"
  shows "\<exists>res w'. PreFilter pk cy p st r \<sigma> =
    finish_stage cy (getPreFilterStateKey p) (vPolicy v) st (Return res)
      (\<sigma>\<lparr>mem := (mem \<sigma>)(r \<mapsto> annotated (vPolicy v) (decision \<sigma> ns v) (vPod v)), world := w'\<rparr>)"
  using assms stage_decides [OF assms(2), of cy "getPreFilterStateKey p" ns st]
  by (simp add: PreFilter_stage guard_passes)

lemma pre_score_decides:
  assumes "ppMgr p = mgr" "sees pk mgr \<sigma> r v"
    and "EnforcementModeOf (Spec (vPolicy v)) \<noteq> EnforcementModeStrict"
  shows "\<exists>res w'. PreScore pk cy p st r (map Some ns) \<sigma> =
    finish_stage cy (getPreScoreStateKey p) (vPolicy v) st (Return res)
      (\<sigma>\<lparr>mem := (mem \<sigma>)(r \<mapsto> annotated (vPolicy v) (decision \<sigma> ns v) (vPod v)), world := w'\<rparr>)"
  using assms stage_decides [OF assms(2), of cy "getPreScoreStateKey p" ns st]
  by (simp add: PreScore_stage guard_passes)

end

subsection \<open>The hooks over the policy manager\<close>

text \<open>The pod a hook leaves in memory, and the answer of the update it sends.\<close>

definition decided_pod :: "'w machine \<Rightarrow> Node list \<Rightarrow> hook_view \<Rightarrow> Pod" where
  "decided_pod \<sigma> ns v = annotated (vPolicy v) (decision \<sigma> ns v) (vPod v)"

definition decided_update ::
    "('w, 'sel) PlacementPolicyManager \<Rightarrow> 'w machine \<Rightarrow> Node list \<Rightarrow> hook_view
      \<Rightarrow> (Pod option \<times> goerror option) \<times> 'w" where
  "decided_update m \<sigma> ns v =
     Pods_Update (client m) (podNamespace (vPod v)) (decided_pod \<sigma> ns v) (world \<sigma>)"

definition decided_machine ::
    "('w, 'sel) PlacementPolicyManager \<Rightarrow> pod_ref \<Rightarrow> 'w machine \<Rightarrow> Node list \<Rightarrow> hook_view \<Rightarrow> 'w machine" where
  "decided_machine m r \<sigma> ns v =
     \<sigma>\<lparr>mem := (mem \<sigma>)(r \<mapsto> decided_pod \<sigma> ns v), world := snd (decided_update m \<sigma> ns v)\<rparr>"

lemma decided_machine_mem [simp]:
  "mem (decided_machine m r \<sigma> ns v) = (mem \<sigma>)(r \<mapsto> decided_pod \<sigma> ns v)"
  by (simp add: decided_machine_def)

lemma core_stage:
  assumes "sees pk (as_Manager pk m) \<sigma> r v"
  shows "placement_stage pk cy (as_Manager pk m) key (map Some ns) (vPolicy v) st r \<sigma> =
    finish_stage cy key (vPolicy v) st (Return (fst (decided_update m \<sigma> ns v))) (decided_machine m r \<sigma> ns v)"
proof -
  have pod: "mem \<sigma> r = Some (vPod v)" using assms by (simp add: sees_def)
  show ?thesis
    by (simp add: core_manager.stage_annotates [OF assms] AnnotatePod_eq [OF pod]
        decided_machine_def decided_update_def decided_pod_def)
qed

lemma core_pre_filter:
  assumes "ppMgr p = as_Manager pk m" "sees pk (as_Manager pk m) \<sigma> r v"
    and "EnforcementModeOf (Spec (vPolicy v)) \<noteq> EnforcementModeBestEffort"
    and "NodeInfos_List (frameworkHandler p) (world \<sigma>) = (map Some ns, None)"
  shows "PreFilter pk cy p st r \<sigma> =
    finish_stage cy (getPreFilterStateKey p) (vPolicy v) st
      (Return (fst (decided_update m \<sigma> ns v))) (decided_machine m r \<sigma> ns v)"
  using assms by (simp add: PreFilter_stage core_manager.guard_passes core_stage)

lemma core_pre_score:
  assumes "ppMgr p = as_Manager pk m" "sees pk (as_Manager pk m) \<sigma> r v"
    and "EnforcementModeOf (Spec (vPolicy v)) \<noteq> EnforcementModeStrict"
  shows "PreScore pk cy p st r (map Some ns) \<sigma> =
    finish_stage cy (getPreScoreStateKey p) (vPolicy v) st
      (Return (fst (decided_update m \<sigma> ns v))) (decided_machine m r \<sigma> ns v)"
  using assms by (simp add: PreScore_stage core_manager.guard_passes core_stage)

subsection \<open>Reading the decision back\<close>

lemma Filter_reads:
  assumes "csRead cy st (getPreFilterStateKey p) = (Some (NewStateData name (Some pp)), None)"
    and "NodeSelector (Spec pp) = Some sel" "mem \<sigma> r = Some (annotated pp' b pod)"
  shows "Filter cy p st r (Some n) \<sigma> =
    Return (if checkHasLabels (nodeLabels n) (MatchLabels sel) = b then ok_status
            else Some (NewStatus Unschedulable (Text '''')))"
  using assms by (auto simp: Filter_def NewStateData_def Let_def)

text \<open>A cycle whose update is accepted: \<open>PreFilter\<close> decides, \<open>Filter\<close> follows.\<close>

lemma pre_filter_then_filter:
  assumes "ppMgr p = as_Manager pk m" "cycle_contract cy" "sees pk (as_Manager pk m) \<sigma> r v"
    and "EnforcementModeOf (Spec (vPolicy v)) \<noteq> EnforcementModeBestEffort"
    and "NodeInfos_List (frameworkHandler p) (world \<sigma>) = (map Some ns, None)"
    and "fst (decided_update m \<sigma> ns v) = (Some pod', None)"
  shows "\<exists>st'. PreFilter pk cy p st r \<sigma> = (Return ok_status, st', decided_machine m r \<sigma> ns v) \<and>
    (\<forall>n. Filter cy p st' r (Some n) (decided_machine m r \<sigma> ns v) =
      Return (if checkHasLabels (nodeLabels n) (MatchLabels (vNodeSelector v)) = decision \<sigma> ns v
              then ok_status else Some (NewStatus Unschedulable (Text ''''))))"
proof (intro exI conjI allI)
  let ?st' = "csWrite cy st (getPreFilterStateKey p) (NewStateData (podName pod') (Some (vPolicy v)))"
  let ?\<sigma>' = "decided_machine m r \<sigma> ns v"
  show "PreFilter pk cy p st r \<sigma> = (Return ok_status, ?st', ?\<sigma>')"
    using assms(6) by (simp add: core_pre_filter [OF assms(1,3,4,5)] finish_stage_def)
  show "Filter cy p ?st' r (Some n) ?\<sigma>' =
      Return (if checkHasLabels (nodeLabels n) (MatchLabels (vNodeSelector v)) = decision \<sigma> ns v
              then ok_status else Some (NewStatus Unschedulable (Text '''')))" for n
    by (rule Filter_reads [of cy _ _ "podName pod'" "vPolicy v" _ _ r "vPolicy v" _ "vPod v"])
      (use assms(2,3) in \<open>simp_all add: cycle_contract_read sees_def decided_pod_def\<close>)
qed

lemma Score_reads:
  assumes "csRead cy st (getPreScoreStateKey p) = (Some (NewStateData name (Some pp)), None)"
    and "NodeInfos_Get (frameworkHandler p) (world \<sigma>) x = (Some n, None)"
    and "NodeSelector (Spec pp) = Some sel" "mem \<sigma> r = Some (annotated pp' b pod)"
  shows "Score cy p st r x \<sigma> =
    Return (if checkHasLabels (nodeLabels n) (MatchLabels sel) = b then 100 else 0, None)"
  using assms by (auto simp: Score_def NewStateData_def Let_def)

end
