(* ===== verification/Placement_System.thy ===== *)
theory Placement_System
  imports Placement_Decision
begin

section \<open>Placing the pods of a workload\<close>

text \<open>
  The hooks run once per pod; a policy speaks about all pods of a workload. This theory has
  what a scheduler around the hooks may do with a workload, whichever hooks decide: a pod
  without a node gets its annotation from the count of the others and perhaps a node on the
  side the annotation names, bindings happen or fail, the informer replaces structs, the rest
  of the world changes (\<open>moves\<close>). The invariant \<open>enforced\<close> says how many pods are meant for the policy's nodes
  at any moment. The theories \<open>Enforcement\<close> and \<open>Scheduling_Cycle\<close> show that the hooks of
  the code move the pods this way.
\<close>

subsection \<open>The workload and its surroundings\<close>

record workload =
  wlPolicies :: "PlacementPolicy list"
  wlPolicy :: PlacementPolicy
  wlNodeSelector :: LabelSelector
  wlPodSelector :: LabelSelector
  wlRule :: Policy
  wlNodes :: "Node list"
  wlPods :: "pod_ref list"
  wlTarget :: int64

text \<open>Fewer than 2^62 pods, each listed once; nodes with names, each its own.\<close>

definition wl_ok :: "workload \<Rightarrow> bool" where
  "wl_ok wl \<longleftrightarrow> length (wlPods wl) < 2 ^ 62 \<and> - (2 ^ 62) \<le> sint (wlTarget wl) \<and>
     distinct (wlPods wl) \<and> distinct (map nodeName (wlNodes wl)) \<and> '''' \<notin> nodeName ` set (wlNodes wl)"

text \<open>
  The pods of the workload are those the policy selects. Other policies may select them, too,
  if they are heavier: the manager takes the lightest.
\<close>

definition workload_pod :: "workload \<Rightarrow> Pod \<Rightarrow> bool" where
  "workload_pod wl pod \<longleftrightarrow>
     podNamespace pod = ppNamespace (wlPolicy wl) \<and> wlPolicy wl \<in> set (wlPolicies wl) \<and> selects (wlPolicy wl) pod \<and>
     (\<forall>pp \<in> set (wlPolicies wl). selects pp pod \<and> pp \<noteq> wlPolicy wl \<longrightarrow>
        policy_weight (wlPolicy wl) < policy_weight pp)"

text \<open>Fresh pods with unique UIDs: nothing annotated, nothing placed.\<close>

definition fresh_workload :: "workload \<Rightarrow> 'w machine \<Rightarrow> bool" where
  "fresh_workload wl \<sigma> \<longleftrightarrow>
     (\<forall>r \<in> set (wlPods wl). case mem \<sigma> r of None \<Rightarrow> False | Some pod \<Rightarrow>
        workload_pod wl pod \<and> podNodeName pod = '''' \<and>
        pod_annotation pod PlacementPolicyPreferenceAnnotationKey = '''') \<and>
     distinct (map (\<lambda>r. podUID (the (mem \<sigma> r))) (wlPods wl))"

definition wl_matches :: "workload \<Rightarrow> Node \<Rightarrow> bool" where
  "wl_matches wl n \<longleftrightarrow> checkHasLabels (nodeLabels n) (MatchLabels (wlNodeSelector wl))"

definition wl_names :: "workload \<Rightarrow> string set" where
  "wl_names wl = matching_names (wlNodeSelector wl) (wlNodes wl)"

text \<open>\<open>pending\<close> holds the pods whose node is decided and whose binding is under way.\<close>

record 'w system =
  machine_of :: "'w machine"
  pending :: "pod_ref \<Rightarrow> Node option"

definition schedulable :: "workload \<Rightarrow> 'w system \<Rightarrow> pod_ref \<Rightarrow> bool" where
  "schedulable wl S r \<longleftrightarrow> r \<in> set (wlPods wl) \<and> pending S r = None \<and>
     (case mem (machine_of S) r of None \<Rightarrow> False | Some pod \<Rightarrow> podNodeName pod = '''')"

subsection \<open>The invariant\<close>

text \<open>What the annotation of a pod says: nothing, or a preference.\<close>

definition preference :: "'w machine \<Rightarrow> pod_ref \<Rightarrow> bool option" where
  "preference \<sigma> r = (case mem \<sigma> r of None \<Rightarrow> None
     | Some pod \<Rightarrow> ParseBool (pod_annotation pod PlacementPolicyPreferenceAnnotationKey))"

definition meant :: "workload \<Rightarrow> 'w machine \<Rightarrow> pod_ref list" where
  "meant wl \<sigma> = filter (\<lambda>r. preference \<sigma> r = Some True) (wlPods wl)"

definition averse :: "workload \<Rightarrow> 'w machine \<Rightarrow> pod_ref list" where
  "averse wl \<sigma> = filter (\<lambda>r. preference \<sigma> r = Some False) (wlPods wl)"

definition wl_target :: "workload \<Rightarrow> int" where
  "wl_target wl = target (PolicyAction (wlRule wl)) (sint (wlTarget wl)) (length (wlPods wl))"

text \<open>The target cut to what the pods of the workload can meet.\<close>

definition wl_quota :: "workload \<Rightarrow> int" where
  "wl_quota wl = max 0 (min (wl_target wl) (int (length (wlPods wl))))"

text \<open>One pod of the workload: its place, if it has one, agrees with its annotation.\<close>

definition pod_ok :: "workload \<Rightarrow> 'w system \<Rightarrow> pod_ref \<Rightarrow> bool" where
  "pod_ok wl S r \<longleftrightarrow>
     (case mem (machine_of S) r of None \<Rightarrow> False | Some pod \<Rightarrow>
        workload_pod wl pod \<and>
        (podNodeName pod \<noteq> '''' \<longrightarrow> preference (machine_of S) r = Some (podNodeName pod \<in> wl_names wl)) \<and>
        (\<forall>n. pending S r = Some n \<longrightarrow>
           n \<in> set (wlNodes wl) \<and> preference (machine_of S) r = Some (wl_matches wl n)))"

definition enforced :: "workload \<Rightarrow> 'w system \<Rightarrow> bool" where
  "enforced wl S \<longleftrightarrow>
     (\<forall>r \<in> set (wlPods wl). pod_ok wl S r) \<and>
     (\<forall>r. pending S r \<noteq> None \<longrightarrow> r \<in> set (wlPods wl)) \<and>
     distinct (map (\<lambda>r. podUID (the (mem (machine_of S) r))) (wlPods wl)) \<and>
     int (length (meant wl (machine_of S))) \<le> max 0 (wl_target wl) \<and>
     int (length (averse wl (machine_of S))) \<le> int (length (wlPods wl)) - wl_quota wl"

subsection \<open>What may happen to the pods\<close>

text \<open>
  \<open>Decides\<close> is a scheduling cycle: the pod is annotated with the comparison of the others
  meant for the nodes and the target, and may get a node of the side it prefers. The cycle
  and the other moves leave everything else of the process as it was.
\<close>

text \<open>
  The informer replaces the struct of a pod by what the API server has: the same pod, on the
  same node. Its annotation is that of the struct, or, when the update of a pod without a
  node was refused, missing.
\<close>

definition refreshes :: "workload \<Rightarrow> 'w system \<Rightarrow> pod_ref \<Rightarrow> Pod \<Rightarrow> bool" where
  "refreshes wl S r pod' \<longleftrightarrow> r \<in> set (wlPods wl) \<and> workload_pod wl pod' \<and>
     (case mem (machine_of S) r of None \<Rightarrow> False | Some pod \<Rightarrow>
        podUID pod' = podUID pod \<and> podNodeName pod' = podNodeName pod \<and>
        (pod_annotation pod' PlacementPolicyPreferenceAnnotationKey =
           pod_annotation pod PlacementPolicyPreferenceAnnotationKey \<or>
         podNodeName pod = '''' \<and> pending S r = None \<and>
           pod_annotation pod' PlacementPolicyPreferenceAnnotationKey = ''''))"

abbreviation refreshed :: "'w system \<Rightarrow> pod_ref \<Rightarrow> Pod \<Rightarrow> 'w system" where
  "refreshed S r pod' \<equiv> S\<lparr>machine_of := (machine_of S)\<lparr>mem := (mem (machine_of S))(r \<mapsto> pod')\<rparr>\<rparr>"

inductive moves :: "workload \<Rightarrow> 'w system \<Rightarrow> 'w system \<Rightarrow> bool" for wl where
  Decides: "schedulable wl S r \<Longrightarrow> mem (machine_of S) r = Some pod \<Longrightarrow>
    mem \<sigma>' = (mem (machine_of S))(r \<mapsto> annotated (wlPolicy wl) b pod) \<Longrightarrow>
    b \<longleftrightarrow> int (length (filter (\<lambda>q. q \<noteq> r \<and> preference (machine_of S) q = Some True) (wlPods wl))) < wl_target wl \<Longrightarrow>
    (\<And>n. choice = Some n \<Longrightarrow> n \<in> set (wlNodes wl) \<and> wl_matches wl n = b) \<Longrightarrow>
    moves wl S (S\<lparr>machine_of := \<sigma>', pending := (pending S)(r := choice)\<rparr>)"
| Unbinds: "pending S r = Some n \<Longrightarrow> moves wl S (S\<lparr>pending := (pending S)(r := None)\<rparr>)"
| Binds: "pending S r = Some n \<Longrightarrow> mem (machine_of S) r = Some pod \<Longrightarrow>
    moves wl S
      (S\<lparr>machine_of := (machine_of S)\<lparr>mem := (mem (machine_of S))(r \<mapsto> pod\<lparr>podNodeName := nodeName n\<rparr>)\<rparr>,
         pending := (pending S)(r := None)\<rparr>)"
| Refreshes: "refreshes wl S r pod' \<Longrightarrow> moves wl S (refreshed S r pod')"
| Elsewhere: "mem \<sigma>' = mem (machine_of S) \<Longrightarrow> moves wl S (S\<lparr>machine_of := \<sigma>'\<rparr>)"

text \<open>A cycle that ends without a node.\<close>

lemma Decides_nothing:
  assumes "schedulable wl S r" "mem (machine_of S) r = Some pod"
    and "mem \<sigma>' = (mem (machine_of S))(r \<mapsto> annotated (wlPolicy wl) b pod)"
    and "b \<longleftrightarrow> int (length (filter (\<lambda>q. q \<noteq> r \<and> preference (machine_of S) q = Some True) (wlPods wl))) < wl_target wl"
  shows "moves wl S (S\<lparr>machine_of := \<sigma>'\<rparr>)"
proof -
  have "moves wl S (S\<lparr>machine_of := \<sigma>', pending := (pending S)(r := None)\<rparr>)"
    by (rule Decides [OF assms]) simp
  moreover have "(pending S)(r := None) = pending S" using assms(1) by (auto simp: schedulable_def)
  ultimately show ?thesis by simp
qed

subsection \<open>Counting the pods of a workload\<close>

lemma enforced_mem:
  assumes "enforced wl S" "q \<in> set (wlPods wl)"
  obtains pod where "mem (machine_of S) q = Some pod" "workload_pod wl pod"
    "counted (wl_names wl) pod \<longleftrightarrow> preference (machine_of S) q = Some True"
proof -
  from assms have "pod_ok wl S q" by (simp add: enforced_def)
  then obtain pod where pod: "mem (machine_of S) q = Some pod" and w: "workload_pod wl pod"
    and n: "podNodeName pod \<noteq> '''' \<Longrightarrow> preference (machine_of S) q = Some (podNodeName pod \<in> wl_names wl)"
    by (auto simp: pod_ok_def split: option.splits)
  have "counted (wl_names wl) pod \<longleftrightarrow> preference (machine_of S) q = Some True"
    using n by (auto simp: counted_def preference_def pod)
  with pod w that show ?thesis by blast
qed

text \<open>The pods counted against the one being scheduled are the others meant for the nodes.\<close>

lemma placed_others:
  assumes e: "enforced wl S" and r: "r \<in> set (wlPods wl)" "mem (machine_of S) r = Some pod"
  shows "placed (mem (machine_of S)) (wl_names wl) (podUID pod) (wlPods wl) =
    filter (\<lambda>q. q \<noteq> r \<and> preference (machine_of S) q = Some True) (wlPods wl)"
  unfolding placed_def
proof (rule filter_cong [OF refl])
  fix q
  assume q: "q \<in> set (wlPods wl)"
  from e q obtain P where P: "mem (machine_of S) q = Some P"
    and c: "counted (wl_names wl) P \<longleftrightarrow> preference (machine_of S) q = Some True"
    by (auto elim: enforced_mem)
  have "podUID P = podUID pod \<longleftrightarrow> q = r"
  proof -
    from e have "inj_on (\<lambda>r. podUID (the (mem (machine_of S) r))) (set (wlPods wl))"
      by (simp add: enforced_def distinct_map)
    from inj_onD [OF this _ q r(1)] P r(2) show ?thesis by auto
  qed
  with P c show "(podUID (the (mem (machine_of S) q)) \<noteq> podUID pod \<and>
      counted (wl_names wl) (the (mem (machine_of S) q))) =
    (q \<noteq> r \<and> preference (machine_of S) q = Some True)" by simp
qed

lemma length_filter_split:
  assumes "distinct xs" "x \<in> set xs"
  shows "length (filter P xs) = length (filter (\<lambda>y. y \<noteq> x \<and> P y) xs) + (if P x then 1 else 0)"
proof -
  from assms(2) obtain ys zs where xs: "xs = ys @ x # zs" by (auto simp: in_set_conv_decomp)
  with assms(1) have "x \<notin> set ys" "x \<notin> set zs" by auto
  then have "filter (\<lambda>y. y \<noteq> x \<and> P y) ys = filter P ys" "filter (\<lambda>y. y \<noteq> x \<and> P y) zs = filter P zs"
    by (auto intro: filter_cong)
  with xs show ?thesis by simp
qed

lemma length_filter_mono:
  "(\<And>x. x \<in> set xs \<Longrightarrow> P x \<Longrightarrow> Q x) \<Longrightarrow> length (filter P xs) \<le> length (filter Q xs)"
  by (induction xs) (auto intro: le_SucI)

text \<open>Two disjoint kinds of the others leave room for one.\<close>

lemma length_filter_others:
  assumes "distinct xs" "x \<in> set xs" "\<And>y. P y \<Longrightarrow> \<not> Q y"
  shows "length (filter (\<lambda>y. y \<noteq> x \<and> P y) xs) + length (filter (\<lambda>y. y \<noteq> x \<and> Q y) xs) < length xs"
proof -
  have "length (filter (\<lambda>y. y \<noteq> x \<and> P y) xs) + length (filter (\<lambda>y. \<not> (y \<noteq> x \<and> P y)) xs) = length xs"
    by (rule sum_length_filter_compl)
  moreover have "length (filter (\<lambda>y. \<not> (y \<noteq> x \<and> P y)) xs) =
      length (filter (\<lambda>y. y \<noteq> x \<and> \<not> (y \<noteq> x \<and> P y)) xs) + 1"
    using length_filter_split [OF assms(1,2), of "\<lambda>y. \<not> (y \<noteq> x \<and> P y)"] by simp
  moreover have "length (filter (\<lambda>y. y \<noteq> x \<and> Q y) xs) \<le>
      length (filter (\<lambda>y. y \<noteq> x \<and> \<not> (y \<noteq> x \<and> P y)) xs)"
    by (rule length_filter_mono) (use assms(3) in auto)
  ultimately show ?thesis by linarith
qed

subsection \<open>The invariant holds\<close>

lemma workload_pod_cong:
  assumes "podNamespace p = podNamespace q" "podLabels p = podLabels q"
  shows "workload_pod wl p = workload_pod wl q"
proof -
  have "selects pp p = selects pp q" for pp
    using assms(2) by (simp add: selects_def split: option.split)
  with assms(1) show ?thesis by (simp add: workload_pod_def)
qed

lemma workload_pod_updates [simp]:
  "workload_pod wl (annotated pp b pod) = workload_pod wl pod"
  "workload_pod wl (pod\<lparr>podNodeName := x\<rparr>) = workload_pod wl pod"
  by (simp_all add: workload_pod_cong [of "annotated pp b pod" pod]
      workload_pod_cong [of "pod\<lparr>podNodeName := x\<rparr>" pod])

text \<open>A pod's part of the invariant depends on its struct and its pending node only.\<close>

lemma pod_ok_cong:
  "mem (machine_of S) q = mem (machine_of S') q \<Longrightarrow> pending S q = pending S' q \<Longrightarrow>
   pod_ok wl S q = pod_ok wl S' q"
  by (cases "mem (machine_of S') q") (simp_all add: pod_ok_def preference_def)

lemma pod_ok_unpend:
  "pod_ok wl S q \<Longrightarrow> pod_ok wl (S\<lparr>pending := (pending S)(r := None)\<rparr>) q"
  by (cases "mem (machine_of S) q") (simp_all add: pod_ok_def)

lemma preference_upd:
  "mem \<sigma>' = (mem \<sigma>)(r \<mapsto> annotated pp b pod) \<Longrightarrow>
   preference \<sigma>' q = (if q = r then Some b else preference \<sigma> q)"
  by (simp add: preference_def)

lemma fresh_pod:
  assumes "fresh_workload wl \<sigma>" "r \<in> set (wlPods wl)"
  obtains pod where "mem \<sigma> r = Some pod" "workload_pod wl pod" "podNodeName pod = ''''"
    "preference \<sigma> r = None"
proof -
  have "case mem \<sigma> r of None \<Rightarrow> False | Some pod \<Rightarrow>
        workload_pod wl pod \<and> podNodeName pod = '''' \<and>
        pod_annotation pod PlacementPolicyPreferenceAnnotationKey = ''''"
    using assms by (simp add: fresh_workload_def)
  with that show ?thesis by (cases "mem \<sigma> r") (simp_all add: preference_def)
qed

lemma enforced_start:
  assumes f: "fresh_workload wl \<sigma>"
  shows "enforced wl \<lparr>machine_of = \<sigma>, pending = (\<lambda>_. None)\<rparr>"
proof -
  have none: "preference \<sigma> r = None" if "r \<in> set (wlPods wl)" for r
    using f that by (rule fresh_pod)
  then have "meant wl \<sigma> = []" "averse wl \<sigma> = []" by (simp_all add: meant_def averse_def)
  moreover have "pod_ok wl \<lparr>machine_of = \<sigma>, pending = (\<lambda>_. None)\<rparr> r" if "r \<in> set (wlPods wl)" for r
    using f that by (rule fresh_pod) (simp add: pod_ok_def)
  moreover have "distinct (map (\<lambda>r. podUID (the (mem \<sigma> r))) (wlPods wl))"
    using f by (simp add: fresh_workload_def)
  ultimately show ?thesis by (simp add: enforced_def wl_quota_def)
qed

lemma enforced_decides:
  assumes ok: "wl_ok wl" and e: "enforced wl S" and sch: "schedulable wl S r" and r: "mem (machine_of S) r = Some pod"
    and m: "mem \<sigma>' = (mem (machine_of S))(r \<mapsto> annotated (wlPolicy wl) b pod)"
    and b: "b \<longleftrightarrow> int (length (filter (\<lambda>q. q \<noteq> r \<and> preference (machine_of S) q = Some True) (wlPods wl))) < wl_target wl"
    and n: "\<And>n. choice = Some n \<Longrightarrow> n \<in> set (wlNodes wl) \<and> wl_matches wl n = b"
  shows "enforced wl (S\<lparr>machine_of := \<sigma>', pending := (pending S)(r := choice)\<rparr>)" (is "enforced wl ?S")
proof -
  let ?\<sigma> = "machine_of S"
  have rin: "r \<in> set (wlPods wl)" and name: "podNodeName pod = ''''"
    using sch r by (simp_all add: schedulable_def)
  have w: "workload_pod wl pod" using e rin r by (metis enforced_mem option.inject)
  have d: "distinct (wlPods wl)" using ok by (simp add: wl_ok_def)
  note pref = preference_upd [OF m]
  let ?others = "\<lambda>x. filter (\<lambda>q. q \<noteq> r \<and> preference ?\<sigma> q = Some x) (wlPods wl)"
  have count: "length (filter (\<lambda>q. preference ?\<sigma> q = Some x) (wlPods wl)) =
      length (?others x) + (if preference ?\<sigma> r = Some x then 1 else 0)"
    "length (filter (\<lambda>q. preference \<sigma>' q = Some x) (wlPods wl)) = length (?others x) + (if b = x then 1 else 0)" for x
  proof -
    show "length (filter (\<lambda>q. preference ?\<sigma> q = Some x) (wlPods wl)) =
        length (?others x) + (if preference ?\<sigma> r = Some x then 1 else 0)"
      by (rule length_filter_split [OF d rin])
    have "filter (\<lambda>q. q \<noteq> r \<and> preference \<sigma>' q = Some x) (wlPods wl) = ?others x"
      by (rule filter_cong [OF refl]) (simp add: pref)
    then show "length (filter (\<lambda>q. preference \<sigma>' q = Some x) (wlPods wl)) = length (?others x) + (if b = x then 1 else 0)"
      using length_filter_split [OF d rin, of "\<lambda>q. preference \<sigma>' q = Some x"] by (simp add: pref)
  qed
  have fine: "pod_ok wl ?S q" if "q \<in> set (wlPods wl)" for q
  proof (cases "q = r")
    case True
    then show ?thesis using w name n by (simp add: pod_ok_def m pref)
  next
    case False
    have "pod_ok wl S q" using e that by (simp add: enforced_def)
    with False show ?thesis by (subst pod_ok_cong [of _ _ S]) (simp_all add: m)
  qed
  have room: "length (?others True) + length (?others False) < length (wlPods wl)"
    by (rule length_filter_others [OF d rin]) simp
  have bound: "int (length (meant wl ?\<sigma>)) \<le> max 0 (wl_target wl)"
    and fill: "int (length (averse wl ?\<sigma>)) \<le> int (length (wlPods wl)) - wl_quota wl"
    using e by (simp_all add: enforced_def)
  have "int (length (meant wl \<sigma>')) \<le> max 0 (wl_target wl)"
    using bound b unfolding meant_def count by (auto split: if_splits)
  moreover have "int (length (averse wl \<sigma>')) \<le> int (length (wlPods wl)) - wl_quota wl"
    using fill room b unfolding averse_def count wl_quota_def by (auto split: if_splits)
  moreover have "podUID (the (mem \<sigma>' q)) = podUID (the (mem ?\<sigma> q))" for q
    using r by (simp add: m)
  ultimately show ?thesis using e fine rin by (auto simp: enforced_def)
qed

lemma wl_names_node:
  assumes "distinct (map nodeName (wlNodes wl))" "n \<in> set (wlNodes wl)"
  shows "nodeName n \<in> wl_names wl \<longleftrightarrow> wl_matches wl n"
proof
  assume "nodeName n \<in> wl_names wl"
  then obtain n' where n': "n' \<in> set (wlNodes wl)" "nodeName n' = nodeName n" "wl_matches wl n'"
    by (auto simp: wl_names_def matching_names_def wl_matches_def)
  with assms have "n' = n" by (auto simp: distinct_map dest: inj_onD)
  with n' show "wl_matches wl n" by simp
next
  assume "wl_matches wl n"
  with assms(2) show "nodeName n \<in> wl_names wl"
    by (auto simp: wl_names_def matching_names_def wl_matches_def)
qed

lemma enforced_binds:
  assumes s: "wl_ok wl" and e: "enforced wl S"
    and p: "pending S r = Some n" "mem (machine_of S) r = Some pod"
  shows "enforced wl (S\<lparr>machine_of := (machine_of S)\<lparr>mem :=
      (mem (machine_of S))(r \<mapsto> pod\<lparr>podNodeName := nodeName n\<rparr>)\<rparr>,
    pending := (pending S)(r := None)\<rparr>)" (is "enforced wl ?S")
proof -
  let ?\<sigma>' = "machine_of ?S"
  have rin: "r \<in> set (wlPods wl)" using e p(1) by (auto simp: enforced_def)
  with e have "pod_ok wl S r" by (simp add: enforced_def)
  with p have ok: "workload_pod wl pod" "n \<in> set (wlNodes wl)"
    "preference (machine_of S) r = Some (wl_matches wl n)"
    by (auto simp: pod_ok_def)
  have pref: "preference ?\<sigma>' q = preference (machine_of S) q" for q
    using p(2) by (simp add: preference_def pod_annotation_def)
  have "pod_ok wl ?S q" if "q \<in> set (wlPods wl)" for q
  proof (cases "q = r")
    case True
    moreover have "nodeName n \<in> wl_names wl \<longleftrightarrow> wl_matches wl n"
      using s ok(2) by (intro wl_names_node) (simp_all add: wl_ok_def)
    ultimately show ?thesis using ok pref [of r] by (simp add: pod_ok_def)
  next
    case False
    have "pod_ok wl S q" using e that by (simp add: enforced_def)
    with False show ?thesis by (subst pod_ok_cong [of _ _ S]) simp_all
  qed
  moreover have "meant wl ?\<sigma>' = meant wl (machine_of S)" "averse wl ?\<sigma>' = averse wl (machine_of S)"
    by (simp_all only: meant_def averse_def pref)
  moreover have "podUID (the (mem ?\<sigma>' q)) = podUID (the (mem (machine_of S) q))" for q
    using p(2) by simp
  ultimately show ?thesis using e pref by (auto simp: enforced_def)
qed

lemma refreshesE:
  assumes "refreshes wl S r pod'"
  obtains pod where "r \<in> set (wlPods wl)" "mem (machine_of S) r = Some pod" "workload_pod wl pod'"
    "podUID pod' = podUID pod" "podNodeName pod' = podNodeName pod"
    "preference (machine_of (refreshed S r pod')) r = preference (machine_of S) r \<or>
     podNodeName pod = '''' \<and> pending S r = None \<and> preference (machine_of (refreshed S r pod')) r = None"
  using assms by (cases "mem (machine_of S) r") (auto simp: refreshes_def preference_def)

lemma refreshed_others: "q \<noteq> r \<Longrightarrow> preference (machine_of (refreshed S r pod')) q = preference (machine_of S) q"
  by (simp add: preference_def)

text \<open>A refresh makes no pod want anything it did not want.\<close>

lemma refresh_wants_less:
  assumes "refreshes wl S r pod'" "preference (machine_of (refreshed S r pod')) q = Some b"
  shows "preference (machine_of S) q = Some b"
proof (cases "q = r")
  case True
  from assms(1) show ?thesis by (rule refreshesE) (use True assms(2) in auto)
next
  case False
  then show ?thesis using assms(2) refreshed_others [of q r S pod'] by simp
qed

text \<open>A refused update is forgotten with the struct that carried it.\<close>

lemma refusal_forgotten:
  assumes "schedulable wl S r" "mem (machine_of S) r = Some (annotated pp b pod)" "workload_pod wl pod"
    and "pod_annotation pod PlacementPolicyPreferenceAnnotationKey = ''''"
  shows "moves wl S (refreshed S r pod)" "preference (machine_of (refreshed S r pod)) r = None"
proof -
  have "refreshes wl S r pod" using assms by (simp add: refreshes_def schedulable_def)
  then show "moves wl S (refreshed S r pod)" by (rule Refreshes)
  show "preference (machine_of (refreshed S r pod)) r = None" using assms(4) by (simp add: preference_def)
qed

lemma enforced_refreshes:
  assumes e: "enforced wl S" and r: "refreshes wl S r pod'"
  shows "enforced wl (refreshed S r pod')"
proof -
  let ?S = "refreshed S r pod'"
  obtain pod where pod: "r \<in> set (wlPods wl)" "mem (machine_of S) r = Some pod" "workload_pod wl pod'"
    "podUID pod' = podUID pod" "podNodeName pod' = podNodeName pod"
    and p: "preference (machine_of ?S) r = preference (machine_of S) r \<or>
      podNodeName pod = '''' \<and> pending S r = None \<and> preference (machine_of ?S) r = None"
    using r by (rule refreshesE)
  have "pod_ok wl ?S q" if "q \<in> set (wlPods wl)" for q
  proof (cases "q = r")
    case True
    have "pod_ok wl S r" using e pod(1) by (simp add: enforced_def)
    with True pod p show ?thesis unfolding pod_ok_def by auto
  next
    case False
    have "pod_ok wl S q" using e that by (simp add: enforced_def)
    with False show ?thesis by (subst pod_ok_cong [of _ _ S]) simp_all
  qed
  moreover have "length (meant wl (machine_of ?S)) \<le> length (meant wl (machine_of S))"
    "length (averse wl (machine_of ?S)) \<le> length (averse wl (machine_of S))"
    unfolding meant_def averse_def by (rule length_filter_mono, erule refresh_wants_less [OF r])+
  moreover have "podUID (the (mem (machine_of ?S) q)) = podUID (the (mem (machine_of S) q))" for q
    using pod(2,4) by simp
  moreover have "pending ?S = pending S" by simp
  ultimately show ?thesis using e unfolding enforced_def by auto
qed

lemma enforced_moves:
  assumes "moves wl S S'" "wl_ok wl" "enforced wl S"
  shows "enforced wl S'"
  using assms
proof (induction rule: moves.induct)
  case (Decides S r pod \<sigma>' b choice)
  show ?case by (rule enforced_decides [OF Decides(6,7,1,2,3,4,5)])
next
  case (Unbinds S r n)
  then show ?case by (simp add: enforced_def pod_ok_unpend)
next
  case (Binds S r n pod)
  then show ?case by (blast intro: enforced_binds)
next
  case (Refreshes S r pod')
  then show ?case by (blast intro: enforced_refreshes)
next
  case (Elsewhere \<sigma>' S)
  have pref: "preference \<sigma>' = preference (machine_of S)"
    using Elsewhere(1) by (simp add: preference_def fun_eq_iff)
  have "pod_ok wl (S\<lparr>machine_of := \<sigma>'\<rparr>) q = pod_ok wl S q" for q
    by (rule pod_ok_cong) (simp_all add: Elsewhere(1))
  with Elsewhere show ?case by (simp add: enforced_def meant_def averse_def pref)
qed

subsection \<open>Nodes and annotations\<close>

lemma all_meant_or_filled:
  assumes "enforced wl S" "\<forall>r \<in> set (wlPods wl). preference (machine_of S) r \<noteq> None"
  shows "int (length (meant wl (machine_of S))) = wl_quota wl"
proof -
  let ?\<sigma> = "machine_of S"
  have "filter (\<lambda>r. preference ?\<sigma> r \<noteq> Some True) (wlPods wl) = averse wl ?\<sigma>"
    unfolding averse_def by (rule filter_cong [OF refl]) (use assms(2) in auto)
  then have "length (meant wl ?\<sigma>) + length (averse wl ?\<sigma>) = length (wlPods wl)"
    using sum_length_filter_compl [of "\<lambda>r. preference ?\<sigma> r = Some True" "wlPods wl"] by (simp add: meant_def)
  moreover have "int (length (meant wl ?\<sigma>)) \<le> max 0 (wl_target wl)"
    "int (length (averse wl ?\<sigma>)) \<le> int (length (wlPods wl)) - wl_quota wl"
    using assms(1) by (simp_all add: enforced_def)
  ultimately show ?thesis unfolding wl_quota_def by linarith
qed

text \<open>A pod's node, read from memory.\<close>

definition node_of :: "'w system \<Rightarrow> pod_ref \<Rightarrow> string" where
  "node_of S r = (case mem (machine_of S) r of None \<Rightarrow> '''' | Some pod \<Rightarrow> podNodeName pod)"

lemma node_preference:
  assumes "enforced wl S" "r \<in> set (wlPods wl)" "node_of S r \<noteq> ''''"
  shows "preference (machine_of S) r = Some (node_of S r \<in> wl_names wl)"
proof -
  have "pod_ok wl S r" using assms(1,2) by (simp add: enforced_def)
  with assms(3) show ?thesis
    by (cases "mem (machine_of S) r") (simp_all add: pod_ok_def node_of_def)
qed

lemma wl_names_nonempty:
  assumes "wl_ok wl"
  shows "'''' \<notin> wl_names wl"
  using assms by (auto simp: wl_ok_def wl_names_def matching_names_def)

lemma placed_on_meant:
  assumes "wl_ok wl" "enforced wl S"
  shows "length (filter (\<lambda>r. node_of S r \<in> wl_names wl) (wlPods wl)) \<le> length (meant wl (machine_of S))"
proof -
  have "preference (machine_of S) r = Some True" if "r \<in> set (wlPods wl)" "node_of S r \<in> wl_names wl" for r
  proof -
    have "node_of S r \<noteq> ''''" using that(2) wl_names_nonempty [OF assms(1)] by auto
    with node_preference [OF assms(2) that(1)] that(2) show ?thesis by simp
  qed
  then show ?thesis unfolding meant_def by (intro length_filter_mono) blast
qed

text \<open>The pods placed elsewhere are at most those that the target leaves over.\<close>

lemma placed_off_bound:
  assumes e: "enforced wl S"
  shows "int (length (filter (\<lambda>r. node_of S r \<noteq> '''' \<and> node_of S r \<notin> wl_names wl) (wlPods wl))) \<le>
    int (length (wlPods wl)) - wl_quota wl"
proof -
  have "length (filter (\<lambda>r. node_of S r \<noteq> '''' \<and> node_of S r \<notin> wl_names wl) (wlPods wl)) \<le>
      length (averse wl (machine_of S))"
    unfolding averse_def by (rule length_filter_mono) (use node_preference [OF e] in auto)
  with e show ?thesis by (simp add: enforced_def)
qed

lemma placed_when_done:
  assumes s: "wl_ok wl" and e: "enforced wl S"
    and done_: "\<forall>r \<in> set (wlPods wl). node_of S r \<noteq> ''''"
  shows "filter (\<lambda>r. node_of S r \<in> wl_names wl) (wlPods wl) = meant wl (machine_of S)"
    "\<forall>r \<in> set (wlPods wl). preference (machine_of S) r \<noteq> None"
proof -
  have p: "preference (machine_of S) r = Some (node_of S r \<in> wl_names wl)" if "r \<in> set (wlPods wl)" for r
    using done_ that by (intro node_preference [OF e]) simp_all
  then show "\<forall>r \<in> set (wlPods wl). preference (machine_of S) r \<noteq> None" by simp
  show "filter (\<lambda>r. node_of S r \<in> wl_names wl) (wlPods wl) = meant wl (machine_of S)"
    unfolding meant_def by (rule filter_cong [OF refl]) (simp add: p)
qed

end
