(* ===== verification/Quota_Refinement.thy ===== *)
theory Quota_Refinement
  imports Placement_System
begin

section \<open>The quota a policy promises\<close>

text \<open>
  The abstract specification of enforcement: a machine that knows of each pod only whether
  it wants the policy's nodes and on which side it settled. A pod decides by counting the
  others that want the nodes, may forget that before it settles, and settles where it wants to
  be. What may happen to the pods of
  a workload (\<open>moves\<close>) refines it: \<open>quota_of\<close> maps systems to the machine's states, and every
  move is matched by a step of the machine or by none. The locale \<open>placement_system\<close> has
  what follows for a scheduler whose steps are moves.
\<close>

subsection \<open>The machine\<close>

record quota =
  wants :: "pod_ref \<Rightarrow> bool option"
  side :: "pod_ref \<Rightarrow> bool option"

definition quota_start :: quota where
  "quota_start = \<lparr>wants = (\<lambda>_. None), side = (\<lambda>_. None)\<rparr>"

inductive quota_step :: "int \<Rightarrow> pod_ref list \<Rightarrow> quota \<Rightarrow> quota \<Rightarrow> bool" for T pods where
  Decide: "r \<in> set pods \<Longrightarrow> side a r = None \<Longrightarrow>
    b = (int (length (filter (\<lambda>q. q \<noteq> r \<and> wants a q = Some True) pods)) < T) \<Longrightarrow>
    quota_step T pods a (a\<lparr>wants := (wants a)(r \<mapsto> b)\<rparr>)"
| Settle: "r \<in> set pods \<Longrightarrow> side a r = None \<Longrightarrow> wants a r = Some b \<Longrightarrow>
    quota_step T pods a (a\<lparr>side := (side a)(r \<mapsto> b)\<rparr>)"
| Forget: "r \<in> set pods \<Longrightarrow> side a r = None \<Longrightarrow> quota_step T pods a (a\<lparr>wants := (wants a)(r := None)\<rparr>)"

definition quota_of :: "workload \<Rightarrow> 'w system \<Rightarrow> quota" where
  "quota_of wl S =
     \<lparr>wants = (\<lambda>r. if r \<in> set (wlPods wl) then preference (machine_of S) r else None),
      side = (\<lambda>r. if r \<in> set (wlPods wl) \<and> node_of S r \<noteq> ''''
        then Some (node_of S r \<in> wl_names wl) else None)\<rparr>"

subsection \<open>Pods with a binding under way have no node yet\<close>

definition pending_unplaced :: "'w system \<Rightarrow> bool" where
  "pending_unplaced S \<longleftrightarrow> (\<forall>r. pending S r \<noteq> None \<longrightarrow> node_of S r = '''')"

lemma schedulable_unplaced: "schedulable wl S r \<Longrightarrow> node_of S r = ''''"
  by (simp add: schedulable_def node_of_def split: option.splits)

text \<open>A cycle gives no pod a node: that is left to the binding.\<close>

lemma decides_nodes:
  assumes "mem (machine_of S) r = Some pod" "mem \<sigma>' = (mem (machine_of S))(r \<mapsto> annotated pp b pod)"
  shows "node_of (S\<lparr>machine_of := \<sigma>', pending := f\<rparr>) = node_of S"
  by (rule ext) (simp add: node_of_def assms)

lemma refresh_nodes: "refreshes wl S r pod' \<Longrightarrow> node_of (refreshed S r pod') = node_of S"
  by (rule ext) (auto simp: node_of_def elim!: refreshesE)

lemma pending_unplaced_moves:
  assumes "moves wl S S'" "pending_unplaced S"
  shows "pending_unplaced S'"
  using assms
proof (induction rule: moves.induct)
  case (Decides S r pod \<sigma>' b choice)
  then show ?case
    using schedulable_unplaced [OF Decides(1)] by (simp add: pending_unplaced_def decides_nodes [OF Decides(2,3)])
next
  case (Refreshes S r pod')
  then show ?case by (simp add: pending_unplaced_def refresh_nodes)
qed (simp_all add: pending_unplaced_def node_of_def)

subsection \<open>Every move is matched\<close>

lemma quota_of_cong:
  assumes "mem (machine_of S') = mem (machine_of S)"
  shows "quota_of wl S' = quota_of wl S"
proof -
  have "node_of S' = node_of S" "preference (machine_of S') = preference (machine_of S)"
    using assms by (simp_all add: fun_eq_iff node_of_def preference_def)
  then show ?thesis by (simp add: quota_of_def cong: if_cong)
qed

lemma decides_matched:
  assumes sch: "schedulable wl S r" and r: "mem (machine_of S) r = Some pod"
    and m: "mem \<sigma>' = (mem (machine_of S))(r \<mapsto> annotated (wlPolicy wl) b pod)"
    and b: "b \<longleftrightarrow> int (length (filter (\<lambda>q. q \<noteq> r \<and> preference (machine_of S) q = Some True) (wlPods wl))) < wl_target wl"
  shows "quota_step (wl_target wl) (wlPods wl) (quota_of wl S) (quota_of wl (S\<lparr>machine_of := \<sigma>', pending := f\<rparr>))"
    (is "quota_step _ _ _ (quota_of wl ?S')")
proof -
  have rin: "r \<in> set (wlPods wl)" using sch by (simp add: schedulable_def)
  have "wants (quota_of wl ?S') = (wants (quota_of wl S))(r \<mapsto> b)"
    using rin preference_upd [OF m] by (auto simp: quota_of_def)
  moreover have "side (quota_of wl ?S') = side (quota_of wl S)"
    by (simp add: quota_of_def decides_nodes [OF r m] cong: if_cong)
  ultimately have q: "quota_of wl ?S' = (quota_of wl S)\<lparr>wants := (wants (quota_of wl S))(r \<mapsto> b)\<rparr>"
    by (simp add: quota.equality)
  show ?thesis unfolding q
  proof (rule Decide [OF rin])
    show "side (quota_of wl S) r = None"
      using schedulable_unplaced [OF sch] by (simp add: quota_of_def)
    have "filter (\<lambda>q. q \<noteq> r \<and> wants (quota_of wl S) q = Some True) (wlPods wl) =
        filter (\<lambda>q. q \<noteq> r \<and> preference (machine_of S) q = Some True) (wlPods wl)"
      by (rule filter_cong [OF refl]) (simp add: quota_of_def)
    with b show "b = (int (length (filter (\<lambda>q. q \<noteq> r \<and> wants (quota_of wl S) q = Some True) (wlPods wl))) < wl_target wl)"
      by simp
  qed
qed

lemma bind_settles:
  assumes s: "wl_ok wl" and e: "enforced wl S" and u: "pending_unplaced S"
    and p: "pending S r = Some n" "mem (machine_of S) r = Some pod"
  shows "quota_step (wl_target wl) (wlPods wl) (quota_of wl S)
    (quota_of wl (S\<lparr>machine_of := (machine_of S)\<lparr>mem :=
        (mem (machine_of S))(r \<mapsto> pod\<lparr>podNodeName := nodeName n\<rparr>)\<rparr>, pending := (pending S)(r := None)\<rparr>))"
    (is "quota_step _ _ _ (quota_of wl ?S')")
proof -
  have r: "r \<in> set (wlPods wl)" using e p(1) by (auto simp: enforced_def)
  with e have "pod_ok wl S r" by (simp add: enforced_def)
  with p have n: "n \<in> set (wlNodes wl)" "preference (machine_of S) r = Some (wl_matches wl n)"
    by (auto simp: pod_ok_def)
  have name: "nodeName n \<noteq> ''''" using s n(1) by (force simp: wl_ok_def image_iff)
  have on: "nodeName n \<in> wl_names wl \<longleftrightarrow> wl_matches wl n"
    using s n(1) by (intro wl_names_node) (simp_all add: wl_ok_def)
  have "wants (quota_of wl ?S') = wants (quota_of wl S)"
    using p(2) by (simp add: quota_of_def preference_def pod_annotation_def fun_eq_iff)
  moreover have "side (quota_of wl ?S') = (side (quota_of wl S))(r \<mapsto> wl_matches wl n)"
    using r name on by (auto simp: quota_of_def node_of_def fun_eq_iff)
  ultimately have q: "quota_of wl ?S' = (quota_of wl S)\<lparr>side := (side (quota_of wl S))(r \<mapsto> wl_matches wl n)\<rparr>"
    by (simp add: quota.equality)
  have "node_of S r = ''''" using u p(1) by (simp add: pending_unplaced_def)
  with r n(2) show ?thesis unfolding q by (intro Settle) (simp_all add: quota_of_def)
qed

lemma refresh_matched:
  assumes r: "refreshes wl S r pod'"
  shows "(quota_step (wl_target wl) (wlPods wl))\<^sup>=\<^sup>= (quota_of wl S) (quota_of wl (refreshed S r pod'))"
proof -
  let ?S = "refreshed S r pod'"
  obtain pod where pod: "r \<in> set (wlPods wl)" "mem (machine_of S) r = Some pod"
    and p: "preference (machine_of ?S) r = preference (machine_of S) r \<or>
      podNodeName pod = '''' \<and> pending S r = None \<and> preference (machine_of ?S) r = None"
    using r by (rule refreshesE)
  have side: "side (quota_of wl ?S) = side (quota_of wl S)"
    by (simp add: quota_of_def refresh_nodes [OF r] cong: if_cong)
  have wants: "wants (quota_of wl ?S) q = wants (quota_of wl S) q" if "q \<noteq> r" for q
    using refreshed_others [OF that, of S pod'] by (simp add: quota_of_def)
  from p show ?thesis
  proof
    assume "preference (machine_of ?S) r = preference (machine_of S) r"
    then have "wants (quota_of wl ?S) q = wants (quota_of wl S) q" for q
      using wants by (cases "q = r") (simp_all add: quota_of_def)
    then have "quota_of wl ?S = quota_of wl S" using side by (intro quota.equality) (simp_all add: fun_eq_iff)
    then show ?thesis by simp
  next
    assume n: "podNodeName pod = '''' \<and> pending S r = None \<and> preference (machine_of ?S) r = None"
    then have "wants (quota_of wl ?S) = (wants (quota_of wl S))(r := None)"
      using wants pod(1) by (intro ext) (simp add: quota_of_def)
    then have q: "quota_of wl ?S = (quota_of wl S)\<lparr>wants := (wants (quota_of wl S))(r := None)\<rparr>"
      using side by (simp add: quota.equality)
    have "quota_step (wl_target wl) (wlPods wl) (quota_of wl S) (quota_of wl ?S)"
      unfolding q using pod n by (intro Forget) (simp_all add: quota_of_def node_of_def)
    then show ?thesis by (rule sup2I1)
  qed
qed

lemma moves_matched:
  assumes "moves wl S S'" "wl_ok wl" "enforced wl S" "pending_unplaced S"
  shows "(quota_step (wl_target wl) (wlPods wl))\<^sup>=\<^sup>= (quota_of wl S) (quota_of wl S')"
  using assms
proof (induction rule: moves.induct)
  case (Decides S r pod \<sigma>' b choice)
  from decides_matched [OF Decides(1-4)] show ?case by (rule sup2I1)
next
  case (Unbinds S r n)
  have "quota_of wl (S\<lparr>pending := (pending S)(r := None)\<rparr>) = quota_of wl S" by (rule quota_of_cong) simp
  then show ?case by simp
next
  case (Binds S r n pod)
  from bind_settles [OF Binds(3,4,5,1,2)] show ?case by (rule sup2I1)
next
  case (Refreshes S r pod')
  from refresh_matched [OF Refreshes(1)] show ?case .
next
  case (Elsewhere \<sigma>' S)
  have "quota_of wl (S\<lparr>machine_of := \<sigma>'\<rparr>) = quota_of wl S" by (rule quota_of_cong) (simp add: Elsewhere(1))
  then show ?case by simp
qed

lemma quota_of_fresh:
  assumes "fresh_workload wl \<sigma>"
  shows "quota_of wl \<lparr>machine_of = \<sigma>, pending = p\<rparr> = quota_start"
proof -
  have "preference \<sigma> r = None \<and> node_of \<lparr>machine_of = \<sigma>, pending = p\<rparr> r = ''''" if "r \<in> set (wlPods wl)" for r
    using assms that by (rule fresh_pod) (simp add: node_of_def)
  then show ?thesis by (simp add: quota_of_def quota_start_def fun_eq_iff)
qed

subsection \<open>Nodes settle\<close>

definition unplaced :: "workload \<Rightarrow> 'w system \<Rightarrow> nat" where
  "unplaced wl S = length (filter (\<lambda>r. node_of S r = '''') (wlPods wl))"

text \<open>A move changes no node, or gives one to a single pod that had none.\<close>

lemma moves_nodes:
  assumes "moves wl S S'" "wl_ok wl" "enforced wl S" "pending_unplaced S"
  shows "node_of S' = node_of S \<or>
    (\<exists>r \<in> set (wlPods wl). node_of S r = '''' \<and> node_of S' r \<noteq> '''' \<and> (\<forall>q. q \<noteq> r \<longrightarrow> node_of S' q = node_of S q))"
  using assms
proof (induction rule: moves.induct)
  case (Decides S r pod \<sigma>' b choice)
  show ?case by (rule disjI1, rule decides_nodes [OF Decides(2,3)])
next
  case (Unbinds S r n)
  show ?case by (rule disjI1) (simp add: node_of_def fun_eq_iff)
next
  case (Binds S r n pod)
  have r: "r \<in> set (wlPods wl)" using Binds(1,4) by (auto simp: enforced_def)
  with Binds(4) have "pod_ok wl S r" by (simp add: enforced_def)
  with Binds(1,2) have "n \<in> set (wlNodes wl)" by (auto simp: pod_ok_def)
  with Binds(3) have "nodeName n \<noteq> ''''" by (force simp: wl_ok_def image_iff)
  moreover have "node_of S r = ''''" using Binds(1,5) by (simp add: pending_unplaced_def)
  ultimately show ?case using r by (intro disjI2 bexI [of _ r]) (simp_all add: node_of_def)
next
  case (Refreshes S r pod')
  show ?case by (rule disjI1, rule refresh_nodes [OF Refreshes(1)])
next
  case (Elsewhere \<sigma>' S)
  show ?case by (rule disjI1) (simp add: node_of_def fun_eq_iff Elsewhere(1))
qed

lemma unplaced_step:
  assumes "distinct (wlPods wl)"
    and "node_of S' = node_of S \<or>
    (\<exists>r \<in> set (wlPods wl). node_of S r = '''' \<and> node_of S' r \<noteq> '''' \<and> (\<forall>q. q \<noteq> r \<longrightarrow> node_of S' q = node_of S q))"
  shows "node_of S' = node_of S \<or> unplaced wl S' < unplaced wl S"
proof (rule disjCI)
  assume "\<not> unplaced wl S' < unplaced wl S"
  show "node_of S' = node_of S"
  proof (rule ccontr)
    assume "node_of S' \<noteq> node_of S"
    with assms(2) obtain r where r: "r \<in> set (wlPods wl)" "node_of S r = ''''" "node_of S' r \<noteq> ''''"
      "\<forall>q. q \<noteq> r \<longrightarrow> node_of S' q = node_of S q" by blast
    have "unplaced wl S = length (filter (\<lambda>q. q \<noteq> r \<and> node_of S q = '''') (wlPods wl)) + 1"
      using length_filter_split [OF assms(1) r(1), of "\<lambda>q. node_of S q = ''''"] r(2) by (simp add: unplaced_def)
    moreover have "filter (\<lambda>q. q \<noteq> r \<and> node_of S q = '''') (wlPods wl) =
        filter (\<lambda>q. node_of S' q = '''') (wlPods wl)"
      by (rule filter_cong [OF refl]) (use r(3,4) in auto)
    ultimately have "unplaced wl S' < unplaced wl S" by (simp add: unplaced_def)
    with \<open>\<not> unplaced wl S' < unplaced wl S\<close> show False ..
  qed
qed

text \<open>The promise of a policy, read off the nodes.\<close>

lemma keeps_quota:
  assumes "enforced wl S" "wl_ok wl"
  shows "int (length (filter (\<lambda>r. node_of S r \<in> wl_names wl) (wlPods wl))) \<le> max 0 (wl_target wl) \<and>
    int (length (filter (\<lambda>r. node_of S r \<noteq> '''' \<and> node_of S r \<notin> wl_names wl) (wlPods wl))) \<le>
      int (length (wlPods wl)) - wl_quota wl \<and>
    ((\<forall>r \<in> set (wlPods wl). node_of S r \<noteq> '''') \<longrightarrow>
      int (length (filter (\<lambda>r. node_of S r \<in> wl_names wl) (wlPods wl))) = wl_quota wl)"
proof -
  have "int (length (meant wl (machine_of S))) \<le> max 0 (wl_target wl)" using assms(1) by (simp add: enforced_def)
  with placed_on_meant [OF assms(2,1)] placed_off_bound [OF assms(1)] all_meant_or_filled [OF assms(1)]
    placed_when_done [OF assms(2,1)]
  show ?thesis by auto
qed

subsection \<open>Schedulers whose steps are moves\<close>

text \<open>
  A scheduler around hooks is a step relation. It places pods as the policy promises if each
  of its steps out of an enforced system is a move; the promise, the refinement and the end
  of placements are proved once here, for the scheduler that filters and for the one that
  scores.
\<close>

locale placement_system =
  fixes wl :: workload and step :: "'w system \<Rightarrow> 'w system \<Rightarrow> bool"
  assumes step_moves: "step S S' \<Longrightarrow> enforced wl S \<Longrightarrow> moves wl S S'"
    and step_ok: "step S S' \<Longrightarrow> wl_ok wl"
begin

lemma step_enforced: "step S S' \<Longrightarrow> enforced wl S \<Longrightarrow> enforced wl S'"
  using step_moves step_ok enforced_moves by blast

lemma step_unplaced: "step S S' \<Longrightarrow> enforced wl S \<Longrightarrow> pending_unplaced S \<Longrightarrow> pending_unplaced S'"
  using step_moves pending_unplaced_moves by blast

lemma run_enforced:
  "step\<^sup>*\<^sup>* S S' \<Longrightarrow> enforced wl S \<Longrightarrow> pending_unplaced S \<Longrightarrow> enforced wl S' \<and> pending_unplaced S'"
  by (induction rule: rtranclp_induct) (blast intro: step_enforced step_unplaced)+

lemma fresh_run:
  assumes "fresh_workload wl \<sigma>" "step\<^sup>*\<^sup>* \<lparr>machine_of = \<sigma>, pending = (\<lambda>_. None)\<rparr> S"
  shows "enforced wl S \<and> pending_unplaced S"
  using assms(2) enforced_start [OF assms(1)] by (rule run_enforced) (simp add: pending_unplaced_def)

lemma step_matched:
  "step S S' \<Longrightarrow> enforced wl S \<Longrightarrow> pending_unplaced S \<Longrightarrow>
   (quota_step (wl_target wl) (wlPods wl))\<^sup>=\<^sup>= (quota_of wl S) (quota_of wl S')"
  using step_moves step_ok moves_matched by blast

lemma run_matched:
  "step\<^sup>*\<^sup>* S S' \<Longrightarrow> enforced wl S \<Longrightarrow> pending_unplaced S \<Longrightarrow>
   (quota_step (wl_target wl) (wlPods wl))\<^sup>*\<^sup>* (quota_of wl S) (quota_of wl S')"
proof (induction rule: rtranclp_induct)
  case (step S1 S2)
  have "enforced wl S1 \<and> pending_unplaced S1" by (rule run_enforced [OF step.hyps(1) step.prems])
  with step_matched [OF step.hyps(2)] step.IH step.prems show ?case
    by (auto intro: rtranclp.rtrancl_into_rtrancl)
qed simp

text \<open>In an infinite run the nodes stop changing: \<open>unplaced\<close> is a measure of what can change.\<close>

lemma run_settles:
  assumes start: "enforced wl (f 0)" "pending_unplaced (f 0)" and run: "\<forall>i. step (f i) (f (Suc i))"
  shows "\<exists>N. \<forall>i \<ge> N. node_of (f i) = node_of (f N)"
proof -
  have inv: "enforced wl (f i) \<and> pending_unplaced (f i)" for i
    by (induction i) (use start run step_enforced step_unplaced in blast)+
  have one: "node_of (f (Suc i)) = node_of (f i) \<or> unplaced wl (f (Suc i)) < unplaced wl (f i)" for i
  proof (rule unplaced_step)
    show "distinct (wlPods wl)" using run step_ok by (auto simp: wl_ok_def)
    show "node_of (f (Suc i)) = node_of (f i) \<or>
      (\<exists>r \<in> set (wlPods wl). node_of (f i) r = '''' \<and> node_of (f (Suc i)) r \<noteq> '''' \<and>
        (\<forall>q. q \<noteq> r \<longrightarrow> node_of (f (Suc i)) q = node_of (f i) q))"
      using run inv step_moves step_ok by (intro moves_nodes) blast+
  qed
  have "\<exists>N. True \<and> (\<forall>i. True \<longrightarrow> unplaced wl (f N) \<le> unplaced wl (f i))"
    by (rule ex_has_least_nat) simp
  then obtain N where least: "\<forall>i. unplaced wl (f N) \<le> unplaced wl (f i)" by blast
  have "node_of (f i) = node_of (f N)" if "i \<ge> N" for i
    using that
  proof (induction rule: dec_induct)
    case (step i)
    then have "unplaced wl (f i) = unplaced wl (f N)" by (simp add: unplaced_def)
    with least have "\<not> unplaced wl (f (Suc i)) < unplaced wl (f i)" by (simp add: not_less)
    with one [of i] step.IH show ?case by simp
  qed simp
  then show ?thesis by blast
qed

text \<open>A pod that has a node keeps it.\<close>

lemma run_keeps_nodes:
  assumes start: "enforced wl (f 0)" "pending_unplaced (f 0)" and run: "\<forall>i. step (f i) (f (Suc i))"
    and placed: "node_of (f i) r \<noteq> ''''" and later: "i \<le> j"
  shows "node_of (f j) r \<noteq> ''''"
  using later
proof (induction rule: dec_induct)
  case (step j)
  have "enforced wl (f k) \<and> pending_unplaced (f k)" for k
    by (induction k) (use start run step_enforced step_unplaced in blast)+
  with run step_moves step_ok have "node_of (f (Suc j)) = node_of (f j) \<or>
      (\<exists>r \<in> set (wlPods wl). node_of (f j) r = '''' \<and> node_of (f (Suc j)) r \<noteq> '''' \<and>
        (\<forall>q. q \<noteq> r \<longrightarrow> node_of (f (Suc j)) q = node_of (f j) q))"
    by (intro moves_nodes) blast+
  with step.IH show ?case by metis
qed (rule placed)

end

subsection \<open>Schedulers that finish\<close>

text \<open>
  If a pod that may be scheduled can always be assigned and a pending pod can be bound, no
  pod is left without a node for want of a step: each can be placed without disturbing the
  others. \<open>willing\<close> is what the scheduler needs of its surroundings for that.
\<close>

definition bound_in :: "pod_ref \<Rightarrow> 'w system \<Rightarrow> Node \<Rightarrow> Pod \<Rightarrow> 'w system" where
  "bound_in r S n pod =
     S\<lparr>machine_of := (machine_of S)\<lparr>mem := (mem (machine_of S))(r \<mapsto> pod\<lparr>podNodeName := nodeName n\<rparr>)\<rparr>,
       pending := (pending S)(r := None)\<rparr>"

text \<open>
  A fair run: a pod that could be assigned to a node again and again is assigned again and
  again, and a pod that is assigned again and again is bound at some time. Whether a pod can
  be assigned is up to the hooks.
\<close>

definition assignable :: "('w system \<Rightarrow> 'w system \<Rightarrow> bool) \<Rightarrow> workload \<Rightarrow> 'w system \<Rightarrow> pod_ref \<Rightarrow> bool" where
  "assignable step wl S r \<longleftrightarrow> schedulable wl S r \<and> (\<exists>S'. step S S' \<and> pending S' r \<noteq> None)"

definition fair :: "('w system \<Rightarrow> 'w system \<Rightarrow> bool) \<Rightarrow> workload \<Rightarrow> (nat \<Rightarrow> 'w system) \<Rightarrow> bool" where
  "fair step wl f \<longleftrightarrow> (\<forall>r.
     ((\<forall>i. \<exists>j \<ge> i. assignable step wl (f j) r) \<longrightarrow> (\<forall>i. \<exists>j \<ge> i. pending (f j) r \<noteq> None)) \<and>
     ((\<forall>i. \<exists>j \<ge> i. pending (f j) r \<noteq> None) \<longrightarrow> (\<exists>j. node_of (f j) r \<noteq> '''')))"

lemma fair_assigned:
  assumes "fair step wl f" "\<forall>i. \<exists>j \<ge> i. assignable step wl (f j) r"
  shows "\<forall>i. \<exists>j \<ge> i. pending (f j) r \<noteq> None"
  by (rule assms(1) [unfolded fair_def, THEN spec, THEN conjunct1, THEN mp, OF assms(2)])

lemma fair_bound:
  assumes "fair step wl f" "\<forall>i. \<exists>j \<ge> i. pending (f j) r \<noteq> None"
  shows "\<exists>j. node_of (f j) r \<noteq> ''''"
  by (rule assms(1) [unfolded fair_def, THEN spec, THEN conjunct2, THEN mp, OF assms(2)])

lemma bound_in_node: "node_of (bound_in r S n pod) q = (if q = r then nodeName n else node_of S q)"
  by (simp add: bound_in_def node_of_def)

locale completing_system = placement_system wl step
  for wl :: workload and step :: "'w system \<Rightarrow> 'w system \<Rightarrow> bool" +
  fixes willing :: bool
  assumes can_assign: "willing \<Longrightarrow> enforced wl S \<Longrightarrow> schedulable wl S r \<Longrightarrow>
      \<exists>S'. step S S' \<and> pending S' r \<noteq> None \<and> node_of S' = node_of S"
    and can_bind: "willing \<Longrightarrow> pending S r = Some n \<Longrightarrow> mem (machine_of S) r = Some pod \<Longrightarrow>
      step S (bound_in r S n pod)"
begin

lemma bind_pending:
  assumes "willing" "enforced wl S" "r \<in> set (wlPods wl)" "pending S r \<noteq> None"
  shows "\<exists>S'. step S S' \<and> node_of S' r \<noteq> '''' \<and> (\<forall>q. q \<noteq> r \<longrightarrow> node_of S' q = node_of S q)"
proof -
  from assms(4) obtain n where n: "pending S r = Some n" by blast
  obtain pod where pod: "mem (machine_of S) r = Some pod" by (rule enforced_mem [OF assms(2,3)])
  have one: "step S (bound_in r S n pod)" by (rule can_bind [OF assms(1) n pod])
  have "pod_ok wl S r" using assms(2,3) by (simp add: enforced_def)
  with n pod have "n \<in> set (wlNodes wl)" by (simp add: pod_ok_def)
  with step_ok [OF one] have "nodeName n \<noteq> ''''" by (force simp: wl_ok_def image_iff)
  with one show ?thesis by (intro exI [of _ "bound_in r S n pod"]) (simp add: bound_in_node)
qed

lemma place_one:
  assumes "willing" "enforced wl S" "r \<in> set (wlPods wl)" "node_of S r = ''''"
  shows "\<exists>S'. step\<^sup>*\<^sup>* S S' \<and> node_of S' r \<noteq> '''' \<and> (\<forall>q. q \<noteq> r \<longrightarrow> node_of S' q = node_of S q)"
proof (cases "pending S r")
  case (Some n)
  then show ?thesis using bind_pending [OF assms(1-3)] by blast
next
  case None
  obtain pod where "mem (machine_of S) r = Some pod" by (rule enforced_mem [OF assms(2,3)])
  with None assms(3,4) have "schedulable wl S r" by (simp add: schedulable_def node_of_def)
  from can_assign [OF assms(1,2) this] obtain S1 where
    S1: "step S S1" "pending S1 r \<noteq> None" "node_of S1 = node_of S" by blast
  have "enforced wl S1" using S1(1) assms(2) by (rule step_enforced)
  from bind_pending [OF assms(1) this assms(3) S1(2)] obtain S' where
    S': "step S1 S'" "node_of S' r \<noteq> ''''" "\<forall>q. q \<noteq> r \<longrightarrow> node_of S' q = node_of S1 q" by blast
  have "step\<^sup>*\<^sup>* S S'"
    using S1(1) S'(1) by (blast intro: converse_rtranclp_into_rtranclp)
  with S' S1(3) show ?thesis by (intro exI [of _ S']) simp
qed

lemma place_all:
  assumes "willing"
  shows "enforced wl S \<Longrightarrow> pending_unplaced S \<Longrightarrow> card {r \<in> set (wlPods wl). node_of S r = ''''} = k \<Longrightarrow>
    \<exists>S'. step\<^sup>*\<^sup>* S S' \<and> (\<forall>r \<in> set (wlPods wl). node_of S' r \<noteq> '''')"
proof (induction k arbitrary: S)
  case 0
  then have "\<forall>r \<in> set (wlPods wl). node_of S r \<noteq> ''''" by auto
  then show ?case by blast
next
  case (Suc k)
  then have "{r \<in> set (wlPods wl). node_of S r = ''''} \<noteq> {}" by (metis card.empty nat.distinct(1))
  then obtain r where r: "r \<in> set (wlPods wl)" "node_of S r = ''''" by blast
  obtain S1 where S1: "step\<^sup>*\<^sup>* S S1" "node_of S1 r \<noteq> ''''" "\<forall>q. q \<noteq> r \<longrightarrow> node_of S1 q = node_of S q"
    using place_one [OF assms Suc.prems(1) r] by blast
  have "{q \<in> set (wlPods wl). node_of S1 q = ''''} = {q \<in> set (wlPods wl). node_of S q = ''''} - {r}"
  proof (rule set_eqI)
    fix q
    show "q \<in> {q \<in> set (wlPods wl). node_of S1 q = ''''} \<longleftrightarrow>
      q \<in> {q \<in> set (wlPods wl). node_of S q = ''''} - {r}"
      by (cases "q = r") (simp_all add: S1)
  qed
  then have "card {q \<in> set (wlPods wl). node_of S1 q = ''''} = k"
    using Suc.prems(3) r by simp
  from Suc.IH [OF _ _ this] run_enforced [OF S1(1) Suc.prems(1,2)] S1(1)
  show ?case by (meson rtranclp_trans)
qed

text \<open>Enforcement never blocks itself: a run places every pod, with the quota met.\<close>

lemma completes:
  assumes "willing" "enforced wl S" "pending_unplaced S" "wl_ok wl"
  shows "\<exists>S'. step\<^sup>*\<^sup>* S S' \<and> (\<forall>r \<in> set (wlPods wl). node_of S' r \<noteq> '''') \<and>
    int (length (filter (\<lambda>r. node_of S' r \<in> wl_names wl) (wlPods wl))) = wl_quota wl"
proof -
  from place_all [OF assms(1-3) refl] obtain S' where
    S': "step\<^sup>*\<^sup>* S S'" "\<forall>r \<in> set (wlPods wl). node_of S' r \<noteq> ''''" by blast
  have "enforced wl S'" using run_enforced [OF S'(1) assms(2,3)] by blast
  from all_meant_or_filled [OF this] placed_when_done [OF assms(4) this S'(2)] S'
  show ?thesis by auto
qed

text \<open>In a fair run every pod gets a node, for otherwise it could be assigned from some moment on.\<close>

lemma unplaced_schedulable:
  assumes "enforced wl S" "r \<in> set (wlPods wl)" "node_of S r = ''''" "pending S r = None"
  shows "schedulable wl S r"
proof -
  obtain pod where "mem (machine_of S) r = Some pod" by (rule enforced_mem [OF assms(1,2)])
  with assms(2-4) show ?thesis by (simp add: schedulable_def node_of_def)
qed

lemma fair_run_places:
  assumes w: "willing" and start: "enforced wl (f 0)" "pending_unplaced (f 0)"
    and run: "\<forall>i. step (f i) (f (Suc i))" and fair: "fair step wl f" and r: "r \<in> set (wlPods wl)"
  shows "\<exists>j. node_of (f j) r \<noteq> ''''"
proof (rule ccontr)
  assume "\<nexists>j. node_of (f j) r \<noteq> ''''"
  then have none: "node_of (f j) r = ''''" for j by blast
  have e: "enforced wl (f i)" for i by (induction i) (use start run step_enforced in blast)+
  have "\<not> (\<forall>i. \<exists>j \<ge> i. pending (f j) r \<noteq> None)" using fair_bound [OF fair, of r] none by blast
  then obtain i where i: "\<forall>j \<ge> i. pending (f j) r = None" by blast
  have a: "assignable step wl (f j) r" if "j \<ge> i" for j
  proof -
    have "schedulable wl (f j) r" using i that by (intro unplaced_schedulable e r none) blast
    with can_assign [OF w e this] show ?thesis by (auto simp: assignable_def)
  qed
  have "\<exists>j \<ge> k. assignable step wl (f j) r" for k
    using a [of "max i k"] by (intro exI [of _ "max i k"]) simp
  then have "\<forall>k. \<exists>j \<ge> k. assignable step wl (f j) r" by blast
  from fair_assigned [OF fair this, THEN spec, of i] obtain j where "j \<ge> i" "pending (f j) r \<noteq> None" by (elim exE conjE)
  with i show False by simp
qed

lemma fair_run_completes:
  assumes w: "willing" and ok: "wl_ok wl" and start: "enforced wl (f 0)" "pending_unplaced (f 0)"
    and run: "\<forall>i. step (f i) (f (Suc i))" and fair: "fair step wl f"
  shows "\<exists>N. \<forall>i \<ge> N. node_of (f i) = node_of (f N) \<and> (\<forall>r \<in> set (wlPods wl). node_of (f i) r \<noteq> '''') \<and>
    int (length (filter (\<lambda>r. node_of (f i) r \<in> wl_names wl) (wlPods wl))) = wl_quota wl"
proof -
  from run_settles [OF start run] obtain N where N: "\<forall>i \<ge> N. node_of (f i) = node_of (f N)" by blast
  have e: "enforced wl (f i)" for i by (induction i) (use start run step_enforced in blast)+
  have placed: "node_of (f i) r \<noteq> ''''" if "i \<ge> N" "r \<in> set (wlPods wl)" for i r
  proof -
    from fair_run_places [OF w start run fair that(2)] obtain j where "node_of (f j) r \<noteq> ''''" by blast
    then have "node_of (f (max j N)) r \<noteq> ''''" by (rule run_keeps_nodes [OF start run]) simp
    moreover have "node_of (f (max j N)) = node_of (f i)" using N that(1) by (metis max.cobounded2)
    ultimately show ?thesis by simp
  qed
  show ?thesis
  proof (rule exI [of _ N], intro allI impI conjI)
    fix i
    assume i: "N \<le> i"
    show "node_of (f i) = node_of (f N)" using N i by blast
    show "\<forall>r \<in> set (wlPods wl). node_of (f i) r \<noteq> ''''" using placed [OF i] by blast
    with keeps_quota [OF e ok] show "int (length (filter (\<lambda>r. node_of (f i) r \<in> wl_names wl) (wlPods wl))) = wl_quota wl"
      by blast
  qed
qed

end

end
