(* ===== verification/Enforcement.thy ===== *)
theory Enforcement
  imports Quota_Refinement
begin

section \<open>Enforcement over many scheduling cycles\<close>

text \<open>
  The scheduler around the filter hooks is a step relation: any pod of the workload that is
  not placed may go through a scheduling cycle at any time (\<open>PreFilter\<close>, then a node \<open>Filter\<close>
  accepts, or none), the binding of an accepted pod happens or fails later, cycles of other
  pods in between. Its steps are moves of a \<open>placement_system\<close> when the policy is Strict.
\<close>

subsection \<open>The surroundings of a workload\<close>

definition new_Plugin ::
    "'w FrameworkHandle \<Rightarrow> 'sel packages \<Rightarrow> ('w, 'sel) PlacementPolicyManager \<Rightarrow> 'w Plugin" where
  "new_Plugin h pk m = \<lparr>frameworkHandler = h, ppMgr = as_Manager pk m\<rparr>"

text \<open>
  What stays the same during a run: the policy and the policies of its namespace, the
  nodes, the set of the workload's pods, and the scaled target. Nothing is said about the
  API server: updates may fail or return anything.
\<close>

definition surroundings ::
    "'sel packages \<Rightarrow> ('w, 'sel) PlacementPolicyManager \<Rightarrow> 'w FrameworkHandle \<Rightarrow> workload \<Rightarrow> bool" where
  "surroundings pk m h wl \<longleftrightarrow>
     NodeSelector (Spec (wlPolicy wl)) = Some (wlNodeSelector wl) \<and>
     PodSelector (Spec (wlPolicy wl)) = Some (wlPodSelector wl) \<and>
     PolicyOf (Spec (wlPolicy wl)) = Some (wlRule wl) \<and>
     (\<forall>pp \<in> set (wlPolicies wl). PodSelector (Spec pp) \<noteq> None) \<and>
     (\<forall>w. namespace_policies pk m w (ppNamespace (wlPolicy wl)) = Return (wlPolicies wl, None)) \<and>
     (\<forall>w. NodeInfos_List h w = (map Some (wlNodes wl), None)) \<and>
     (\<forall>\<sigma>. podLister m \<sigma> (labels_Set_AsSelector pk (MatchLabels (wlPodSelector wl))) = (wlPods wl, None)) \<and>
     GetScaledValueFromIntOrPercent pk (TargetSize (wlRule wl)) (len64 (wlPods wl)) False = (wlTarget wl, None) \<and>
     sort_contract (sort_Sort pk) \<and> wl_ok wl"

text \<open>
  The policy is Strict. A policy without a mode is scored as well as filtered, and the two
  halves of a cycle may contradict each other (\<open>Cycle_Properties\<close>).
\<close>

definition steady ::
    "'sel packages \<Rightarrow> ('w, 'sel) PlacementPolicyManager \<Rightarrow> 'w FrameworkHandle \<Rightarrow> workload \<Rightarrow> bool" where
  "steady pk m h wl \<longleftrightarrow>
     EnforcementModeOf (Spec (wlPolicy wl)) = EnforcementModeStrict \<and> surroundings pk m h wl"

lemmas steady_defs = steady_def surroundings_def wl_ok_def

lemma surroundings_ok: "surroundings pk m h wl \<Longrightarrow> wl_ok wl"
  by (simp add: surroundings_def)

lemma steady_surroundings: "steady pk m h wl \<Longrightarrow> surroundings pk m h wl"
  by (simp add: steady_def)

lemma steady_mode: "steady pk m h wl \<Longrightarrow> EnforcementModeOf (Spec (wlPolicy wl)) \<noteq> EnforcementModeBestEffort"
  by (simp add: steady_def)

lemma steady_ok: "steady pk m h wl \<Longrightarrow> wl_ok wl"
  by (simp add: steady_def surroundings_def)

subsection \<open>The scheduler as a step relation\<close>

text \<open>
  \<open>Bind\<close> stands for what the API server and the informer do with an accepted node, \<open>Refresh\<close>
  for an update event that replaces a struct of the pod cache.
\<close>

inductive sched_step ::
    "'sel packages \<Rightarrow> 'c CycleOps \<Rightarrow> ('w, 'sel) PlacementPolicyManager \<Rightarrow> 'w FrameworkHandle \<Rightarrow> workload
      \<Rightarrow> 'w system \<Rightarrow> 'w system \<Rightarrow> bool"
  for pk cy m h wl where
  NoNode: "schedulable wl S r \<Longrightarrow>
    PreFilter pk cy (new_Plugin h pk m) st r (machine_of S) = (out, st', \<sigma>') \<Longrightarrow>
    sched_step pk cy m h wl S (S\<lparr>machine_of := \<sigma>'\<rparr>)"
| Assign: "schedulable wl S r \<Longrightarrow>
    PreFilter pk cy (new_Plugin h pk m) st r (machine_of S) = (Return s, st', \<sigma>') \<Longrightarrow> status_ok s \<Longrightarrow>
    n \<in> set (wlNodes wl) \<Longrightarrow>
    Filter cy (new_Plugin h pk m) st' r (Some n) \<sigma>' = Return s' \<Longrightarrow> status_ok s' \<Longrightarrow>
    sched_step pk cy m h wl S (S\<lparr>machine_of := \<sigma>', pending := (pending S)(r \<mapsto> n)\<rparr>)"
| BindFails: "pending S r = Some n \<Longrightarrow>
    sched_step pk cy m h wl S (S\<lparr>pending := (pending S)(r := None)\<rparr>)"
| Bind: "pending S r = Some n \<Longrightarrow> mem (machine_of S) r = Some pod \<Longrightarrow>
    sched_step pk cy m h wl S
      (S\<lparr>machine_of := (machine_of S)\<lparr>mem := (mem (machine_of S))(r \<mapsto> pod\<lparr>podNodeName := nodeName n\<rparr>)\<rparr>,
         pending := (pending S)(r := None)\<rparr>)"
| Refresh: "refreshes wl S r pod' \<Longrightarrow> sched_step pk cy m h wl S (refreshed S r pod')"
| Outside: "sched_step pk cy m h wl S (S\<lparr>machine_of := (machine_of S)\<lparr>world := w\<rparr>\<rparr>)"

inductive_cases sched_stepE: "sched_step pk cy m h wl S S'"

inductive reachable ::
    "'sel packages \<Rightarrow> 'c CycleOps \<Rightarrow> ('w, 'sel) PlacementPolicyManager \<Rightarrow> 'w FrameworkHandle \<Rightarrow> workload
      \<Rightarrow> 'w system \<Rightarrow> bool"
  for pk cy m h wl where
  Start: "fresh_workload wl \<sigma> \<Longrightarrow>
    reachable pk cy m h wl \<lparr>machine_of = \<sigma>, pending = (\<lambda>_. None)\<rparr>"
| Step: "reachable pk cy m h wl S \<Longrightarrow> sched_step pk cy m h wl S S' \<Longrightarrow> reachable pk cy m h wl S'"

lemma reachable_run:
  "reachable pk cy m h wl S \<Longrightarrow>
   \<exists>\<sigma>. fresh_workload wl \<sigma> \<and> (sched_step pk cy m h wl)\<^sup>*\<^sup>* \<lparr>machine_of = \<sigma>, pending = (\<lambda>_. None)\<rparr> S"
  by (induction rule: reachable.induct) (blast intro: rtranclp.rtrancl_into_rtrancl)+

subsection \<open>One scheduling cycle\<close>

definition workload_view :: "workload \<Rightarrow> Pod \<Rightarrow> hook_view" where
  "workload_view wl pod =
     \<lparr>vPod = pod, vPolicy = wlPolicy wl, vNodeSelector = wlNodeSelector wl,
      vPodSelector = wlPodSelector wl, vRule = wlRule wl, vPods = wlPods wl, vTarget = wlTarget wl\<rparr>"

lemma workload_view_simps [simp]:
  "vPod (workload_view wl pod) = pod" "vPolicy (workload_view wl pod) = wlPolicy wl"
  "vNodeSelector (workload_view wl pod) = wlNodeSelector wl"
  "vPodSelector (workload_view wl pod) = wlPodSelector wl"
  "vRule (workload_view wl pod) = wlRule wl" "vPods (workload_view wl pod) = wlPods wl"
  "vTarget (workload_view wl pod) = wlTarget wl"
  by (simp_all add: workload_view_def)

lemma sees_workload:
  assumes "surroundings pk m h wl" "mem \<sigma> r = Some pod" "workload_pod wl pod"
    and "\<forall>q \<in> set (wlPods wl). mem \<sigma> q \<noteq> None"
  shows "sees pk (as_Manager pk m) \<sigma> r (workload_view wl pod)"
proof -
  have ns: "namespace_policies pk m (world \<sigma>) (podNamespace pod) = Return (wlPolicies wl, None)"
    using assms(1,3) by (simp add: surroundings_def workload_pod_def)
  have "GetPlacementPolicyForPod pk m \<sigma> r = Return (Some (wlPolicy wl), None)"
    by (rule lightest_chosen [OF _ assms(2) ns])
      (use assms(1,3) in \<open>simp_all add: surroundings_def workload_pod_def\<close>)
  with assms show ?thesis
    by (simp add: sees_def surroundings_def GetPodsWithLabels_def)
qed

text \<open>
  What a stage of a schedulable pod does to the machine, whatever the update returns, if
  the nodes it is given let it count the pods that are meant for the policy's nodes.
\<close>

lemma finish_effect:
  assumes ok: "wl_ok wl"
    and count: "placed (mem (machine_of S)) (matching_names (wlNodeSelector wl) ns) (podUID pod) (wlPods wl) =
      filter (\<lambda>q. q \<noteq> r \<and> preference (machine_of S) q = Some True) (wlPods wl)"
    and f: "finish_stage cy key (wlPolicy wl) st res ((machine_of S)\<lparr>mem := (mem (machine_of S))(r \<mapsto>
        annotated (wlPolicy wl) (decision (machine_of S) ns (workload_view wl pod)) pod), world := w'\<rparr>) =
      (out, st', \<sigma>')"
  obtains b where "mem \<sigma>' = (mem (machine_of S))(r \<mapsto> annotated (wlPolicy wl) b pod)"
    "b \<longleftrightarrow> int (length (filter (\<lambda>q. q \<noteq> r \<and> preference (machine_of S) q = Some True) (wlPods wl))) < wl_target wl"
    "\<forall>x. out = Return x \<longrightarrow> status_ok x \<longrightarrow> (\<exists>name. st' = csWrite cy st key (NewStateData name (Some (wlPolicy wl))))"
proof (rule that)
  show "mem \<sigma>' = (mem (machine_of S))(r \<mapsto>
      annotated (wlPolicy wl) (decision (machine_of S) ns (workload_view wl pod)) pod)"
    using finish_stage_machine [OF f] by simp
  show "decision (machine_of S) ns (workload_view wl pod) \<longleftrightarrow>
      int (length (filter (\<lambda>q. q \<noteq> r \<and> preference (machine_of S) q = Some True) (wlPods wl))) < wl_target wl"
    using ok decision_iff [of "workload_view wl pod" "machine_of S" ns] count
    by (simp add: wl_ok_def wl_target_def)
  show "\<forall>x. out = Return x \<longrightarrow> status_ok x \<longrightarrow>
      (\<exists>name. st' = csWrite cy st key (NewStateData name (Some (wlPolicy wl))))"
    using finish_stage_ok [of cy key "wlPolicy wl" st] f by blast
qed

lemma schedulable_pod:
  assumes "enforced wl S" "schedulable wl S r"
  obtains pod where "r \<in> set (wlPods wl)" "mem (machine_of S) r = Some pod" "podNodeName pod = ''''" "workload_pod wl pod"
proof -
  from assms(2) obtain pod where r: "r \<in> set (wlPods wl)" "mem (machine_of S) r = Some pod" "podNodeName pod = ''''"
    by (auto simp: schedulable_def split: option.splits)
  with assms(1) have "workload_pod wl pod" by (metis enforced_mem option.inject)
  with r that show ?thesis by blast
qed

lemma enforced_sees:
  assumes "surroundings pk m h wl" "enforced wl S" "r \<in> set (wlPods wl)" "mem (machine_of S) r = Some pod"
  shows "sees pk (as_Manager pk m) (machine_of S) r (workload_view wl pod)"
proof (rule sees_workload [OF assms(1,4)])
  show "workload_pod wl pod" using assms(2-4) by (metis enforced_mem option.inject)
  show "\<forall>q \<in> set (wlPods wl). mem (machine_of S) q \<noteq> None" using assms(2) by (metis enforced_mem option.distinct(1))
qed

lemma cycle_effect:
  assumes s: "surroundings pk m h wl" and mode: "EnforcementModeOf (Spec (wlPolicy wl)) \<noteq> EnforcementModeBestEffort"
    and e: "enforced wl S" and sch: "schedulable wl S r"
    and pre: "PreFilter pk cy (new_Plugin h pk m) st r (machine_of S) = (out, st', \<sigma>')"
  obtains pod b where "mem (machine_of S) r = Some pod"
    "mem \<sigma>' = (mem (machine_of S))(r \<mapsto> annotated (wlPolicy wl) b pod)"
    "b \<longleftrightarrow> int (length (filter (\<lambda>q. q \<noteq> r \<and> preference (machine_of S) q = Some True) (wlPods wl))) < wl_target wl"
    "\<forall>x. out = Return x \<longrightarrow> status_ok x \<longrightarrow>
       (\<exists>name. st' = csWrite cy st (getPreFilterStateKey (new_Plugin h pk m)) (NewStateData name (Some (wlPolicy wl))))"
proof -
  let ?p = "new_Plugin h pk m"
  obtain pod where r: "r \<in> set (wlPods wl)" "mem (machine_of S) r = Some pod"
    by (rule schedulable_pod [OF e sch])
  let ?v = "workload_view wl pod"
  have "\<exists>res w'. PreFilter pk cy ?p st r (machine_of S) =
    finish_stage cy (getPreFilterStateKey ?p) (vPolicy ?v) st (Return res)
      ((machine_of S)\<lparr>mem := (mem (machine_of S))(r \<mapsto> annotated (vPolicy ?v)
         (decision (machine_of S) (wlNodes wl) ?v) (vPod ?v)), world := w'\<rparr>)"
    by (rule core_manager.pre_filter_decides [OF _ enforced_sees [OF s e r]])
      (use s mode in \<open>simp_all add: surroundings_def new_Plugin_def\<close>)
  then obtain res w' where f: "finish_stage cy (getPreFilterStateKey ?p) (wlPolicy wl) st res
      ((machine_of S)\<lparr>mem := (mem (machine_of S))(r \<mapsto> annotated (wlPolicy wl)
         (decision (machine_of S) (wlNodes wl) ?v) pod), world := w'\<rparr>) = (out, st', \<sigma>')"
    using pre by auto
  show thesis
    by (rule finish_effect [OF surroundings_ok [OF s] placed_others [OF e r, unfolded wl_names_def] f])
      (rule that [OF r(2)])
qed

subsection \<open>Every step is a move\<close>

lemma cycle_moves:
  assumes s: "steady pk m h wl" and e: "enforced wl S" and sch: "schedulable wl S r"
    and pre: "PreFilter pk cy (new_Plugin h pk m) st r (machine_of S) = (out, st', \<sigma>')"
  shows "moves wl S (S\<lparr>machine_of := \<sigma>'\<rparr>)"
proof -
  obtain pod b where "mem (machine_of S) r = Some pod"
    "mem \<sigma>' = (mem (machine_of S))(r \<mapsto> annotated (wlPolicy wl) b pod)"
    "b \<longleftrightarrow> int (length (filter (\<lambda>q. q \<noteq> r \<and> preference (machine_of S) q = Some True) (wlPods wl))) < wl_target wl"
    by (rule cycle_effect [OF steady_surroundings [OF s] steady_mode [OF s] e sch pre])
  then show ?thesis by (rule Decides_nothing [OF sch])
qed

definition accepts :: "'c CycleOps \<Rightarrow> 'w Plugin \<Rightarrow> 'c \<Rightarrow> pod_ref \<Rightarrow> 'w machine \<Rightarrow> Node \<Rightarrow> bool" where
  "accepts cy p st r \<sigma> n \<longleftrightarrow>
     (case Filter cy p st r (Some n) \<sigma> of Return s \<Rightarrow> status_ok s | Panic _ \<Rightarrow> False)"

lemma accepts_Filter:
  assumes "accepts cy p st r \<sigma> n"
  obtains s where "Filter cy p st r (Some n) \<sigma> = Return s" "status_ok s"
  using assms by (cases "Filter cy p st r (Some n) \<sigma>") (auto simp: accepts_def)

lemma filter_follows_preference:
  assumes s: "surroundings pk m h wl" and c: "cycle_contract cy"
    and st: "st' = csWrite cy st (getPreFilterStateKey (new_Plugin h pk m)) (NewStateData name (Some (wlPolicy wl)))"
    and r: "mem \<sigma> r = Some (annotated pp b pod)" and acc: "accepts cy (new_Plugin h pk m) st' r \<sigma> n"
  shows "wl_matches wl n = b"
proof -
  have "Filter cy (new_Plugin h pk m) st' r (Some n) \<sigma> =
    Return (if checkHasLabels (nodeLabels n) (MatchLabels (wlNodeSelector wl)) = b then ok_status
            else Some (NewStatus Unschedulable (Text '''')))"
    by (rule Filter_reads [of cy st' _ name "wlPolicy wl" _ \<sigma> r pp b pod])
      (use s st c r in \<open>simp_all add: surroundings_def cycle_contract_read\<close>)
  with acc show ?thesis by (auto simp: accepts_def wl_matches_def status_ok_def split: if_splits)
qed

lemma assign_moves:
  assumes s: "steady pk m h wl" and c: "cycle_contract cy" and e: "enforced wl S" and sch: "schedulable wl S r"
    and pre: "PreFilter pk cy (new_Plugin h pk m) st r (machine_of S) = (Return x, st', \<sigma>')" "status_ok x"
    and n: "n \<in> set (wlNodes wl)"
    and fil: "Filter cy (new_Plugin h pk m) st' r (Some n) \<sigma>' = Return y" "status_ok y"
  shows "moves wl S (S\<lparr>machine_of := \<sigma>', pending := (pending S)(r \<mapsto> n)\<rparr>)"
proof -
  obtain pod b where
    r: "mem (machine_of S) r = Some pod"
    and m: "mem \<sigma>' = (mem (machine_of S))(r \<mapsto> annotated (wlPolicy wl) b pod)"
    and b: "b \<longleftrightarrow> int (length (filter (\<lambda>q. q \<noteq> r \<and> preference (machine_of S) q = Some True) (wlPods wl))) < wl_target wl"
    and w: "\<forall>x'. Return x = Return x' \<longrightarrow> status_ok x' \<longrightarrow> (\<exists>name. st' =
       csWrite cy st (getPreFilterStateKey (new_Plugin h pk m)) (NewStateData name (Some (wlPolicy wl))))"
    by (rule cycle_effect [OF steady_surroundings [OF s] steady_mode [OF s] e sch pre(1)])
  from w pre(2) obtain name where
    st': "st' = csWrite cy st (getPreFilterStateKey (new_Plugin h pk m)) (NewStateData name (Some (wlPolicy wl)))"
    by blast
  have "accepts cy (new_Plugin h pk m) st' r \<sigma>' n" using fil by (simp add: accepts_def)
  then have acc: "wl_matches wl n = b"
    using filter_follows_preference [OF steady_surroundings [OF s] c st', of \<sigma>' r "wlPolicy wl" b pod n] m by simp
  show ?thesis by (rule Decides [OF sch r m b]) (use n acc in simp_all)
qed

lemma sched_moves:
  assumes "sched_step pk cy m h wl S S'" "steady pk m h wl" "cycle_contract cy" "enforced wl S"
  shows "moves wl S S'"
  using assms
proof (induction rule: sched_step.induct)
  case (NoNode S r st out st' \<sigma>')
  then show ?case by (blast intro: cycle_moves)
next
  case (Assign S r st s st' \<sigma>' n s')
  then show ?case by (blast intro: assign_moves)
next
  case (Outside S w)
  show ?case by (rule Elsewhere) simp
qed (blast intro: Unbinds Binds Refreshes)+

interpretation strict: placement_system wl
  "\<lambda>S S'. steady pk m h wl \<and> cycle_contract cy \<and> sched_step pk cy m h wl S S'" for wl pk m h cy
  by unfold_locales (blast intro: sched_moves steady_ok)+

text \<open>For a given Strict policy these are the runs of the scheduler.\<close>

lemma strict_run:
  "steady pk m h wl \<Longrightarrow> cycle_contract cy \<Longrightarrow>
   (\<lambda>S S'. steady pk m h wl \<and> cycle_contract cy \<and> sched_step pk cy m h wl S S') = sched_step pk cy m h wl"
  by (simp add: fun_eq_iff)

lemma enforced_step:
  assumes "sched_step pk cy m h wl S S'" "steady pk m h wl" "cycle_contract cy" "enforced wl S"
  shows "enforced wl S'"
  using strict.step_enforced [of pk m h wl cy S S'] assms by simp

lemma reachable_invariant:
  assumes "steady pk m h wl" "cycle_contract cy" "reachable pk cy m h wl S"
  shows "enforced wl S" "pending_unplaced S"
  using reachable_run [OF assms(3)] strict.fresh_run [of wl _ pk m h cy S] strict_run [OF assms(1,2)] by auto

lemma reachable_enforced:
  assumes "steady pk m h wl" "cycle_contract cy"
  shows "reachable pk cy m h wl S \<Longrightarrow> enforced wl S"
  using reachable_invariant [OF assms] by blast

subsection \<open>Cycles that place a pod\<close>

text \<open>
  When the update succeeds, a node on the side the decision names is accepted: the step
  that assigns the pod to it exists.
\<close>

lemma Assign_decided:
  assumes s: "steady pk m h wl" and c: "cycle_contract cy" and sch: "schedulable wl S r"
    and r: "mem (machine_of S) r = Some pod" "workload_pod wl pod"
    and alloc: "\<forall>q \<in> set (wlPods wl). mem (machine_of S) q \<noteq> None"
    and upd: "fst (decided_update m (machine_of S) (wlNodes wl) (workload_view wl pod)) = (Some pod', None)"
    and n: "n \<in> set (wlNodes wl)"
      "wl_matches wl n = decision (machine_of S) (wlNodes wl) (workload_view wl pod)"
  shows "sched_step pk cy m h wl S
    (S\<lparr>machine_of := decided_machine m r (machine_of S) (wlNodes wl) (workload_view wl pod),
       pending := (pending S)(r \<mapsto> n)\<rparr>)"
proof -
  let ?p = "new_Plugin h pk m" and ?v = "workload_view wl pod"
  let ?\<sigma>' = "decided_machine m r (machine_of S) (wlNodes wl) ?v"
  let ?st' = "csWrite cy undefined (getPreFilterStateKey ?p) (NewStateData (podName pod') (Some (wlPolicy wl)))"
  have v: "sees pk (as_Manager pk m) (machine_of S) r ?v"
    using steady_surroundings [OF s] r alloc by (rule sees_workload)
  have pre: "PreFilter pk cy ?p undefined r (machine_of S) = (Return ok_status, ?st', ?\<sigma>')"
  proof -
    have "PreFilter pk cy ?p undefined r (machine_of S) =
      finish_stage cy (getPreFilterStateKey ?p) (vPolicy ?v) undefined
        (Return (fst (decided_update m (machine_of S) (wlNodes wl) ?v))) ?\<sigma>'"
      by (rule core_pre_filter [OF _ v]) (use s in \<open>simp_all add: steady_defs new_Plugin_def\<close>)
    then show ?thesis by (simp add: upd finish_stage_def)
  qed
  have "Filter cy ?p ?st' r (Some n) ?\<sigma>' =
    Return (if checkHasLabels (nodeLabels n) (MatchLabels (wlNodeSelector wl)) =
               decision (machine_of S) (wlNodes wl) ?v then ok_status
            else Some (NewStatus Unschedulable (Text '''')))"
    by (rule Filter_reads [of cy _ _ "podName pod'" "wlPolicy wl" _ _ r "wlPolicy wl" _ pod])
      (use s c in \<open>simp_all add: steady_defs cycle_contract_read decided_pod_def\<close>)
  then have fil: "Filter cy ?p ?st' r (Some n) ?\<sigma>' = Return ok_status"
    using n(2) by (simp add: wl_matches_def)
  show ?thesis by (rule Assign [OF sch pre _ n(1) fil]) simp_all
qed

subsection \<open>Runs that place every pod\<close>

text \<open>
  When updates succeed and there is a node on either side, every pod that may be scheduled
  finds a node.
\<close>

definition both_sides :: "workload \<Rightarrow> bool" where
  "both_sides wl \<longleftrightarrow> (\<exists>n \<in> set (wlNodes wl). wl_matches wl n) \<and> (\<exists>n \<in> set (wlNodes wl). \<not> wl_matches wl n)"

definition accepting :: "('w, 'sel) PlacementPolicyManager \<Rightarrow> bool" where
  "accepting m \<longleftrightarrow> (\<forall>ns pod w. \<exists>pod'. fst (Pods_Update (client m) ns pod w) = (Some pod', None))"

lemma accepting_update: "accepting m \<Longrightarrow> \<exists>pod'. fst (decided_update m \<sigma> ns v) = (Some pod', None)"
  unfolding accepting_def decided_update_def by blast

lemma assign_step:
  assumes s: "steady pk m h wl" and c: "cycle_contract cy" and e: "enforced wl S" and sch: "schedulable wl S r"
    and nodes: "both_sides wl" and upd: "accepting m"
  shows "\<exists>S'. sched_step pk cy m h wl S S' \<and> pending S' r \<noteq> None \<and> node_of S' = node_of S"
proof -
  obtain pod where pod: "mem (machine_of S) r = Some pod" "workload_pod wl pod"
    by (rule schedulable_pod [OF e sch])
  let ?v = "workload_view wl pod"
  obtain n where n: "n \<in> set (wlNodes wl)" "wl_matches wl n = decision (machine_of S) (wlNodes wl) ?v"
    using nodes unfolding both_sides_def by (cases "decision (machine_of S) (wlNodes wl) ?v") auto
  obtain pod' where u: "fst (decided_update m (machine_of S) (wlNodes wl) ?v) = (Some pod', None)"
    using accepting_update [OF upd] by blast
  have alloc: "\<forall>q \<in> set (wlPods wl). mem (machine_of S) q \<noteq> None"
    using e by (metis enforced_mem option.distinct(1))
  let ?S' = "S\<lparr>machine_of := decided_machine m r (machine_of S) (wlNodes wl) ?v, pending := (pending S)(r \<mapsto> n)\<rparr>"
  have "sched_step pk cy m h wl S ?S'" by (rule Assign_decided [OF s c sch pod alloc u n])
  moreover have "node_of ?S' = node_of S"
    using pod(1) by (intro ext) (simp add: node_of_def decided_pod_def)
  ultimately show ?thesis by (intro exI [of _ ?S']) simp
qed

interpretation strict: completing_system wl
  "\<lambda>S S'. steady pk m h wl \<and> cycle_contract cy \<and> sched_step pk cy m h wl S S'"
  "steady pk m h wl \<and> cycle_contract cy \<and> both_sides wl \<and> accepting m" for wl pk m h cy
proof unfold_locales
  fix S :: "'a system" and r
  assume a: "steady pk m h wl \<and> cycle_contract cy \<and> both_sides wl \<and> accepting m"
    and "enforced wl S" "schedulable wl S r"
  then obtain S' where "sched_step pk cy m h wl S S' \<and> pending S' r \<noteq> None \<and> node_of S' = node_of S"
    using assign_step by blast
  with a show "\<exists>S'. (steady pk m h wl \<and> cycle_contract cy \<and> sched_step pk cy m h wl S S') \<and>
      pending S' r \<noteq> None \<and> node_of S' = node_of S" by blast
qed (simp add: bound_in_def Bind)

end
