(* ===== verification/Normalization.thy ===== *)
theory Normalization
  imports Plugin_Hooks
begin

section \<open>Normalising scores\<close>

text \<open>
  \<open>NormalizeScore\<close> rescales the scores of all nodes from the range they span to the
  framework's range. The lemmas here find the range the first loop computes and, where
  the 64-bit products do not wrap, the value each node gets.
\<close>

subsection \<open>The first loop\<close>

lemma score_range_bounds:
  "sint (fst hl) \<le> sint (fst (score_range scores hl)) \<and>
   sint (snd (score_range scores hl)) \<le> sint (snd hl) \<and>
   (\<forall>s \<in> set scores. sint (scoreValue s) \<le> sint (fst (score_range scores hl)) \<and>
      sint (snd (score_range scores hl)) \<le> sint (scoreValue s))"
proof (induction scores arbitrary: hl)
  case Nil
  then show ?case by simp
next
  case (Cons s scores)
  from Cons.IH [of "(if fst hl <s scoreValue s then scoreValue s else fst hl,
      if scoreValue s <s snd hl then scoreValue s else snd hl)"]
  show ?case by (auto simp: word_sless_alt split: if_splits)
qed

lemma score_range_attained:
  "fst (score_range scores hl) \<in> insert (fst hl) (scoreValue ` set scores) \<and>
   snd (score_range scores hl) \<in> insert (snd hl) (scoreValue ` set scores)"
proof (induction scores arbitrary: hl)
  case Nil
  then show ?case by simp
next
  case (Cons s scores)
  from Cons.IH [of "(if fst hl <s scoreValue s then scoreValue s else fst hl,
      if scoreValue s <s snd hl then scoreValue s else snd hl)"]
  show ?case by (auto split: if_splits)
qed

lemma sint_MaxInt64 [simp]:
  "sint MaxInt64 = 9223372036854775807" "sint (- MaxInt64) = - 9223372036854775807"
  by (simp_all add: MaxInt64_def)

text \<open>On a non-empty list of scores above the least integer, the loop finds the extremes.\<close>

lemma score_range_extremes:
  assumes "scores \<noteq> []" "\<forall>s \<in> set scores. - (2 ^ 62) \<le> sint (scoreValue s) \<and> sint (scoreValue s) < 2 ^ 62"
    and "score_range scores (- MaxInt64, MaxInt64) = (highest, lowest)"
  shows "highest \<in> scoreValue ` set scores" "lowest \<in> scoreValue ` set scores"
    "\<forall>s \<in> set scores. sint lowest \<le> sint (scoreValue s) \<and> sint (scoreValue s) \<le> sint highest"
proof -
  from assms(1) obtain s where s: "s \<in> set scores" by (cases scores) auto
  show b: "\<forall>s \<in> set scores. sint lowest \<le> sint (scoreValue s) \<and> sint (scoreValue s) \<le> sint highest"
    using score_range_bounds [of "(- MaxInt64, MaxInt64)" scores] assms(3) by auto
  have "- (2 ^ 62) \<le> sint highest" "sint lowest < 2 ^ 62"
    using b s assms(2) by (meson order_trans le_less_trans)+
  then have "highest \<noteq> - MaxInt64" "lowest \<noteq> MaxInt64" by auto
  then show "highest \<in> scoreValue ` set scores" "lowest \<in> scoreValue ` set scores"
    using score_range_attained [of scores "(- MaxInt64, MaxInt64)"] assms(3) by auto
qed

subsection \<open>The rescaled value\<close>

text \<open>The value on unbounded integers: least score to the minimum, highest to the maximum.\<close>

definition rescaled :: "int \<Rightarrow> int \<Rightarrow> int \<Rightarrow> int \<Rightarrow> int \<Rightarrow> int" where
  "rescaled lowest highest mn mx v =
     (if highest = lowest then mn else (v - lowest) * (mx - mn) div (highest - lowest) + mn)"

lemma rescaled_bounds:
  assumes "lowest \<le> v" "v \<le> highest" "mn \<le> mx"
  shows "mn \<le> rescaled lowest highest mn mx v" "rescaled lowest highest mn mx v \<le> mx"
proof -
  show "mn \<le> rescaled lowest highest mn mx v"
    using assms by (simp add: rescaled_def pos_imp_zdiv_nonneg_iff)
  show "rescaled lowest highest mn mx v \<le> mx"
  proof (cases "highest = lowest")
    case True
    with assms show ?thesis by (simp add: rescaled_def)
  next
    case False
    with assms have pos: "0 < highest - lowest" by simp
    have "(v - lowest) * (mx - mn) \<le> (highest - lowest) * (mx - mn)"
      using assms by (intro mult_right_mono) simp_all
    then have "(v - lowest) * (mx - mn) div (highest - lowest) \<le> mx - mn"
      using zdiv_mono1 [OF _ pos] pos by fastforce
    with False show ?thesis by (simp add: rescaled_def)
  qed
qed

lemma rescaled_mono:
  assumes "v \<le> v'" "lowest \<le> highest" "mn \<le> mx"
  shows "rescaled lowest highest mn mx v \<le> rescaled lowest highest mn mx v'"
proof (cases "highest = lowest")
  case False
  with assms have "(v - lowest) * (mx - mn) div (highest - lowest) \<le> (v' - lowest) * (mx - mn) div (highest - lowest)"
    by (intro zdiv_mono1 mult_right_mono) simp_all
  with False show ?thesis by (simp add: rescaled_def)
qed (simp add: rescaled_def)

lemma rescaled_extremes:
  "rescaled lowest highest mn mx lowest = mn"
  "highest \<noteq> lowest \<Longrightarrow> rescaled lowest highest mn mx highest = mx"
  by (simp_all add: rescaled_def)

lemma div64_nonneg:
  assumes "0 \<le> sint a" "0 < sint b"
  shows "sint (div64 a b) = sint a div sint b"
proof -
  have "sint a sdiv sint b = sint a div sint b"
    using assms by (cases "sint a = 0") (simp_all add: signed_divide_int_def)
  moreover have "0 \<le> sint a div sint b" "sint a div sint b \<le> sint a"
    using assms zdiv_mono2 [of "sint a" 1 "sint b"] by (simp_all add: pos_imp_zdiv_nonneg_iff)
  ultimately show ?thesis
    using sint_bounds64 [of a] by (simp add: div64_def sint_word_of_int_id)
qed

lemma rescaled_word:
  fixes v lowest highest mn mx :: int64
  assumes "sint lowest \<le> sint v" "sint v \<le> sint highest" "sint mn \<le> sint mx"
    and "- (2 ^ 30) \<le> sint lowest" "sint highest < 2 ^ 30" "- (2 ^ 30) \<le> sint mn" "sint mx < 2 ^ 30"
  shows "sint (if highest - lowest = 0 then mn else div64 ((v - lowest) * (mx - mn)) (highest - lowest) + mn) =
    rescaled (sint lowest) (sint highest) (sint mn) (sint mx) (sint v)"
proof (cases "highest = lowest")
  case True
  then show ?thesis by (simp add: rescaled_def)
next
  case False
  then have ne: "sint highest \<noteq> sint lowest" by (auto intro: signed_word_eqI)
  have old: "sint (highest - lowest) = sint highest - sint lowest"
    using assms by (intro sint_diff64) simp_all
  have d: "sint (v - lowest) = sint v - sint lowest"
    using assms by (intro sint_diff64) simp_all
  have new: "sint (mx - mn) = sint mx - sint mn"
    using assms by (intro sint_diff64) simp_all
  have nonneg: "0 \<le> (sint v - sint lowest) * (sint mx - sint mn)"
    using assms by simp
  have "(sint v - sint lowest) * (sint mx - sint mn) \<le> 2 ^ 31 * 2 ^ 31"
    using assms by (intro mult_mono) simp_all
  then have prod: "sint ((v - lowest) * (mx - mn)) = (sint v - sint lowest) * (sint mx - sint mn)"
    using nonneg d new by (subst sint_mult64) simp_all
  have "sint (div64 ((v - lowest) * (mx - mn)) (highest - lowest)) =
      (sint v - sint lowest) * (sint mx - sint mn) div (sint highest - sint lowest)"
    using div64_nonneg [of "(v - lowest) * (mx - mn)" "highest - lowest"] nonneg ne assms old prod by simp
  moreover have "sint mn \<le> rescaled (sint lowest) (sint highest) (sint mn) (sint mx) (sint v)"
    "rescaled (sint lowest) (sint highest) (sint mn) (sint mx) (sint v) \<le> sint mx"
    using assms by (auto intro: rescaled_bounds)
  ultimately show ?thesis
    using False ne assms by (simp add: rescaled_def sint_add64)
qed

subsection \<open>The normalised scores\<close>

text \<open>Scores and bounds of at most 30 bits: the product of two ranges fits in 64 bits.\<close>

definition moderate :: "'w Plugin \<Rightarrow> NodeScore list \<Rightarrow> bool" where
  "moderate p scores \<longleftrightarrow>
     (\<forall>s \<in> set scores. - (2 ^ 30) \<le> sint (scoreValue s) \<and> sint (scoreValue s) < 2 ^ 30) \<and>
     - (2 ^ 30) \<le> sint (MinNodeScore (frameworkHandler p)) \<and>
     sint (MinNodeScore (frameworkHandler p)) \<le> sint (MaxNodeScore (frameworkHandler p)) \<and>
     sint (MaxNodeScore (frameworkHandler p)) < 2 ^ 30"

lemma NormalizeScore_rescaled:
  assumes "mem \<sigma> r = Some pod" "scores \<noteq> []" "moderate p scores"
  obtains lo hi g where "lo \<in> set scores" "hi \<in> set scores"
    "\<forall>s \<in> set scores. sint (scoreValue lo) \<le> sint (scoreValue s) \<and> sint (scoreValue s) \<le> sint (scoreValue hi)"
    "NormalizeScore p r scores \<sigma> = (Return ok_status, map g scores)"
    "\<forall>s \<in> set scores. scoreName (g s) = scoreName s \<and> sint (scoreValue (g s)) =
       rescaled (sint (scoreValue lo)) (sint (scoreValue hi)) (sint (MinNodeScore (frameworkHandler p)))
         (sint (MaxNodeScore (frameworkHandler p))) (sint (scoreValue s))"
proof -
  let ?mn = "MinNodeScore (frameworkHandler p)" and ?mx = "MaxNodeScore (frameworkHandler p)"
  obtain highest lowest where hl: "score_range scores (- MaxInt64, MaxInt64) = (highest, lowest)"
    by (rule prod.exhaust)
  have "\<forall>s \<in> set scores. - (2 ^ 62) \<le> sint (scoreValue s) \<and> sint (scoreValue s) < 2 ^ 62"
    using assms(3) by (force simp: moderate_def)
  note x = score_range_extremes [OF assms(2) this hl]
  from x(1,2) obtain hi lo where e: "hi \<in> set scores" "lo \<in> set scores"
    "highest = scoreValue hi" "lowest = scoreValue lo" by auto
  define g where "g = (\<lambda>s :: NodeScore. s\<lparr>scoreValue :=
    (if highest - lowest = 0 then ?mn
     else div64 ((scoreValue s - lowest) * (?mx - ?mn)) (highest - lowest) + ?mn)\<rparr>)"
  show thesis
  proof (rule that [OF e(2,1)])
    show "\<forall>s \<in> set scores. sint (scoreValue lo) \<le> sint (scoreValue s) \<and> sint (scoreValue s) \<le> sint (scoreValue hi)"
      using x(3) e by simp
    show "NormalizeScore p r scores \<sigma> = (Return ok_status, map g scores)"
      using assms(1) by (simp add: NormalizeScore_def hl g_def Let_def)
    show "\<forall>s \<in> set scores. scoreName (g s) = scoreName s \<and> sint (scoreValue (g s)) =
       rescaled (sint (scoreValue lo)) (sint (scoreValue hi)) (sint ?mn) (sint ?mx) (sint (scoreValue s))"
    proof
      fix s
      assume s: "s \<in> set scores"
      have gv: "scoreValue (g s) = (if highest - lowest = 0 then ?mn
          else div64 ((scoreValue s - lowest) * (?mx - ?mn)) (highest - lowest) + ?mn)"
        by (simp add: g_def)
      have "sint (scoreValue (g s)) = rescaled (sint lowest) (sint highest) (sint ?mn) (sint ?mx) (sint (scoreValue s))"
        unfolding gv by (rule rescaled_word) (use assms(3) x(3) s e in \<open>auto simp: moderate_def\<close>)
      then show "scoreName (g s) = scoreName s \<and> sint (scoreValue (g s)) =
        rescaled (sint (scoreValue lo)) (sint (scoreValue hi)) (sint ?mn) (sint ?mx) (sint (scoreValue s))"
        using e by (simp add: g_def)
    qed
  qed
qed

subsection \<open>The scores of the plugin itself\<close>

text \<open>
  With the framework's bounds 0 and 100, normalising the scores that \<open>Score\<close> gives, 0 or
  100 each, changes nothing when both occur and makes all of them 0 when only one does: a
  cycle in which every feasible node is preferred ends with the scores of one in which
  none is.
\<close>

lemma normalize_of_hook_scores:
  assumes "mem \<sigma> r = Some pod" "\<forall>s \<in> set scores. scoreValue s = 0 \<or> scoreValue s = 100"
    and "MinNodeScore (frameworkHandler p) = 0" "MaxNodeScore (frameworkHandler p) = 100"
  shows "NormalizeScore p r scores \<sigma> = (Return ok_status,
    if {0, 100} \<subseteq> scoreValue ` set scores then scores else map (\<lambda>s. s\<lparr>scoreValue := 0\<rparr>) scores)"
proof (cases "scores = []")
  case True
  with assms(1) show ?thesis by (simp add: NormalizeScore_def)
next
  case False
  have "moderate p scores" using assms by (auto simp: moderate_def)
  from NormalizeScore_rescaled [OF assms(1) False this] obtain lo hi g where m: "lo \<in> set scores" "hi \<in> set scores"
    and b: "\<forall>s \<in> set scores. sint (scoreValue lo) \<le> sint (scoreValue s) \<and> sint (scoreValue s) \<le> sint (scoreValue hi)"
    and n: "NormalizeScore p r scores \<sigma> = (Return ok_status, map g scores)"
    and g: "\<forall>s \<in> set scores. scoreName (g s) = scoreName s \<and> sint (scoreValue (g s)) =
       rescaled (sint (scoreValue lo)) (sint (scoreValue hi)) (sint (MinNodeScore (frameworkHandler p)))
         (sint (MaxNodeScore (frameworkHandler p))) (sint (scoreValue s))" .
  have v: "scoreValue lo = 0 \<or> scoreValue lo = 100" "scoreValue hi = 0 \<or> scoreValue hi = 100"
    using m assms(2) by auto
  have "g s = (if {0, 100} \<subseteq> scoreValue ` set scores then s else s\<lparr>scoreValue := 0\<rparr>)" if s: "s \<in> set scores" for s
  proof -
    have vs: "scoreValue s = 0 \<or> scoreValue s = 100" using s assms(2) by simp
    have lh: "{0, 100} \<subseteq> scoreValue ` set scores \<longleftrightarrow> scoreValue lo = 0 \<and> scoreValue hi = 100"
    proof
      assume "{0, 100} \<subseteq> scoreValue ` set scores"
      then obtain s0 s1 where "s0 \<in> set scores" "scoreValue s0 = 0" "s1 \<in> set scores" "scoreValue s1 = 100"
        by (auto simp: image_iff)
      with b have "sint (scoreValue lo) \<le> sint (0 :: int64)" "sint (100 :: int64) \<le> sint (scoreValue hi)"
        by fastforce+
      with v show "scoreValue lo = 0 \<and> scoreValue hi = 100" by auto
    qed (use m in \<open>auto intro: rev_image_eqI\<close>)
    have "sint (scoreValue (g s)) = sint (if {0, 100} \<subseteq> scoreValue ` set scores then scoreValue s else 0)"
      unfolding lh using g b s v vs assms(3,4) by (auto simp: rescaled_def)
    then have "scoreValue (g s) = (if {0, 100} \<subseteq> scoreValue ` set scores then scoreValue s else 0)"
      by (rule signed_word_eqI)
    then show ?thesis using g s by simp
  qed
  then have "map g scores =
      (if {0, 100} \<subseteq> scoreValue ` set scores then scores else map (\<lambda>s. s\<lparr>scoreValue := 0\<rparr>) scores)"
    by (cases "{0, 100} \<subseteq> scoreValue ` set scores") (auto cong: map_cong)
  then show ?thesis using n by simp
qed

end
