(* ===== verification/Scheduling_Cycle.thy ===== *)
theory Scheduling_Cycle
  imports Enforcement Normalization
begin

section \<open>The whole scheduling cycle\<close>

text \<open>
  A cycle of the scheduler calls all hooks of the plugin: \<open>PreFilter\<close>, \<open>Filter\<close> for the
  nodes, and, when several nodes are left, \<open>PreScore\<close>, \<open>Score\<close> for each of them and
  \<open>NormalizeScore\<close>. For Strict policies this is the relation of \<open>Enforcement\<close>. For
  BestEffort policies the pods are placed as the policy promises as long as the nodes that
  are left show the plugin the nodes its pods are on.
\<close>

subsection \<open>The scheduler around the hooks\<close>

text \<open>
  What the scheduler and its other plugins decide: which nodes are left for a pod, and which
  node is taken given the plugin's normalised scores.
\<close>

record 'w scheduler =
  feasible :: "'w system \<Rightarrow> pod_ref \<Rightarrow> Node list \<Rightarrow> bool"
  selected :: "NodeScore list \<Rightarrow> string \<Rightarrow> bool"

primrec node_scores ::
    "'c CycleOps \<Rightarrow> 'w Plugin \<Rightarrow> 'c \<Rightarrow> pod_ref \<Rightarrow> 'w machine \<Rightarrow> Node list \<Rightarrow> NodeScore list option" where
  "node_scores cy p st r \<sigma> [] = Some []"
| "node_scores cy p st r \<sigma> (n # ns) =
     (case Score cy p st r (nodeName n) \<sigma> of
        Return (v, s) \<Rightarrow>
          if status_ok s
          then map_option (Cons \<lparr>scoreName = nodeName n, scoreValue = v\<rparr>) (node_scores cy p st r \<sigma> ns)
          else None
      | Panic _ \<Rightarrow> None)"

text \<open>
  How a cycle of a pod may end: with the process it leaves and the node, if one is found. A
  hook that fails or panics ends it, and so may anything outside the plugin.
\<close>

inductive cycle_ends ::
    "'sel packages \<Rightarrow> 'c CycleOps \<Rightarrow> 'w Plugin \<Rightarrow> 'w scheduler \<Rightarrow> Node list \<Rightarrow> 'w system \<Rightarrow> pod_ref
      \<Rightarrow> 'w machine \<Rightarrow> Node option \<Rightarrow> bool"
  for pk cy p sch nodes S r where
  Stops: "PreFilter pk cy p st r (machine_of S) = (out, st', \<sigma>') \<Longrightarrow>
    cycle_ends pk cy p sch nodes S r \<sigma>' None"
| OnlyNode: "PreFilter pk cy p st r (machine_of S) = (Return s, st', \<sigma>') \<Longrightarrow> status_ok s \<Longrightarrow>
    n \<in> set nodes \<Longrightarrow> accepts cy p st' r \<sigma>' n \<Longrightarrow> feasible sch S r [n] \<Longrightarrow>
    cycle_ends pk cy p sch nodes S r \<sigma>' (Some n)"
| NoChoice: "PreFilter pk cy p st r (machine_of S) = (Return s, st', \<sigma>') \<Longrightarrow> status_ok s \<Longrightarrow>
    2 \<le> length ns \<Longrightarrow> set ns \<subseteq> set nodes \<Longrightarrow> \<forall>n \<in> set ns. accepts cy p st' r \<sigma>' n \<Longrightarrow> feasible sch S r ns \<Longrightarrow>
    PreScore pk cy p st' r (map Some ns) \<sigma>' = (out, st'', \<sigma>'') \<Longrightarrow>
    cycle_ends pk cy p sch nodes S r \<sigma>'' None"
| Chooses: "PreFilter pk cy p st r (machine_of S) = (Return s, st', \<sigma>') \<Longrightarrow> status_ok s \<Longrightarrow>
    2 \<le> length ns \<Longrightarrow> set ns \<subseteq> set nodes \<Longrightarrow> \<forall>n \<in> set ns. accepts cy p st' r \<sigma>' n \<Longrightarrow> feasible sch S r ns \<Longrightarrow>
    PreScore pk cy p st' r (map Some ns) \<sigma>' = (Return s', st'', \<sigma>'') \<Longrightarrow> status_ok s' \<Longrightarrow>
    node_scores cy p st'' r \<sigma>'' ns = Some scores \<Longrightarrow>
    NormalizeScore p r scores \<sigma>'' = (Return s'', scores') \<Longrightarrow> status_ok s'' \<Longrightarrow>
    n \<in> set ns \<Longrightarrow> selected sch scores' (nodeName n) \<Longrightarrow>
    cycle_ends pk cy p sch nodes S r \<sigma>'' (Some n)"

inductive cycle_step ::
    "'sel packages \<Rightarrow> 'c CycleOps \<Rightarrow> ('w, 'sel) PlacementPolicyManager \<Rightarrow> 'w FrameworkHandle \<Rightarrow> 'w scheduler
      \<Rightarrow> workload \<Rightarrow> 'w system \<Rightarrow> 'w system \<Rightarrow> bool"
  for pk cy m h sch wl where
  Cycle: "schedulable wl S r \<Longrightarrow> cycle_ends pk cy (new_Plugin h pk m) sch (wlNodes wl) S r \<sigma>' choice \<Longrightarrow>
    cycle_step pk cy m h sch wl S (S\<lparr>machine_of := \<sigma>', pending := (pending S)(r := choice)\<rparr>)"
| CycleBindFails: "pending S r = Some n \<Longrightarrow>
    cycle_step pk cy m h sch wl S (S\<lparr>pending := (pending S)(r := None)\<rparr>)"
| CycleBind: "pending S r = Some n \<Longrightarrow> mem (machine_of S) r = Some pod \<Longrightarrow>
    cycle_step pk cy m h sch wl S
      (S\<lparr>machine_of := (machine_of S)\<lparr>mem := (mem (machine_of S))(r \<mapsto> pod\<lparr>podNodeName := nodeName n\<rparr>)\<rparr>,
         pending := (pending S)(r := None)\<rparr>)"
| CycleRefresh: "refreshes wl S r pod' \<Longrightarrow> cycle_step pk cy m h sch wl S (refreshed S r pod')"
| CycleOutside: "cycle_step pk cy m h sch wl S (S\<lparr>machine_of := (machine_of S)\<lparr>world := w\<rparr>\<rparr>)"

lemma schedulable_unpend: "schedulable wl S r \<Longrightarrow> (pending S)(r := None) = pending S"
  by (auto simp: schedulable_def)

subsection \<open>Strict policies: scoring changes nothing\<close>

text \<open>After any pre-filtering of a Strict policy, \<open>PreScore\<close> succeeds and leaves everything.\<close>

lemma strict_pre_score:
  assumes s: "steady pk m h wl" and e: "enforced wl S" and sch: "schedulable wl S r"
    and pre: "PreFilter pk cy (new_Plugin h pk m) st r (machine_of S) = (out, st', \<sigma>')"
  shows "PreScore pk cy (new_Plugin h pk m) st' r nodes \<sigma>' = (Return ok_status, st', \<sigma>')"
proof -
  obtain pod b where r: "mem (machine_of S) r = Some pod"
    and m: "mem \<sigma>' = (mem (machine_of S))(r \<mapsto> annotated (wlPolicy wl) b pod)"
    by (rule cycle_effect [OF steady_surroundings [OF s] steady_mode [OF s] e sch pre])
  have ok: "wl_ok wl" by (rule steady_ok [OF s])
  have "moves wl S (S\<lparr>machine_of := \<sigma>'\<rparr>)" by (rule cycle_moves [OF s e sch pre])
  then have e': "enforced wl (S\<lparr>machine_of := \<sigma>'\<rparr>)" by (rule enforced_moves [OF _ ok e])
  have "r \<in> set (wlPods wl)" using sch by (simp add: schedulable_def)
  from enforced_sees [OF steady_surroundings [OF s] e' this] m
  have "mGetPlacementPolicyForPod (as_Manager pk m) \<sigma>' r = Return (Some (wlPolicy wl), None)"
    by (simp add: sees_def)
  then show ?thesis
    unfolding PreScore_stage
    by (simp add: core_manager.guard_skips new_Plugin_def s [unfolded steady_def])
qed

lemma strict_cycle:
  assumes "steady pk m h wl" "enforced wl S" "schedulable wl S r"
    and "cycle_ends pk cy (new_Plugin h pk m) sch (wlNodes wl) S r \<sigma>' choice"
  shows "sched_step pk cy m h wl S (S\<lparr>machine_of := \<sigma>', pending := (pending S)(r := choice)\<rparr>)"
  using assms(4)
proof (cases rule: cycle_ends.cases)
  case (Stops st out st')
  from NoNode [OF assms(3) this(2)] this(1) schedulable_unpend [OF assms(3)] show ?thesis by simp
next
  case (OnlyNode st s st' n)
  from OnlyNode(5) obtain y where "Filter cy (new_Plugin h pk m) st' r (Some n) \<sigma>' = Return y" "status_ok y"
    by (rule accepts_Filter)
  from Assign [OF assms(3) OnlyNode(2,3,4) this] OnlyNode(1) show ?thesis by simp
next
  case (NoChoice st s st' \<sigma>1 ns out st'')
  have "\<sigma>' = \<sigma>1" using NoChoice(8) strict_pre_score [OF assms(1-3) NoChoice(2)] by simp
  with NoNode [OF assms(3) NoChoice(2)] NoChoice(1) schedulable_unpend [OF assms(3)] show ?thesis by simp
next
  case (Chooses st s st' \<sigma>1 ns s' st'' scores s'' scores' n)
  have same: "\<sigma>' = \<sigma>1" using Chooses(8) strict_pre_score [OF assms(1-3) Chooses(2)] by simp
  have "accepts cy (new_Plugin h pk m) st' r \<sigma>1 n" using Chooses(6,13) by blast
  then obtain y where "Filter cy (new_Plugin h pk m) st' r (Some n) \<sigma>1 = Return y" "status_ok y"
    by (rule accepts_Filter)
  moreover have "n \<in> set (wlNodes wl)" using Chooses(5,13) by auto
  ultimately show ?thesis using Assign [OF assms(3) Chooses(2,3)] same Chooses(1) by simp
qed

lemma strict_cycle_step:
  assumes "cycle_step pk cy m h sch wl S S'" "steady pk m h wl" "enforced wl S"
  shows "sched_step pk cy m h wl S S'"
  using assms
  by (induction rule: cycle_step.induct) (blast intro: strict_cycle sched_step.intros)+

text \<open>Conversely, when any single node may be the only one left, no filtering cycle is lost.\<close>

lemma sched_cycle_step:
  assumes "sched_step pk cy m h wl S S'" "\<forall>r n. feasible sch S r [n]"
  shows "cycle_step pk cy m h sch wl S S'"
  using assms
proof (induction rule: sched_step.induct)
  case (NoNode S r st out st' \<sigma>')
  have "cycle_ends pk cy (new_Plugin h pk m) sch (wlNodes wl) S r \<sigma>' None" by (rule Stops [OF NoNode(2)])
  from Cycle [OF NoNode(1) this] schedulable_unpend [OF NoNode(1)] show ?case by simp
next
  case (Assign S r st s st' \<sigma>' n s')
  have "accepts cy (new_Plugin h pk m) st' r \<sigma>' n" using Assign(5,6) by (simp add: accepts_def)
  then have "cycle_ends pk cy (new_Plugin h pk m) sch (wlNodes wl) S r \<sigma>' (Some n)"
    using Assign by (intro OnlyNode [OF Assign(2,3,4)]) simp_all
  then show ?case by (rule Cycle [OF Assign(1)])
qed (blast intro: cycle_step.intros)+

subsection \<open>BestEffort policies: what the feasible nodes show\<close>

text \<open>
  The plugin groups the nodes that are left for the pod, so it counts the pods on those
  nodes only. The count is right if every policy node that a pod of the workload is on is
  among them.
\<close>

definition visible :: "workload \<Rightarrow> 'w system \<Rightarrow> Node list \<Rightarrow> bool" where
  "visible wl S ns \<longleftrightarrow>
     (\<forall>n \<in> set (wlNodes wl). wl_matches wl n \<and> (\<exists>q \<in> set (wlPods wl). node_of S q = nodeName n) \<longrightarrow> n \<in> set ns)"

definition lenient ::
    "'sel packages \<Rightarrow> ('w, 'sel) PlacementPolicyManager \<Rightarrow> 'w FrameworkHandle \<Rightarrow> workload \<Rightarrow> bool" where
  "lenient pk m h wl \<longleftrightarrow>
     EnforcementModeOf (Spec (wlPolicy wl)) = EnforcementModeBestEffort \<and> surroundings pk m h wl \<and>
     (\<forall>w. \<forall>n \<in> set (wlNodes wl). NodeInfos_Get h w (nodeName n) = (Some n, None)) \<and>
     MinNodeScore h = 0 \<and> MaxNodeScore h = 100"

text \<open>A scheduler that takes a node of the highest score.\<close>

definition follows_scores :: "'w scheduler \<Rightarrow> bool" where
  "follows_scores sch \<longleftrightarrow>
     (\<forall>scores x. selected sch scores x \<longrightarrow>
        (\<exists>s \<in> set scores. scoreName s = x \<and> (\<forall>s' \<in> set scores. sint (scoreValue s') \<le> sint (scoreValue s))))"

text \<open>A cluster with room: the occupied policy nodes stay feasible, and nodes on both sides.\<close>

definition roomy :: "workload \<Rightarrow> 'w scheduler \<Rightarrow> bool" where
  "roomy wl sch \<longleftrightarrow>
     (\<forall>S r ns. feasible sch S r ns \<longrightarrow> visible wl S ns \<and>
        (\<exists>n \<in> set ns. wl_matches wl n) \<and> (\<exists>n \<in> set ns. \<not> wl_matches wl n))"

lemma lenient_ok: "lenient pk m h wl \<Longrightarrow> wl_ok wl"
  by (simp add: lenient_def surroundings_def)

lemma lenient_surroundings: "lenient pk m h wl \<Longrightarrow> surroundings pk m h wl"
  by (simp add: lenient_def)

lemma matching_visible:
  assumes "set ns \<subseteq> set (wlNodes wl)" "visible wl S ns" "q \<in> set (wlPods wl)"
  shows "node_of S q \<in> matching_names (wlNodeSelector wl) ns \<longleftrightarrow> node_of S q \<in> wl_names wl"
proof
  assume "node_of S q \<in> matching_names (wlNodeSelector wl) ns"
  with assms(1) show "node_of S q \<in> wl_names wl" by (auto simp: wl_names_def matching_names_def)
next
  assume "node_of S q \<in> wl_names wl"
  then obtain n where n: "n \<in> set (wlNodes wl)" "wl_matches wl n" "node_of S q = nodeName n"
    by (auto simp: wl_names_def matching_names_def wl_matches_def)
  with assms(2,3) have "n \<in> set ns" unfolding visible_def by blast
  with n show "node_of S q \<in> matching_names (wlNodeSelector wl) ns"
    by (auto simp: matching_names_def wl_matches_def)
qed

lemma placed_visible:
  assumes "set ns \<subseteq> set (wlNodes wl)" "visible wl S ns" "enforced wl S"
  shows "placed (mem (machine_of S)) (matching_names (wlNodeSelector wl) ns) uid (wlPods wl) =
    placed (mem (machine_of S)) (wl_names wl) uid (wlPods wl)"
  unfolding placed_def
proof (rule filter_cong [OF refl])
  fix q
  assume q: "q \<in> set (wlPods wl)"
  then obtain P where "mem (machine_of S) q = Some P" using assms(3) by (rule_tac enforced_mem)
  with matching_visible [OF assms(1,2) q]
  show "(podUID (the (mem (machine_of S) q)) \<noteq> uid \<and>
      counted (matching_names (wlNodeSelector wl) ns) (the (mem (machine_of S) q))) =
    (podUID (the (mem (machine_of S) q)) \<noteq> uid \<and> counted (wl_names wl) (the (mem (machine_of S) q)))"
    by (auto simp: counted_def node_of_def)
qed

lemma lenient_pre_filter:
  assumes "lenient pk m h wl" "enforced wl S" "schedulable wl S r"
  shows "PreFilter pk cy (new_Plugin h pk m) st r (machine_of S) = (Return ok_status, st, machine_of S)"
proof -
  obtain pod where "r \<in> set (wlPods wl)" "mem (machine_of S) r = Some pod"
    by (rule schedulable_pod [OF assms(2,3)])
  from enforced_sees [OF lenient_surroundings [OF assms(1)] assms(2) this]
  have "mGetPlacementPolicyForPod (as_Manager pk m) (machine_of S) r = Return (Some (wlPolicy wl), None)"
    by (simp add: sees_def)
  then show ?thesis
    unfolding PreFilter_stage using assms(1)
    by (simp add: core_manager.guard_skips new_Plugin_def lenient_def)
qed

lemma score_effect:
  assumes s: "lenient pk m h wl" and e: "enforced wl S" and sch: "schedulable wl S r"
    and ns: "set ns \<subseteq> set (wlNodes wl)" "visible wl S ns"
    and pre: "PreScore pk cy (new_Plugin h pk m) st r (map Some ns) (machine_of S) = (out, st', \<sigma>')"
  obtains pod b where "mem (machine_of S) r = Some pod"
    "mem \<sigma>' = (mem (machine_of S))(r \<mapsto> annotated (wlPolicy wl) b pod)"
    "b \<longleftrightarrow> int (length (filter (\<lambda>q. q \<noteq> r \<and> preference (machine_of S) q = Some True) (wlPods wl))) < wl_target wl"
    "\<forall>x. out = Return x \<longrightarrow> status_ok x \<longrightarrow>
       (\<exists>name. st' = csWrite cy st (getPreScoreStateKey (new_Plugin h pk m)) (NewStateData name (Some (wlPolicy wl))))"
proof -
  let ?p = "new_Plugin h pk m"
  obtain pod where r: "r \<in> set (wlPods wl)" "mem (machine_of S) r = Some pod"
    by (rule schedulable_pod [OF e sch])
  let ?v = "workload_view wl pod"
  have "\<exists>res w'. PreScore pk cy ?p st r (map Some ns) (machine_of S) =
    finish_stage cy (getPreScoreStateKey ?p) (vPolicy ?v) st (Return res)
      ((machine_of S)\<lparr>mem := (mem (machine_of S))(r \<mapsto> annotated (vPolicy ?v)
         (decision (machine_of S) ns ?v) (vPod ?v)), world := w'\<rparr>)"
    by (rule core_manager.pre_score_decides [OF _ enforced_sees [OF lenient_surroundings [OF s] e r]])
      (use s in \<open>simp_all add: lenient_def new_Plugin_def\<close>)
  then obtain res w' where f: "finish_stage cy (getPreScoreStateKey ?p) (wlPolicy wl) st res
      ((machine_of S)\<lparr>mem := (mem (machine_of S))(r \<mapsto> annotated (wlPolicy wl)
         (decision (machine_of S) ns ?v) pod), world := w'\<rparr>) = (out, st', \<sigma>')"
    using pre by auto
  show thesis
    by (rule finish_effect [OF lenient_ok [OF s] trans [OF placed_visible [OF ns e] placed_others [OF e r]] f])
      (rule that [OF r(2)])
qed

subsection \<open>From scores to the node\<close>

lemma node_scores_by_side:
  assumes s: "lenient pk m h wl" and c: "cycle_contract cy" and ns: "set ns \<subseteq> set (wlNodes wl)"
    and st: "csRead cy st (getPreScoreStateKey (new_Plugin h pk m)) = (Some (NewStateData name (Some (wlPolicy wl))), None)"
    and r: "mem \<sigma> r = Some (annotated pp b pod)"
  shows "node_scores cy (new_Plugin h pk m) st r \<sigma> ns =
    Some (map (\<lambda>n. \<lparr>scoreName = nodeName n, scoreValue = if wl_matches wl n = b then 100 else 0\<rparr>) ns)"
  using ns
proof (induction ns)
  case (Cons n ns)
  have "Score cy (new_Plugin h pk m) st r (nodeName n) \<sigma> =
      Return (if checkHasLabels (nodeLabels n) (MatchLabels (wlNodeSelector wl)) = b then 100 else 0, None)"
    by (rule Score_reads [OF st _ _ r]) (use s Cons.prems in \<open>simp_all add: lenient_def surroundings_def new_Plugin_def\<close>)
  with Cons show ?case by (simp add: wl_matches_def status_ok_def)
qed simp

text \<open>With nodes on both sides the best score is on the side the pod prefers.\<close>

lemma best_score_side:
  assumes s: "lenient pk m h wl" and f: "follows_scores sch"
    and ns: "set ns \<subseteq> set (wlNodes wl)" "\<exists>n \<in> set ns. wl_matches wl n" "\<exists>n \<in> set ns. \<not> wl_matches wl n"
    and r: "mem \<sigma> r = Some pod"
    and norm: "NormalizeScore (new_Plugin h pk m) r
        (map (\<lambda>n. \<lparr>scoreName = nodeName n, scoreValue = if wl_matches wl n = b then 100 else 0\<rparr>) ns) \<sigma> = (out, scores)"
    and n: "n \<in> set ns" "selected sch scores (nodeName n)"
  shows "wl_matches wl n = b"
proof -
  let ?score = "\<lambda>n. \<lparr>scoreName = nodeName n, scoreValue = if wl_matches wl n = b then 100 else (0 :: int64)\<rparr>"
  obtain n1 n0 where both: "n1 \<in> set ns" "wl_matches wl n1 = b" "n0 \<in> set ns" "wl_matches wl n0 \<noteq> b"
    using ns(2,3) by (cases b) auto
  have "{0, 100} \<subseteq> scoreValue ` set (map ?score ns)"
  proof -
    have "scoreValue (?score n1) = 100" "scoreValue (?score n0) = 0" using both by simp_all
    with both(1,3) show ?thesis by force
  qed
  with normalize_of_hook_scores [OF r, of "map ?score ns" "new_Plugin h pk m"] norm s
  have scores: "scores = map ?score ns" by (simp add: lenient_def new_Plugin_def)
  from f n(2) obtain x where x: "x \<in> set scores" "scoreName x = nodeName n"
    "\<forall>y \<in> set scores. sint (scoreValue y) \<le> sint (scoreValue x)"
    unfolding follows_scores_def by blast
  from x(1) obtain n' where n': "n' \<in> set ns" "x = ?score n'" by (auto simp: scores)
  have "sint (scoreValue (?score n1)) \<le> sint (scoreValue x)" using x(3) both(1) by (auto simp: scores)
  with n' both(2) have m: "wl_matches wl n' = b" by (auto split: if_splits)
  have "n' = n"
  proof -
    have "inj_on nodeName (set (wlNodes wl))" using lenient_ok [OF s] by (simp add: wl_ok_def distinct_map)
    then show ?thesis using n' n(1) ns(1) x(2) by (auto dest: inj_onD)
  qed
  with m show ?thesis by simp
qed

lemma decision_visible:
  assumes "wl_ok wl" "enforced wl S" "r \<in> set (wlPods wl)" "mem (machine_of S) r = Some pod"
    and "set ns \<subseteq> set (wlNodes wl)" "visible wl S ns"
  shows "decision (machine_of S) ns (workload_view wl pod) \<longleftrightarrow>
    int (length (filter (\<lambda>q. q \<noteq> r \<and> preference (machine_of S) q = Some True) (wlPods wl))) < wl_target wl"
  using assms(1) decision_iff [of "workload_view wl pod" "machine_of S" ns]
    trans [OF placed_visible [OF assms(5,6,2)] placed_others [OF assms(2-4)]]
  by (simp add: wl_ok_def wl_target_def)

text \<open>A cycle under a BestEffort policy that finds a node takes one on the side of the decision.\<close>

lemma lenient_choice:
  assumes s: "lenient pk m h wl" and c: "cycle_contract cy" and f: "follows_scores sch"
    and both: "\<forall>ns. feasible sch S r ns \<longrightarrow> (\<exists>n \<in> set ns. wl_matches wl n) \<and> (\<exists>n \<in> set ns. \<not> wl_matches wl n)"
    and e: "enforced wl S" and sch: "schedulable wl S r"
    and cyc: "cycle_ends pk cy (new_Plugin h pk m) sch (wlNodes wl) S r \<sigma>' (Some n)"
  obtains ns pod b where "feasible sch S r ns" "set ns \<subseteq> set (wlNodes wl)" "n \<in> set ns" "wl_matches wl n = b"
    "mem (machine_of S) r = Some pod" "r \<in> set (wlPods wl)"
    "mem \<sigma>' = (mem (machine_of S))(r \<mapsto> annotated (wlPolicy wl) b pod)"
    "b = decision (machine_of S) ns (workload_view wl pod)"
  using cyc
proof (cases rule: cycle_ends.cases)
  case (OnlyNode st s' st')
  from both OnlyNode(5) have "(\<exists>x \<in> set [n]. wl_matches wl x) \<and> (\<exists>x \<in> set [n]. \<not> wl_matches wl x)" by blast
  then show ?thesis by simp
next
  case (Chooses st s' st' \<sigma>1 ns x st'' scores y scores')
  let ?p = "new_Plugin h pk m"
  have same: "\<sigma>1 = machine_of S" using Chooses(1) lenient_pre_filter [OF s e sch, of cy st] by simp
  from both Chooses(6) have sides: "\<exists>n \<in> set ns. wl_matches wl n" "\<exists>n \<in> set ns. \<not> wl_matches wl n" by blast+
  obtain pod where r: "r \<in> set (wlPods wl)" "mem (machine_of S) r = Some pod"
    by (rule schedulable_pod [OF e sch])
  let ?b = "decision (machine_of S) ns (workload_view wl pod)"
  have "\<exists>res w'. PreScore pk cy ?p st' r (map Some ns) (machine_of S) =
    finish_stage cy (getPreScoreStateKey ?p) (wlPolicy wl) st' (Return res)
      ((machine_of S)\<lparr>mem := (mem (machine_of S))(r \<mapsto> annotated (wlPolicy wl) ?b pod), world := w'\<rparr>)"
    using core_manager.pre_score_decides [OF _ enforced_sees [OF lenient_surroundings [OF s] e r], of ?p cy st' ns] s
    by (simp add: lenient_def new_Plugin_def)
  then obtain res w' where fin: "finish_stage cy (getPreScoreStateKey ?p) (wlPolicy wl) st' (Return res)
      ((machine_of S)\<lparr>mem := (mem (machine_of S))(r \<mapsto> annotated (wlPolicy wl) ?b pod), world := w'\<rparr>) =
      (Return x, st'', \<sigma>')"
    using Chooses(7) same by auto
  then have m: "mem \<sigma>' = (mem (machine_of S))(r \<mapsto> annotated (wlPolicy wl) ?b pod)"
    using finish_stage_machine by fastforce
  from finish_stage_ok [of cy "getPreScoreStateKey ?p" "wlPolicy wl" st'] fin Chooses(8)
  obtain name where "st'' = csWrite cy st' (getPreScoreStateKey ?p) (NewStateData name (Some (wlPolicy wl)))"
    by blast
  then have "csRead cy st'' (getPreScoreStateKey ?p) = (Some (NewStateData name (Some (wlPolicy wl))), None)"
    using c by (simp add: cycle_contract_read)
  from node_scores_by_side [OF s c Chooses(4) this, of \<sigma>' r "wlPolicy wl" ?b pod] m Chooses(9,10)
  have "NormalizeScore ?p r
      (map (\<lambda>n. \<lparr>scoreName = nodeName n, scoreValue = if wl_matches wl n = ?b then 100 else 0\<rparr>) ns) \<sigma>' = (Return y, scores')"
    by simp
  from best_score_side [OF s f Chooses(4) sides _ this Chooses(12,13)] m
  have "wl_matches wl n = ?b" by simp
  from that [OF Chooses(6,4,12) this r(2,1) m refl] show ?thesis .
qed

lemma lenient_cycle_moves:
  assumes s: "lenient pk m h wl" and c: "cycle_contract cy" and f: "follows_scores sch" and g: "roomy wl sch"
    and e: "enforced wl S" and sch: "schedulable wl S r"
    and cyc: "cycle_ends pk cy (new_Plugin h pk m) sch (wlNodes wl) S r \<sigma>' choice"
  shows "moves wl S (S\<lparr>machine_of := \<sigma>', pending := (pending S)(r := choice)\<rparr>)"
  using cyc
proof (cases rule: cycle_ends.cases)
  case (Stops st out st')
  have "\<sigma>' = machine_of S" using Stops(2) lenient_pre_filter [OF s e sch, of cy st] by simp
  then have "moves wl S (S\<lparr>machine_of := \<sigma>'\<rparr>)" by (intro Elsewhere) simp
  with Stops(1) schedulable_unpend [OF sch] show ?thesis by simp
next
  case (OnlyNode st s' st' n)
  from g OnlyNode(6) have "(\<exists>x \<in> set [n]. wl_matches wl x) \<and> (\<exists>x \<in> set [n]. \<not> wl_matches wl x)"
    unfolding roomy_def by blast
  then show ?thesis by simp
next
  case (NoChoice st s' st' \<sigma>1 ns out st'')
  have same: "\<sigma>1 = machine_of S" using NoChoice(2) lenient_pre_filter [OF s e sch, of cy st] by simp
  have vis: "visible wl S ns" using g NoChoice(7) unfolding roomy_def by blast
  obtain pod b where "mem (machine_of S) r = Some pod"
    "mem \<sigma>' = (mem (machine_of S))(r \<mapsto> annotated (wlPolicy wl) b pod)"
    "b \<longleftrightarrow> int (length (filter (\<lambda>q. q \<noteq> r \<and> preference (machine_of S) q = Some True) (wlPods wl))) < wl_target wl"
    by (rule score_effect [OF s e sch NoChoice(5) vis NoChoice(8) [unfolded same]])
  from Decides [OF sch this, of choice] NoChoice(1) show ?thesis by simp
next
  case (Chooses st s' st' \<sigma>1 ns x st'' scores y scores' n)
  have both: "\<forall>ns. feasible sch S r ns \<longrightarrow> (\<exists>n \<in> set ns. wl_matches wl n) \<and> (\<exists>n \<in> set ns. \<not> wl_matches wl n)"
    using g unfolding roomy_def by blast
  obtain ns' pod b where c': "feasible sch S r ns'" "set ns' \<subseteq> set (wlNodes wl)" "n \<in> set ns'" "wl_matches wl n = b"
    and r: "mem (machine_of S) r = Some pod" "r \<in> set (wlPods wl)" and m: "mem \<sigma>' = (mem (machine_of S))(r \<mapsto> annotated (wlPolicy wl) b pod)"
    and b: "b = decision (machine_of S) ns' (workload_view wl pod)"
    by (rule lenient_choice [OF s c f both e sch cyc [unfolded Chooses(1)]])
  have "visible wl S ns'" using g c'(1) unfolding roomy_def by blast
  from decision_visible [OF lenient_ok [OF s] e r(2,1) c'(2) this] b
  have "b \<longleftrightarrow> int (length (filter (\<lambda>q. q \<noteq> r \<and> preference (machine_of S) q = Some True) (wlPods wl))) < wl_target wl"
    by simp
  from Decides [OF sch r(1) m this, of choice] Chooses(1) c'(2-4) show ?thesis by auto
qed

interpretation scored: placement_system wl
  "\<lambda>S S'. lenient pk m h wl \<and> cycle_contract cy \<and> follows_scores sch \<and> roomy wl sch \<and>
     cycle_step pk cy m h sch wl S S'" for wl pk m h cy sch
proof unfold_locales
  fix S S'
  assume a: "lenient pk m h wl \<and> cycle_contract cy \<and> follows_scores sch \<and> roomy wl sch \<and> cycle_step pk cy m h sch wl S S'"
  then show "wl_ok wl" using lenient_ok by blast
  assume e: "enforced wl S"
  from a have "cycle_step pk cy m h sch wl S S'" by blast
  then show "moves wl S S'"
  proof (cases rule: cycle_step.cases)
    case (Cycle r \<sigma>' choice)
    with a e show ?thesis by (auto intro!: lenient_cycle_moves)
  next
    case (CycleOutside w)
    then show ?thesis by (simp add: Elsewhere)
  qed (auto intro: Unbinds Binds Refreshes)
qed

subsection \<open>Cycles that score their way to a node\<close>

definition side_scores :: "workload \<Rightarrow> bool \<Rightarrow> Node list \<Rightarrow> NodeScore list" where
  "side_scores wl b ns =
     map (\<lambda>n. \<lparr>scoreName = nodeName n, scoreValue = if wl_matches wl n = b then 100 else 0\<rparr>) ns"

text \<open>
  When the update succeeds, any node the scheduler may select from the scores is taken. The
  nodes that are left need not show the plugin all of its pods.
\<close>

lemma Cycle_decided:
  assumes s: "lenient pk m h wl" and c: "cycle_contract cy" and e: "enforced wl S" and sch: "schedulable wl S r"
    and r: "mem (machine_of S) r = Some pod"
    and new: "csRead cy st (getPreFilterStateKey (new_Plugin h pk m)) = (d, Some FrameworkErrNotFound)"
    and ns: "set ns \<subseteq> set (wlNodes wl)" "feasible sch S r ns" "\<exists>n \<in> set ns. wl_matches wl n" "\<exists>n \<in> set ns. \<not> wl_matches wl n"
    and upd: "fst (decided_update m (machine_of S) ns (workload_view wl pod)) = (Some pod', None)"
    and n: "n \<in> set ns" "selected sch (side_scores wl (decision (machine_of S) ns (workload_view wl pod)) ns) (nodeName n)"
  shows "cycle_step pk cy m h sch wl S
    (S\<lparr>machine_of := decided_machine m r (machine_of S) ns (workload_view wl pod), pending := (pending S)(r \<mapsto> n)\<rparr>)"
proof (rule Cycle [OF sch])
  let ?p = "new_Plugin h pk m" and ?v = "workload_view wl pod"
  let ?b = "decision (machine_of S) ns ?v" and ?\<sigma>' = "decided_machine m r (machine_of S) ns ?v"
  let ?st = "csWrite cy st (getPreScoreStateKey ?p) (NewStateData (podName pod') (Some (wlPolicy wl)))"
  have rin: "r \<in> set (wlPods wl)" using sch by (simp add: schedulable_def)
  have pre: "PreFilter pk cy ?p st r (machine_of S) = (Return ok_status, st, machine_of S)"
    by (rule lenient_pre_filter [OF s e sch])
  have acc: "\<forall>n \<in> set ns. accepts cy ?p st r (machine_of S) n"
    by (simp add: accepts_def Filter_def new)
  have two: "2 \<le> length ns"
  proof (rule ccontr)
    assume "\<not> 2 \<le> length ns"
    then have "length ns < 2" by simp
    then show False using ns(3,4) by (cases ns) auto
  qed
  have "PreScore pk cy ?p st r (map Some ns) (machine_of S) =
      finish_stage cy (getPreScoreStateKey ?p) (vPolicy ?v) st (Return (fst (decided_update m (machine_of S) ns ?v))) ?\<sigma>'"
    by (rule core_pre_score [OF _ enforced_sees [OF lenient_surroundings [OF s] e rin r]])
      (use s in \<open>simp_all add: lenient_def new_Plugin_def\<close>)
  then have score: "PreScore pk cy ?p st r (map Some ns) (machine_of S) = (Return ok_status, ?st, ?\<sigma>')"
    by (simp add: upd finish_stage_def)
  have pod: "mem ?\<sigma>' r = Some (annotated (wlPolicy wl) ?b pod)" by (simp add: decided_pod_def)
  have scores: "node_scores cy ?p ?st r ?\<sigma>' ns = Some (side_scores wl ?b ns)"
    unfolding side_scores_def
    by (rule node_scores_by_side [OF s c ns(1) _ pod]) (simp add: c cycle_contract_read)
  have both: "{0, 100} \<subseteq> scoreValue ` set (side_scores wl ?b ns)"
  proof -
    from ns(3,4) obtain n1 n0 where "n1 \<in> set ns" "wl_matches wl n1 = ?b" "n0 \<in> set ns" "wl_matches wl n0 \<noteq> ?b"
      by (cases ?b) auto
    then show ?thesis unfolding side_scores_def by (force simp: image_iff)
  qed
  have norm: "NormalizeScore ?p r (side_scores wl ?b ns) ?\<sigma>' = (Return ok_status, side_scores wl ?b ns)"
    using normalize_of_hook_scores [OF pod, of "side_scores wl ?b ns" ?p] both s
    by (auto simp: side_scores_def lenient_def new_Plugin_def)
  show "cycle_ends pk cy ?p sch (wlNodes wl) S r ?\<sigma>' (Some n)"
    by (rule Chooses [OF pre _ two ns(1) acc ns(2) score _ scores norm _ n]) simp_all
qed

text \<open>A scheduler that always leaves nodes and selects one of them; cycles start empty.\<close>

definition obliging :: "'c CycleOps \<Rightarrow> 'w Plugin \<Rightarrow> 'w scheduler \<Rightarrow> workload \<Rightarrow> bool" where
  "obliging cy p sch wl \<longleftrightarrow>
     (\<exists>st d. csRead cy st (getPreFilterStateKey p) = (d, Some FrameworkErrNotFound)) \<and>
     (\<forall>S r. \<exists>ns. set ns \<subseteq> set (wlNodes wl) \<and> feasible sch S r ns) \<and>
     (\<forall>scores. scores \<noteq> [] \<longrightarrow> (\<exists>s \<in> set scores. selected sch scores (scoreName s)))"

lemma scored_assign:
  assumes s: "lenient pk m h wl" and c: "cycle_contract cy" and g: "roomy wl sch"
    and ob: "obliging cy (new_Plugin h pk m) sch wl" and upd: "accepting m"
    and e: "enforced wl S" and sch: "schedulable wl S r"
  shows "\<exists>S'. cycle_step pk cy m h sch wl S S' \<and> pending S' r \<noteq> None \<and> node_of S' = node_of S"
proof -
  obtain pod where pod: "mem (machine_of S) r = Some pod" by (rule schedulable_pod [OF e sch])
  let ?v = "workload_view wl pod"
  obtain st d where st: "csRead cy st (getPreFilterStateKey (new_Plugin h pk m)) = (d, Some FrameworkErrNotFound)"
    using ob unfolding obliging_def by blast
  obtain ns where ns: "set ns \<subseteq> set (wlNodes wl)" "feasible sch S r ns"
    using ob unfolding obliging_def by blast
  have both: "\<exists>n \<in> set ns. wl_matches wl n" "\<exists>n \<in> set ns. \<not> wl_matches wl n"
    using g ns(2) unfolding roomy_def by blast+
  let ?scores = "side_scores wl (decision (machine_of S) ns ?v) ns"
  have "?scores \<noteq> []" using both(1) by (auto simp: side_scores_def)
  then obtain x where "x \<in> set ?scores" "selected sch ?scores (scoreName x)"
    using ob unfolding obliging_def by blast
  then obtain n where n: "n \<in> set ns" "selected sch ?scores (nodeName n)"
    by (auto simp: side_scores_def)
  obtain pod' where u: "fst (decided_update m (machine_of S) ns ?v) = (Some pod', None)"
    using accepting_update [OF upd] by blast
  let ?S' = "S\<lparr>machine_of := decided_machine m r (machine_of S) ns ?v, pending := (pending S)(r \<mapsto> n)\<rparr>"
  have "cycle_step pk cy m h sch wl S ?S'" by (rule Cycle_decided [OF s c e sch pod st ns both u n])
  moreover have "node_of ?S' = node_of S"
    using pod by (intro ext) (simp add: node_of_def decided_pod_def)
  ultimately show ?thesis by (intro exI [of _ ?S']) simp
qed

interpretation scored: completing_system wl
  "\<lambda>S S'. lenient pk m h wl \<and> cycle_contract cy \<and> follows_scores sch \<and> roomy wl sch \<and>
     cycle_step pk cy m h sch wl S S'"
  "lenient pk m h wl \<and> cycle_contract cy \<and> follows_scores sch \<and> roomy wl sch \<and>
     obliging cy (new_Plugin h pk m) sch wl \<and> accepting m" for wl pk m h cy sch
proof unfold_locales
  fix S :: "'a system" and r
  assume a: "lenient pk m h wl \<and> cycle_contract cy \<and> follows_scores sch \<and> roomy wl sch \<and>
     obliging cy (new_Plugin h pk m) sch wl \<and> accepting m"
    and "enforced wl S" "schedulable wl S r"
  then obtain S' where "cycle_step pk cy m h sch wl S S' \<and> pending S' r \<noteq> None \<and> node_of S' = node_of S"
    using scored_assign by blast
  with a show "\<exists>S'. (lenient pk m h wl \<and> cycle_contract cy \<and> follows_scores sch \<and> roomy wl sch \<and>
      cycle_step pk cy m h sch wl S S') \<and> pending S' r \<noteq> None \<and> node_of S' = node_of S" by blast
qed (simp add: bound_in_def CycleBind)

lemma scored_run:
  "lenient pk m h wl \<Longrightarrow> cycle_contract cy \<Longrightarrow> follows_scores sch \<Longrightarrow> roomy wl sch \<Longrightarrow>
   (\<lambda>S S'. lenient pk m h wl \<and> cycle_contract cy \<and> follows_scores sch \<and> roomy wl sch \<and>
      cycle_step pk cy m h sch wl S S') = cycle_step pk cy m h sch wl"
  by (simp add: fun_eq_iff)

text \<open>The runs of a Strict workload, scoring included, are those of \<open>Enforcement\<close>.\<close>

definition starts :: "'w machine \<Rightarrow> 'w system" where
  "starts \<sigma> = \<lparr>machine_of = \<sigma>, pending = (\<lambda>_. None)\<rparr>"

lemma strict_cycles_reachable:
  assumes s: "steady pk m h wl" and c: "cycle_contract cy" and f: "fresh_workload wl \<sigma>"
    and run: "(cycle_step pk cy m h sch wl)\<^sup>*\<^sup>* (starts \<sigma>) S"
  shows "reachable pk cy m h wl S"
  using run
proof (induction rule: rtranclp_induct)
  case base
  show ?case unfolding starts_def by (rule Start [OF f])
next
  case (step S1 S2)
  from strict_cycle_step [OF step(2) s reachable_enforced [OF s c step.IH]] step.IH
  show ?case by (rule_tac Step)
qed

lemma sched_cycles:
  assumes "(sched_step pk cy m h wl)\<^sup>*\<^sup>* S S'" "\<And>S r n. feasible sch S r [n]"
  shows "(cycle_step pk cy m h sch wl)\<^sup>*\<^sup>* S S'"
  using assms(1) by induction (blast intro: rtranclp.rtrancl_into_rtrancl sched_cycle_step assms(2))+

subsection \<open>Policies without a mode\<close>

text \<open>
  When the policy's nodes already hold the target, a cycle of a policy without a mode first
  decides for the other nodes; \<open>PreScore\<close> then sees those only, counts none of the placed
  pods, and decides for the policy's nodes.
\<close>

lemma count_placed:
  assumes ok: "wl_ok wl" and e: "enforced wl S"
    and full: "wl_target wl \<le> int (length (filter (\<lambda>q. q \<noteq> r \<and> node_of S q \<in> wl_names wl) (wlPods wl)))"
  shows "\<not> int (length (filter (\<lambda>q. q \<noteq> r \<and> preference (machine_of S) q = Some True) (wlPods wl))) < wl_target wl"
proof -
  have "length (filter (\<lambda>q. q \<noteq> r \<and> node_of S q \<in> wl_names wl) (wlPods wl)) \<le>
      length (filter (\<lambda>q. q \<noteq> r \<and> preference (machine_of S) q = Some True) (wlPods wl))"
  proof (rule length_filter_mono)
    fix q
    assume "q \<in> set (wlPods wl)" "q \<noteq> r \<and> node_of S q \<in> wl_names wl"
    moreover from this have "node_of S q \<noteq> ''''" using wl_names_nonempty [OF ok] by auto
    ultimately show "q \<noteq> r \<and> preference (machine_of S) q = Some True" using node_preference [OF e] by simp
  qed
  with full show ?thesis by linarith
qed

lemma hidden_decision:
  assumes ok: "wl_ok wl" and e: "enforced wl S" and r: "mem (machine_of S) r = Some pod" and pos: "0 < wl_target wl"
    and rest: "\<forall>q \<in> set (wlPods wl). q \<noteq> r \<and> node_of S q = '''' \<longrightarrow> preference (machine_of S) q \<noteq> Some True"
    and hidden: "\<forall>q \<in> set (wlPods wl). node_of S q \<noteq> '''' \<longrightarrow> node_of S q \<notin> matching_names (wlNodeSelector wl) ns"
  shows "decision (machine_of S) ns (workload_view wl pod)"
proof -
  have "placed (mem (machine_of S)) (matching_names (wlNodeSelector wl) ns) (podUID pod) (wlPods wl) = []"
    unfolding placed_def filter_empty_conv
  proof (intro ballI notI)
    fix q
    assume q: "q \<in> set (wlPods wl)"
      and c: "podUID (the (mem (machine_of S) q)) \<noteq> podUID pod \<and>
        counted (matching_names (wlNodeSelector wl) ns) (the (mem (machine_of S) q))"
    from c r have "q \<noteq> r" by auto
    moreover obtain P where "mem (machine_of S) q = Some P" using e q by (rule enforced_mem)
    ultimately show False
      using c rest hidden q by (auto simp: counted_def node_of_def preference_def split: if_splits)
  qed
  then show ?thesis
    using ok pos decision_iff [of "workload_view wl pod" "machine_of S" ns] by (simp add: wl_ok_def wl_target_def)
qed

text \<open>When as many pods are on the policy's nodes as the target asks for, no other one is meant for them.\<close>

lemma met_promises_no_more:
  assumes ok: "wl_ok wl" and e: "enforced wl S"
    and met: "wl_target wl \<le> int (length (filter (\<lambda>q. node_of S q \<in> wl_names wl) (wlPods wl)))"
    and q: "q \<in> set (wlPods wl)" "node_of S q = ''''"
  shows "0 < wl_target wl \<Longrightarrow> preference (machine_of S) q \<noteq> Some True"
proof
  assume pos: "0 < wl_target wl" and p: "preference (machine_of S) q = Some True"
  have on: "node_of S x \<in> wl_names wl \<Longrightarrow> x \<in> set (wlPods wl) \<Longrightarrow> preference (machine_of S) x = Some True" for x
    using node_preference [OF e] wl_names_nonempty [OF ok] by metis
  have "filter (\<lambda>x. node_of S x \<in> wl_names wl) (meant wl (machine_of S)) =
      filter (\<lambda>x. node_of S x \<in> wl_names wl) (wlPods wl)"
    unfolding meant_def filter_filter using on by (intro filter_cong) auto
  moreover have "q \<in> set (meant wl (machine_of S))" "node_of S q \<notin> wl_names wl"
    using p q wl_names_nonempty [OF ok] by (simp_all add: meant_def)
  ultimately have "length (filter (\<lambda>x. node_of S x \<in> wl_names wl) (wlPods wl)) < length (meant wl (machine_of S))"
    using length_filter_less [of q "meant wl (machine_of S)" "\<lambda>x. node_of S x \<in> wl_names wl"] by simp
  moreover have "int (length (meant wl (machine_of S))) \<le> max 0 (wl_target wl)" using e by (simp add: enforced_def)
  ultimately show False using met pos by linarith
qed

lemma on_others:
  assumes "wl_ok wl" "node_of S r = ''''"
  shows "filter (\<lambda>q. q \<noteq> r \<and> node_of S q \<in> wl_names wl) (wlPods wl) =
    filter (\<lambda>q. node_of S q \<in> wl_names wl) (wlPods wl)"
  using assms(2) wl_names_nonempty [OF assms(1)] by (intro filter_cong) auto

lemma one_more_on:
  assumes "wl_ok wl" "node_of S r = ''''" "r \<in> set (wlPods wl)" "x \<in> wl_names wl"
  shows "length (filter (\<lambda>q. ((node_of S)(r := x)) q \<in> wl_names wl) (wlPods wl)) =
    length (filter (\<lambda>q. node_of S q \<in> wl_names wl) (wlPods wl)) + 1"
proof -
  have "distinct (wlPods wl)" using assms(1) by (simp add: wl_ok_def)
  from length_filter_split [OF this assms(3), of "\<lambda>q. ((node_of S)(r := x)) q \<in> wl_names wl"] assms(4)
  have "length (filter (\<lambda>q. ((node_of S)(r := x)) q \<in> wl_names wl) (wlPods wl)) =
      length (filter (\<lambda>q. q \<noteq> r \<and> ((node_of S)(r := x)) q \<in> wl_names wl) (wlPods wl)) + 1" by simp
  also have "filter (\<lambda>q. q \<noteq> r \<and> ((node_of S)(r := x)) q \<in> wl_names wl) (wlPods wl) =
      filter (\<lambda>q. q \<noteq> r \<and> node_of S q \<in> wl_names wl) (wlPods wl)"
    by (rule filter_cong) auto
  finally show ?thesis by (simp only: on_others [OF assms(1,2)])
qed

text \<open>The step after which a schedulable pod is on its way to a node is its cycle.\<close>

lemma chosen_in_cycle:
  assumes "cycle_step pk cy m h sch wl S S1" "schedulable wl S r" "pending S1 r = Some n"
  obtains \<sigma>' where "cycle_ends pk cy (new_Plugin h pk m) sch (wlNodes wl) S r \<sigma>' (Some n)"
    "S1 = S\<lparr>machine_of := \<sigma>', pending := (pending S)(r \<mapsto> n)\<rparr>"
proof -
  have free: "pending S r = None" using assms(2) by (simp add: schedulable_def)
  from assms(1) show thesis
  proof (cases rule: cycle_step.cases)
    case (Cycle r' \<sigma>' choice)
    with assms(3) free have "r' = r" "choice = Some n" by (auto split: if_splits)
    with Cycle show thesis by (intro that) simp_all
  next
    case (CycleRefresh r' pod')
    with assms(3) free show thesis by simp
  qed (use assms(3) free in \<open>auto split: if_splits\<close>)
qed

lemma off_side_recount:
  assumes s: "surroundings pk m h wl" and mode: "EnforcementModeOf (Spec (wlPolicy wl)) \<noteq> EnforcementModeStrict"
    and e: "enforced wl S" and r: "r \<in> set (wlPods wl)" "mem (machine_of S) r = Some pod"
    and pos: "0 < wl_target wl"
    and rest: "\<forall>q \<in> set (wlPods wl). q \<noteq> r \<and> node_of S q = '''' \<longrightarrow> preference (machine_of S) q \<noteq> Some True"
    and ns: "\<forall>n \<in> set ns. \<not> wl_matches wl n"
    and pre: "PreScore pk cy (new_Plugin h pk m) st r (map Some ns) (machine_of S) = (out, st', \<sigma>')"
  shows "mem \<sigma>' = (mem (machine_of S))(r \<mapsto> annotated (wlPolicy wl) True pod)"
proof -
  let ?v = "workload_view wl pod"
  have "matching_names (wlNodeSelector wl) ns = {}"
    using ns by (auto simp: matching_names_def wl_matches_def)
  then have d: "decision (machine_of S) ns ?v"
    by (intro hidden_decision [OF surroundings_ok [OF s] e r(2) pos rest]) simp
  have "\<exists>res w'. PreScore pk cy (new_Plugin h pk m) st r (map Some ns) (machine_of S) =
    finish_stage cy (getPreScoreStateKey (new_Plugin h pk m)) (vPolicy ?v) st (Return res)
      ((machine_of S)\<lparr>mem := (mem (machine_of S))(r \<mapsto> annotated (vPolicy ?v)
         (decision (machine_of S) ns ?v) (vPod ?v)), world := w'\<rparr>)"
    by (rule core_manager.pre_score_decides [OF _ enforced_sees [OF s e r]])
      (use mode in \<open>simp_all add: new_Plugin_def\<close>)
  with pre finish_stage_machine d show ?thesis by fastforce
qed

lemma modeless_cycle:
  assumes s: "surroundings pk m h wl" and c: "cycle_contract cy"
    and mode: "EnforcementModeOf (Spec (wlPolicy wl)) \<notin> {EnforcementModeBestEffort, EnforcementModeStrict}"
    and e: "enforced wl S" and sch: "schedulable wl S r" and pos: "0 < wl_target wl"
    and full: "wl_target wl \<le> int (length (filter (\<lambda>q. q \<noteq> r \<and> node_of S q \<in> wl_names wl) (wlPods wl)))"
    and rest: "\<forall>q \<in> set (wlPods wl). q \<noteq> r \<and> node_of S q = '''' \<longrightarrow> preference (machine_of S) q \<noteq> Some True"
    and several: "\<forall>n. \<not> feasible sch S r [n]"
    and cyc: "cycle_ends pk cy (new_Plugin h pk m) sch (wlNodes wl) S r \<sigma>' (Some n)"
  shows "\<not> wl_matches wl n \<and> preference \<sigma>' r = Some True"
  using cyc
proof (cases rule: cycle_ends.cases)
  case (OnlyNode st s' st')
  with several show ?thesis by blast
next
  case (Chooses st s' st' \<sigma>1 ns x st'' scores y scores')
  have m1: "EnforcementModeOf (Spec (wlPolicy wl)) \<noteq> EnforcementModeBestEffort"
    and m2: "EnforcementModeOf (Spec (wlPolicy wl)) \<noteq> EnforcementModeStrict" using mode by auto
  obtain pod b where r: "mem (machine_of S) r = Some pod"
    and m: "mem \<sigma>1 = (mem (machine_of S))(r \<mapsto> annotated (wlPolicy wl) b pod)"
    and b: "b \<longleftrightarrow> int (length (filter (\<lambda>q. q \<noteq> r \<and> preference (machine_of S) q = Some True) (wlPods wl))) < wl_target wl"
    and w: "\<forall>x'. Return s' = Return x' \<longrightarrow> status_ok x' \<longrightarrow> (\<exists>name. st' =
       csWrite cy st (getPreFilterStateKey (new_Plugin h pk m)) (NewStateData name (Some (wlPolicy wl))))"
    by (rule cycle_effect [OF s m1 e sch Chooses(1)])
  from w Chooses(2) obtain name where
    st: "st' = csWrite cy st (getPreFilterStateKey (new_Plugin h pk m)) (NewStateData name (Some (wlPolicy wl)))"
    by blast
  have off: "\<not> b" using b count_placed [OF surroundings_ok [OF s] e full] by blast
  have ns: "\<forall>n \<in> set ns. \<not> wl_matches wl n"
    using filter_follows_preference [OF s c st, of \<sigma>1 r "wlPolicy wl" b pod] m off Chooses(5) by auto
  let ?S1 = "S\<lparr>machine_of := \<sigma>1\<rparr>"
  have "enforced wl ?S1"
    by (rule enforced_moves [OF Decides_nothing [OF sch r m b] surroundings_ok [OF s] e])
  moreover have rin: "r \<in> set (wlPods wl)" using sch by (simp add: schedulable_def)
  moreover have "\<forall>q \<in> set (wlPods wl). q \<noteq> r \<and> node_of ?S1 q = '''' \<longrightarrow> preference (machine_of ?S1) q \<noteq> Some True"
    using rest m by (simp add: node_of_def preference_def)
  ultimately have "mem \<sigma>' = (mem \<sigma>1)(r \<mapsto> annotated (wlPolicy wl) True (annotated (wlPolicy wl) b pod))"
    using off_side_recount [OF s m2 _ rin _ pos _ ns, of ?S1 "annotated (wlPolicy wl) b pod" cy st'] Chooses(7) m
    by simp
  moreover have "\<not> wl_matches wl n" using ns Chooses(12) by blast
  ultimately show ?thesis by (simp add: preference_def)
qed

end
