(* ===== verification/Example_Cluster.thy ===== *)
theory Example_Cluster
  imports Scheduling_Cycle
begin

section \<open>A small cluster\<close>

text \<open>
  Concrete instances of the parameters, for the witnesses of the properties: the demo of
  the README in small. Two nodes, one of them labelled \<open>node=want\<close>; two pods labelled
  \<open>app=nginx\<close>; a policy that wants one pod on the labelled node. The selector of a label
  set is the set itself, the cycle state a map, the API server stores nothing.
\<close>

definition ex_cycle :: "(string \<Rightarrow> StateData option) CycleOps" where
  "ex_cycle =
     \<lparr>csRead = (\<lambda>st k. case st k of Some d \<Rightarrow> (Some d, None) | None \<Rightarrow> (None, Some FrameworkErrNotFound)),
      csWrite = (\<lambda>st k d. st(k \<mapsto> d))\<rparr>"

lemma ex_cycle_contract: "cycle_contract ex_cycle"
  by (simp add: cycle_contract_def ex_cycle_def)

text \<open>An absolute target is returned as it is; a percentage rounds down.\<close>

definition ex_scaled :: "IntOrString option \<Rightarrow> int64 \<Rightarrow> bool \<Rightarrow> int64 \<times> goerror option" where
  "ex_scaled t n up =
     (case t of
        Some (FromInt i) \<Rightarrow> (word_of_int (sint i), None)
      | Some (FromString s) \<Rightarrow>
          (if s = ''40%'' then (div64 (n * 40) 100, None) else (0, Some (External ''invalid value'')))
      | None \<Rightarrow> (0, Some (External ''nil value'')))"

definition ex_packages :: "strmap packages" where
  "ex_packages =
     \<lparr>labels_Everything = [], labels_Set_AsSelector = (\<lambda>l. l),
      GetScaledValueFromIntOrPercent = ex_scaled, sort_Sort = sort_Sort_12\<rparr>"

definition ex_want :: LabelSelector where
  "ex_want = \<lparr>MatchLabels = [(''node'', ''want'')], MatchExpressions = []\<rparr>"

definition ex_nginx :: LabelSelector where
  "ex_nginx = \<lparr>MatchLabels = [(''app'', ''nginx'')], MatchExpressions = []\<rparr>"

definition ex_rule :: Policy where
  "ex_rule = \<lparr>PolicyAction = ActionMust, TargetSize = Some (FromInt 1)\<rparr>"

definition ex_policy_of :: "string \<Rightarrow> int32 \<Rightarrow> EnforcementMode \<Rightarrow> PlacementPolicy" where
  "ex_policy_of name weight mode =
     \<lparr>ppName = name, ppNamespace = ''default'', ppLabels = [],
      Spec = \<lparr>Weight = weight, EnforcementModeOf = mode, PodSelector = Some ex_nginx,
        NodeSelector = Some ex_want, PolicyOf = Some ex_rule\<rparr>\<rparr>"

definition ex_policy :: PlacementPolicy where
  "ex_policy = ex_policy_of ''strict-must'' 100 EnforcementModeStrict"

definition ex_node1 :: Node where
  "ex_node1 = \<lparr>nodeName = ''worker'', nodeLabels = [(''node'', ''want''), (''zone'', ''a'')]\<rparr>"

definition ex_node2 :: Node where
  "ex_node2 = \<lparr>nodeName = ''worker3'', nodeLabels = [(''node'', ''unwant'')]\<rparr>"

definition ex_pod :: "string \<Rightarrow> Pod" where
  "ex_pod name =
     \<lparr>podName = name, podNamespace = ''default'', podUID = name, podLabels = [(''app'', ''nginx'')],
      podAnnotations = None, podNodeName = ''''\<rparr>"

definition ex_machine :: "unit machine" where
  "ex_machine = \<lparr>mem = [0 \<mapsto> ex_pod ''nginx-0'', 1 \<mapsto> ex_pod ''nginx-1''], world = ()\<rparr>"

definition ex_indexer :: "PlacementPolicy list \<Rightarrow> (unit, strmap) Indexer" where
  "ex_indexer pps =
     \<lparr>ListAll = (\<lambda>w sel. (map IfacePolicy pps, None)),
      ListAllByNamespace = (\<lambda>w ns sel. (map IfacePolicy (filter (\<lambda>pp. ppNamespace pp = ns) pps), None)),
      GetByKey = (\<lambda>w key. case filter (\<lambda>pp. ppNamespace pp @ ''/'' @ ppName pp = key) pps of
         [] \<Rightarrow> (None, False, None) | pp # _ \<Rightarrow> (Some (IfacePolicy pp), True, None))\<rparr>"

lemma ex_indexer_simps [simp]:
  "NamespaceLister_List \<lparr>nslister_indexer = ex_indexer pps, nslister_namespace = ns\<rparr> w sel =
     Return (filter (\<lambda>pp. ppNamespace pp = ns) pps, None)"
  "GetByKey (ex_indexer pps) w key = (case filter (\<lambda>pp. ppNamespace pp @ ''/'' @ ppName pp = key) pps of
     [] \<Rightarrow> (None, False, None) | pp # _ \<Rightarrow> (Some (IfacePolicy pp), True, None))"
  by (simp_all add: NamespaceLister_List_policies ex_indexer_def)

definition ex_client :: "unit KubeClient" where
  "ex_client = \<lparr>Pods_Update = (\<lambda>ns pod w. ((Some pod, None), w))\<rparr>"

definition ex_manager_of :: "PlacementPolicy list \<Rightarrow> (unit, strmap) PlacementPolicyManager" where
  "ex_manager_of pps =
     fst (NewPlacementPolicyManager ex_client (Handle 0) (Handle 1)
       \<lparr>pp_Informer = Pair (), pp_Lister = Pair (NewPlacementPolicyLister (ex_indexer pps))\<rparr> (\<lambda>\<sigma> sel. ([0, 1], None)) ())"

definition ex_manager :: "(unit, strmap) PlacementPolicyManager" where
  "ex_manager = ex_manager_of [ex_policy]"

definition ex_handle :: "unit FrameworkHandle" where
  "ex_handle =
     \<lparr>NodeInfos_List = (\<lambda>w. ([Some ex_node1, Some ex_node2], None)),
      NodeInfos_Get = (\<lambda>w name.
        if name = ''worker'' then (Some ex_node1, None)
        else if name = ''worker3'' then (Some ex_node2, None)
        else (None, Some (External ''node not found''))),
      MinNodeScore = 0, MaxNodeScore = 100\<rparr>"

definition ex_workload :: workload where
  "ex_workload =
     \<lparr>wlPolicies = [ex_policy], wlPolicy = ex_policy, wlNodeSelector = ex_want, wlPodSelector = ex_nginx,
      wlRule = ex_rule, wlNodes = [ex_node1, ex_node2], wlPods = [0, 1], wlTarget = 1\<rparr>"

lemmas ex_defs =
  ex_cycle_def ex_scaled_def ex_packages_def ex_want_def ex_nginx_def ex_rule_def ex_policy_of_def
  ex_policy_def ex_node1_def ex_node2_def ex_pod_def ex_machine_def ex_client_def
  ex_manager_of_def ex_manager_def ex_handle_def ex_workload_def
  NewPlacementPolicyManager_def api_constants

lemmas label_defs = HasMatchingLabels_def checkHasLabels_def map_index_def

lemma ex_steady: "steady ex_packages ex_manager ex_handle ex_workload"
  by (simp add: steady_defs ex_defs namespace_policies_def len64_def)

lemma ex_fresh: "fresh_workload ex_workload ex_machine"
  by (simp add: fresh_workload_def workload_pod_def selects_def ex_defs label_defs pod_annotation_def)

subsection \<open>A run that places both pods\<close>

lemma ex_update_ok: "fst (decided_update ex_manager \<sigma> ns v) = (Some (decided_pod \<sigma> ns v), None)"
  by (simp add: decided_update_def ex_defs)

lemmas decision_defs =
  decision_def prefers_def placed_def matching_names_def counted_def pod_annotation_def len64_def
  word_sless_alt

definition ex_state :: "Pod \<Rightarrow> Pod \<Rightarrow> (pod_ref \<Rightarrow> Node option) \<Rightarrow> unit system" where
  "ex_state p q pend = \<lparr>machine_of = \<lparr>mem = [0 \<mapsto> p, 1 \<mapsto> q], world = ()\<rparr>, pending = pend\<rparr>"

definition ex_pod0 :: "bool option \<Rightarrow> string \<Rightarrow> Pod" where
  "ex_pod0 b node =
     (case b of None \<Rightarrow> ex_pod ''nginx-0'' | Some b \<Rightarrow> annotated ex_policy b (ex_pod ''nginx-0''))
     \<lparr>podNodeName := node\<rparr>"

definition ex_pod1 :: "bool option \<Rightarrow> string \<Rightarrow> Pod" where
  "ex_pod1 b node =
     (case b of None \<Rightarrow> ex_pod ''nginx-1'' | Some b \<Rightarrow> annotated ex_policy b (ex_pod ''nginx-1''))
     \<lparr>podNodeName := node\<rparr>"

lemmas ex_state_defs = ex_state_def ex_pod0_def ex_pod1_def

lemma ex_workload_pods:
  "workload_pod ex_workload (ex_pod0 b node)" "workload_pod ex_workload (ex_pod1 b node)"
  by (cases b; simp add: ex_pod0_def ex_pod1_def;
      simp add: workload_pod_def selects_def ex_defs label_defs)+

abbreviation ex_step :: "unit system \<Rightarrow> unit system \<Rightarrow> bool" where
  "ex_step \<equiv> sched_step ex_packages ex_cycle ex_manager ex_handle ex_workload"

abbreviation ex_reachable :: "unit system \<Rightarrow> bool" where
  "ex_reachable \<equiv> reachable ex_packages ex_cycle ex_manager ex_handle ex_workload"

lemma ex_step1:
  "ex_step (ex_state (ex_pod0 None '''') (ex_pod1 None '''') (\<lambda>_. None))
     (ex_state (ex_pod0 (Some True) '''') (ex_pod1 None '''') [0 \<mapsto> ex_node1])"
proof -
  let ?S = "ex_state (ex_pod0 None '''') (ex_pod1 None '''') (\<lambda>_. None)"
  let ?v = "workload_view ex_workload (ex_pod0 None '''')"
  have d: "decision (machine_of ?S) (wlNodes ex_workload) ?v"
    by (simp add: decision_defs ex_state_defs ex_defs label_defs)
  have "ex_step ?S (?S\<lparr>machine_of := decided_machine ex_manager 0 (machine_of ?S) (wlNodes ex_workload) ?v,
      pending := (pending ?S)(0 \<mapsto> ex_node1)\<rparr>)"
    by (rule Assign_decided [OF ex_steady ex_cycle_contract _ _ ex_workload_pods(1) _ ex_update_ok])
      (use d in \<open>simp_all add: schedulable_def wl_matches_def\<close>,
       simp_all add: ex_state_defs ex_defs label_defs)
  moreover have "decided_pod (machine_of ?S) (wlNodes ex_workload) ?v = ex_pod0 (Some True) ''''"
    using d by (simp add: decided_pod_def ex_pod0_def ex_workload_def annotated_def ex_pod_def)
  ultimately show ?thesis
    by (simp add: decided_machine_def ex_state_def fun_upd_twist)
qed

lemma ex_step2:
  "ex_step (ex_state (ex_pod0 (Some True) '''') (ex_pod1 None '''') [0 \<mapsto> ex_node1])
     (ex_state (ex_pod0 (Some True) ''worker'') (ex_pod1 None '''') (\<lambda>_. None))"
proof -
  let ?S = "ex_state (ex_pod0 (Some True) '''') (ex_pod1 None '''') [0 \<mapsto> ex_node1]"
  have "ex_step ?S (?S\<lparr>machine_of := (machine_of ?S)\<lparr>mem :=
      (mem (machine_of ?S))(0 \<mapsto> (ex_pod0 (Some True) '''')\<lparr>podNodeName := nodeName ex_node1\<rparr>)\<rparr>,
    pending := (pending ?S)(0 := None)\<rparr>)"
    by (rule Bind) (simp_all add: ex_state_def)
  then show ?thesis
    by (simp add: ex_state_def ex_pod0_def ex_node1_def fun_upd_twist)
qed

lemma ex_step3:
  "ex_step (ex_state (ex_pod0 (Some True) ''worker'') (ex_pod1 None '''') (\<lambda>_. None))
     (ex_state (ex_pod0 (Some True) ''worker'') (ex_pod1 (Some False) '''') [1 \<mapsto> ex_node2])"
proof -
  let ?S = "ex_state (ex_pod0 (Some True) ''worker'') (ex_pod1 None '''') (\<lambda>_. None)"
  let ?v = "workload_view ex_workload (ex_pod1 None '''')"
  have d: "\<not> decision (machine_of ?S) (wlNodes ex_workload) ?v"
    by (simp add: decision_defs ex_state_defs ex_defs label_defs)
  have "ex_step ?S (?S\<lparr>machine_of := decided_machine ex_manager 1 (machine_of ?S) (wlNodes ex_workload) ?v,
      pending := (pending ?S)(1 \<mapsto> ex_node2)\<rparr>)"
    by (rule Assign_decided [OF ex_steady ex_cycle_contract _ _ ex_workload_pods(2) _ ex_update_ok])
      (use d in \<open>simp_all add: schedulable_def wl_matches_def\<close>,
       simp_all add: ex_state_defs ex_defs label_defs)
  moreover have "decided_pod (machine_of ?S) (wlNodes ex_workload) ?v = ex_pod1 (Some False) ''''"
    using d by (simp add: decided_pod_def ex_pod1_def ex_workload_def annotated_def ex_pod_def)
  ultimately show ?thesis
    by (simp add: decided_machine_def ex_state_def)
qed

lemma ex_step4:
  "ex_step (ex_state (ex_pod0 (Some True) ''worker'') (ex_pod1 (Some False) '''') [1 \<mapsto> ex_node2])
     (ex_state (ex_pod0 (Some True) ''worker'') (ex_pod1 (Some False) ''worker3'') (\<lambda>_. None))"
proof -
  let ?S = "ex_state (ex_pod0 (Some True) ''worker'') (ex_pod1 (Some False) '''') [1 \<mapsto> ex_node2]"
  have "ex_step ?S (?S\<lparr>machine_of := (machine_of ?S)\<lparr>mem :=
      (mem (machine_of ?S))(1 \<mapsto> (ex_pod1 (Some False) '''')\<lparr>podNodeName := nodeName ex_node2\<rparr>)\<rparr>,
    pending := (pending ?S)(1 := None)\<rparr>)"
    by (rule Bind) (simp_all add: ex_state_def)
  then show ?thesis
    by (simp add: ex_state_def ex_pod1_def ex_node2_def)
qed

definition ex_placed :: "unit system" where
  "ex_placed = ex_state (ex_pod0 (Some True) ''worker'') (ex_pod1 (Some False) ''worker3'') (\<lambda>_. None)"

text \<open>The state on the way where the first pod is bound and the second is untouched.\<close>

definition ex_half :: "unit system" where
  "ex_half = ex_state (ex_pod0 (Some True) ''worker'') (ex_pod1 None '''') (\<lambda>_. None)"

lemma ex_half_reachable: "ex_reachable ex_half"
proof -
  have "ex_reachable \<lparr>machine_of = ex_machine, pending = (\<lambda>_. None)\<rparr>"
    by (rule Start [OF ex_fresh])
  moreover have "\<lparr>machine_of = ex_machine, pending = (\<lambda>_. None)\<rparr> =
      ex_state (ex_pod0 None '''') (ex_pod1 None '''') (\<lambda>_. None)"
    by (simp add: ex_state_defs ex_machine_def ex_pod_def)
  ultimately show ?thesis
    unfolding ex_half_def by (metis Step ex_step1 ex_step2)
qed

lemma ex_placed_reachable: "ex_reachable ex_placed"
  using ex_half_reachable unfolding ex_half_def ex_placed_def by (metis Step ex_step3 ex_step4)

lemma ex_workload_target: "wl_target ex_workload = 1"
  by (simp add: wl_target_def target_def ex_workload_def ex_rule_def api_constants)

lemma ex_workload_size: "length (wlPods ex_workload) = 2"
  by (simp add: ex_workload_def)

lemma ex_placed_nodes: "node_of ex_placed 0 = ''worker''" "node_of ex_placed 1 = ''worker3''"
  by (simp_all add: node_of_def ex_placed_def ex_state_defs)

subsection \<open>Single cycles\<close>

text \<open>The plugin with one policy of a given name, weight and mode, and a cycle that starts.\<close>

definition ex_plugin_of :: "PlacementPolicy list \<Rightarrow> unit Plugin" where
  "ex_plugin_of pps = new_Plugin ex_handle ex_packages (ex_manager_of pps)"

definition ex_new_cycle :: "string \<Rightarrow> StateData option" where
  "ex_new_cycle = (\<lambda>_. None)"

definition ex_soft :: PlacementPolicy where
  "ex_soft = ex_policy_of ''besteffort-must'' 100 EnforcementModeBestEffort"

lemma ex_plugin_mgr: "ppMgr (ex_plugin_of pps) = as_Manager ex_packages (ex_manager_of pps)"
  by (simp add: ex_plugin_of_def new_Plugin_def)

lemma ex_plugin_nodes:
  "NodeInfos_List (frameworkHandler (ex_plugin_of pps)) w = (map Some [ex_node1, ex_node2], None)"
  "NodeInfos_Get (frameworkHandler (ex_plugin_of pps)) w ''worker'' = (Some ex_node1, None)"
  by (simp_all add: ex_plugin_of_def new_Plugin_def ex_handle_def)

lemma ex_new_cycle_read: "csRead ex_cycle ex_new_cycle k = (None, Some FrameworkErrNotFound)"
  by (simp add: ex_cycle_def ex_new_cycle_def)

definition ex_view :: "PlacementPolicy \<Rightarrow> hook_view" where
  "ex_view pp = workload_view (ex_workload\<lparr>wlPolicies := [pp], wlPolicy := pp\<rparr>) (ex_pod ''nginx-0'')"

lemma ex_view_policy [simp]: "vPolicy (ex_view pp) = pp"
  by (simp add: ex_view_def)

lemma ex_get_policy:
  assumes "mem \<sigma> r = Some pod" "podNamespace pod = ''default''" "podLabels pod = [(''app'', ''nginx'')]"
  shows "GetPlacementPolicyForPod ex_packages (ex_manager_of [ex_policy_of x w mode]) \<sigma> r =
     Return (Some (ex_policy_of x w mode), None)"
proof -
  let ?pp = "ex_policy_of x w mode"
  have l: "namespace_policies ex_packages (ex_manager_of [?pp]) (world \<sigma>) (podNamespace pod) =
      Return ([?pp], None)"
    using assms(2) by (simp add: namespace_policies_def ex_defs)
  have "filterPlacementPolicyList [?pp] pod = Return [?pp]"
    using assms(3) by (simp add: filterPlacementPolicyList_eq selects_def ex_defs label_defs)
  then show ?thesis
    using GetPlacementPolicyForPod_eq [OF assms(1) l] by (simp add: by_weight_order_def slice_index_def)
qed

lemma ex_get_policy_0:
  "GetPlacementPolicyForPod ex_packages (ex_manager_of [ex_policy_of x w mode]) ex_machine 0 =
     Return (Some (ex_policy_of x w mode), None)"
  by (rule ex_get_policy [where pod = "ex_pod ''nginx-0''"]) (simp_all add: ex_machine_def ex_pod_def)

lemma ex_sees:
  "sees ex_packages (as_Manager ex_packages (ex_manager_of [ex_policy_of x w mode])) ex_machine 0
     (ex_view (ex_policy_of x w mode))"
  by (simp add: sees_def ex_get_policy_0 ex_view_def GetPodsWithLabels_def)
    (simp add: ex_defs len64_def)

lemma ex_sees_policy:
  "sees ex_packages (as_Manager ex_packages (ex_manager_of [ex_policy])) ex_machine 0 (ex_view ex_policy)"
  "sees ex_packages (as_Manager ex_packages (ex_manager_of [ex_soft])) ex_machine 0 (ex_view ex_soft)"
  unfolding ex_policy_def ex_soft_def by (rule ex_sees)+

lemma ex_policy_mode:
  "EnforcementModeOf (Spec ex_policy) = EnforcementModeStrict"
  "EnforcementModeOf (Spec ex_soft) = EnforcementModeBestEffort"
  "EnforcementModeOf (Spec ex_policy) \<noteq> EnforcementModeBestEffort"
  "EnforcementModeOf (Spec ex_soft) \<noteq> EnforcementModeStrict"
  by (simp_all add: ex_policy_def ex_soft_def ex_policy_of_def api_constants)

lemma ex_accepts: "fst (decided_update (ex_manager_of pps) \<sigma> ns v) = (Some (decided_pod \<sigma> ns v), None)"
  by (simp add: decided_update_def ex_defs)

lemma ex_pre_filter:
  "PreFilter ex_packages ex_cycle (ex_plugin_of [ex_policy]) ex_new_cycle 0 ex_machine =
    (Return ok_status,
     csWrite ex_cycle ex_new_cycle (getPreFilterStateKey (ex_plugin_of [ex_policy]))
       (NewStateData ''nginx-0'' (Some ex_policy)),
     decided_machine (ex_manager_of [ex_policy]) 0 ex_machine [ex_node1, ex_node2] (ex_view ex_policy))"
  by (simp add: core_pre_filter [OF ex_plugin_mgr ex_sees_policy(1) _ ex_plugin_nodes(1)] ex_policy_mode(3)
      ex_accepts finish_stage_def)
    (simp add: decided_pod_def ex_view_def ex_pod_def)

text \<open>A scheduler that may leave and select anything.\<close>

definition ex_any :: "unit scheduler" where
  "ex_any = \<lparr>feasible = (\<lambda>S r ns. True), selected = (\<lambda>scores x. True)\<rparr>"

lemma ex_placed_cycles:
  "(cycle_step ex_packages ex_cycle ex_manager ex_handle ex_any ex_workload)\<^sup>*\<^sup>* (starts ex_machine) ex_placed"
proof (rule sched_cycles)
  have "starts ex_machine = ex_state (ex_pod0 None '''') (ex_pod1 None '''') (\<lambda>_. None)"
    by (simp add: starts_def ex_state_defs ex_machine_def ex_pod_def)
  moreover note one = r_into_rtranclp [where r = ex_step]
  ultimately show "ex_step\<^sup>*\<^sup>* (starts ex_machine) ex_placed"
    using rtranclp_trans [OF rtranclp_trans [OF one [OF ex_step1] one [OF ex_step2]]
        rtranclp_trans [OF one [OF ex_step3] one [OF ex_step4]]]
    by (simp only: ex_placed_def)
qed (simp add: ex_any_def)

end
