(* ===== verification/Policy_Properties.thy ===== *)
theory Policy_Properties
  imports Example_Cluster
begin

section \<open>Properties of label matching, sorting, listing and policy choice\<close>

text \<open>
  What the plugin relies on before it decides anything: when labels match, in which order policies are considered, what the lister hands out, and
  which policy a pod gets. The components' lemmas carry the proofs; each property with a
  hypothesis is followed by an instance on the cluster of \<open>Example_Cluster\<close>.
\<close>

subsection \<open>Label matching\<close>

text \<open>
  C25: with no empty wanted value, \<open>HasMatchingLabels\<close> decides inclusion of the wanted
  labels in the object's labels; the length check in front never changes the answer.
\<close>

theorem HasMatchingLabels_submap:
  assumes "map_wf l" "map_wf want" "'''' \<notin> snd ` set want"
  shows "HasMatchingLabels l want \<longleftrightarrow> map_of want \<subseteq>\<^sub>m map_of l"
  using assms by (rule pod_labels.submap)

theorem HasMatchingLabels_submap_witness:
  "HasMatchingLabels [(''tier'', ''web''), (''app'', ''nginx'')] [(''app'', ''nginx'')] \<longleftrightarrow>
   map_of [(''app'', ''nginx'')] \<subseteq>\<^sub>m map_of [(''tier'', ''web''), (''app'', ''nginx'')]"
  by (rule HasMatchingLabels_submap) (simp_all add: map_wf_def)

text \<open>
  A wanted label with an empty value also matches an object that does not have the
  label at all: such a requirement can be added for a missing key without changing the
  answer, as long as the object has a label to spare for the length check.
\<close>

theorem empty_value_matches_missing_label:
  assumes "HasMatchingLabels l want" "map_of l k = None" "length want < length l"
  shows "HasMatchingLabels l ((k, '''') # want) \<and> \<not> map_of ((k, '''') # want) \<subseteq>\<^sub>m map_of l"
  using assms by (auto simp: pod_labels.matches_iff map_index_def map_le_def)

theorem empty_value_matches_missing_label_witness:
  "HasMatchingLabels [(''app'', ''nginx'')] [(''gpu'', '''')] \<and>
   \<not> map_of [(''gpu'', '''')] \<subseteq>\<^sub>m map_of [(''app'', ''nginx'')]"
  using empty_value_matches_missing_label [of "[(''app'', ''nginx'')]" "[]" "''gpu''"]
  by (simp add: pod_labels.matches_Nil)

text \<open>
  C26: the plugin's \<open>checkHasLabels\<close> and the utility \<open>HasMatchingLabels\<close> are one function,
  and its answer does not depend on the order in which Go visits the entries of a map.
\<close>

theorem label_routines_agree:
  assumes "mset want = mset want'" "mset l = mset l'" "map_wf l"
  shows "checkHasLabels l want = HasMatchingLabels l' want'"
  unfolding checkHasLabels_eq using assms by (rule pod_labels.order_independent)

theorem label_routines_agree_witness:
  "checkHasLabels [(''a'', ''1''), (''b'', ''2''), (''c'', ''3'')] [(''a'', ''1''), (''c'', ''3'')] =
   HasMatchingLabels [(''c'', ''3''), (''a'', ''1''), (''b'', ''2'')] [(''c'', ''3''), (''a'', ''1'')]"
  by (rule label_routines_agree) (simp_all add: map_wf_def)

subsection \<open>Sorting\<close>

text \<open>
  C24: sorting with \<open>ByWeight\<close> puts the heaviest policy first; \<open>sort.Reverse\<close>, which the
  manager wraps around it, puts the lightest first. Both keep the policies.
\<close>

theorem by_weight_orders:
  assumes "sort_contract srt"
  shows "mset (srt ByWeight_Less ByWeight_Swap (ByWeight_Len a) a) = mset a \<and>
    sorted_wrt (\<ge>) (map policy_weight (srt ByWeight_Less ByWeight_Swap (ByWeight_Len a) a)) \<and>
    mset (srt (Reverse_Less ByWeight_Less) ByWeight_Swap (ByWeight_Len a) a) = mset a \<and>
    sorted (map policy_weight (srt (Reverse_Less ByWeight_Less) ByWeight_Swap (ByWeight_Len a) a))"
  using by_weight.contract_sorts [OF assms, of a] reverse_by_weight.contract_sorts [OF assms, of a]
  by (simp add: ByWeight_Len_def sorted_wrt_map)

theorem by_weight_orders_witness:
  "let a = [ex_policy_of ''light'' 5 '''', ex_policy_of ''heavy'' 20 '''', ex_policy_of ''odd'' 10 '''']
   in sorted (map policy_weight (sort_Sort_12 (Reverse_Less ByWeight_Less) ByWeight_Swap (ByWeight_Len a) a))"
  using by_weight_orders [OF sort_Sort_12_contract] by (simp add: Let_def)

subsection \<open>The lister\<close>

text \<open>
  Listing the policies of a namespace succeeds with exactly the objects the cache
  hands out for that namespace, in order, and the cache's error; it panics when the cache
  holds anything that is not a policy. The lister of all namespaces does the same.
\<close>

theorem lister_returns_cache:
  "(pn_List (pl_PlacementPolicies (NewPlacementPolicyLister ix) ns) w sel = Return (pps, err)
      \<longleftrightarrow> ListAllByNamespace ix w ns sel = (map IfacePolicy pps, err)) \<and>
   (pl_List (NewPlacementPolicyLister ix) w sel = Return (pps, err)
      \<longleftrightarrow> ListAll ix w sel = (map IfacePolicy pps, err))"
  by (auto simp: NamespaceLister_List_policies Lister_List_policies
      dest: NamespaceLister_List_Return Lister_List_Return)

text \<open>
  \<open>GetPlacementPolicy\<close> finds a policy by namespace and name: over a cache that files
  each policy under the key \<open>namespace/name\<close>, the answer is the policy with exactly that
  namespace and that name, and otherwise the not-found error of the resource.
\<close>

theorem get_finds_policy:
  assumes "ppLister m = NewPlacementPolicyLister ix"
    and "\<forall>key. GetByKey ix (world \<sigma>) key =
      (case find (\<lambda>pp. ppNamespace pp @ ''/'' @ ppName pp = key) pps of
         None \<Rightarrow> (None, False, None) | Some pp \<Rightarrow> (Some (IfacePolicy pp), True, None))"
    and "CHR ''/'' \<notin> set ns" "\<forall>pp \<in> set pps. CHR ''/'' \<notin> set (ppNamespace pp)"
  shows "GetPlacementPolicy m \<sigma> ns name =
    Return (case find (\<lambda>pp. ppNamespace pp = ns \<and> ppName pp = name) pps of
       Some pp \<Rightarrow> (Some pp, None)
     | None \<Rightarrow> (None, Some (ApiNotFound
         \<lparr>grGroup = ''placement-policy.scheduling.x-k8s.io'', grResource = ''placementpolicy''\<rparr> name)))"
  using assms
  by (simp add: GetPlacementPolicy_def NamespaceLister_Get_def find_key
      Resource_def GroupResourceOf_def WithResource_def SchemeGroupVersion_def GroupName_def
      split: option.split)

theorem get_finds_policy_witness:
  "GetPlacementPolicy ex_manager ex_machine ''default'' ''strict-must'' = Return (Some ex_policy, None) \<and>
   GetPlacementPolicy ex_manager ex_machine ''default'' ''other'' =
     Return (None, Some (ApiNotFound
       \<lparr>grGroup = ''placement-policy.scheduling.x-k8s.io'', grResource = ''placementpolicy''\<rparr> ''other''))"
proof -
  have l: "ppLister ex_manager = NewPlacementPolicyLister (ex_indexer [ex_policy])" by (simp add: ex_defs)
  have g: "\<forall>key. GetByKey (ex_indexer [ex_policy]) (world ex_machine) key =
      (case find (\<lambda>pp. ppNamespace pp @ ''/'' @ ppName pp = key) [ex_policy] of
         None \<Rightarrow> (None, False, None) | Some pp \<Rightarrow> (Some (IfacePolicy pp), True, None))"
    by (simp add: ex_defs)
  have "CHR ''/'' \<notin> set ''default''" "\<forall>pp \<in> set [ex_policy]. CHR ''/'' \<notin> set (ppNamespace pp)"
    by (simp_all add: ex_defs)
  note f = get_finds_policy [OF l g this]
  show ?thesis using f [of "''strict-must''"] f [of "''other''"] by (simp add: ex_defs)
qed

subsection \<open>The policy of a pod\<close>

text \<open>
  C22: when every policy of the pod's namespace has a pod selector, the manager returns no
  policy exactly when none of them selects the pod, and otherwise a policy of that
  namespace that selects the pod and whose weight is least among those that do.
\<close>

theorem policy_choice:
  assumes "sort_contract (sort_Sort pk)" "mem \<sigma> r = Some pod"
    and "namespace_policies pk m (world \<sigma>) (podNamespace pod) = Return (pps, None)"
    and "\<forall>pp \<in> set pps. PodSelector (Spec pp) \<noteq> None"
  shows "\<exists>res. GetPlacementPolicyForPod pk m \<sigma> r = Return (res, None) \<and>
    (case res of
       None \<Rightarrow> \<forall>pp \<in> set pps. \<not> selects pp pod
     | Some pp \<Rightarrow> pp \<in> set pps \<and> selects pp pod \<and>
         (\<forall>pp' \<in> set pps. selects pp' pod \<longrightarrow> policy_weight pp \<le> policy_weight pp'))"
  using least_selecting_chosen [OF assms] unfolding least_selecting_def .

lemma everything_listed:
  assumes "ppLister m = NewPlacementPolicyLister ix" "cache_contract ix held chosen w"
    and "\<forall>pp. chosen (labels_Everything pk) pp" "ns \<noteq> ''''"
  obtains pps where "namespace_policies pk m w ns = Return (pps, None)"
    "set pps = {pp \<in> held w. ppNamespace pp = ns}"
  using cached.lists_namespace [OF assms(2,4), of "labels_Everything pk"] assms(1,3) that
  by (auto simp: namespace_policies_def simp del: new_lister_simps)

text \<open>
  C23: over the cache of an informer the manager's two look-ups agree: it returns no policy
  for a pod exactly when no cached policy of the pod's namespace selects it, and otherwise a
  cached policy of that namespace which selects the pod with least weight, and which
  \<open>GetPlacementPolicy\<close> finds again under its name.
\<close>

theorem chosen_policy_is_found:
  assumes "ppLister m = NewPlacementPolicyLister ix" "cache_contract ix held chosen (world \<sigma>)"
    and "\<forall>pp. chosen (labels_Everything pk) pp" "sort_contract (sort_Sort pk)"
    and "mem \<sigma> r = Some pod" "podNamespace pod \<noteq> ''''" "CHR ''/'' \<notin> set (podNamespace pod)"
    and "\<forall>pp \<in> held (world \<sigma>). ppNamespace pp = podNamespace pod \<longrightarrow> PodSelector (Spec pp) \<noteq> None"
  shows "\<exists>res. GetPlacementPolicyForPod pk m \<sigma> r = Return (res, None) \<and>
    (case res of
       None \<Rightarrow> \<forall>pp \<in> held (world \<sigma>). ppNamespace pp = podNamespace pod \<longrightarrow> \<not> selects pp pod
     | Some pp \<Rightarrow> pp \<in> held (world \<sigma>) \<and> ppNamespace pp = podNamespace pod \<and> selects pp pod \<and>
         (\<forall>pp' \<in> held (world \<sigma>). ppNamespace pp' = podNamespace pod \<and> selects pp' pod \<longrightarrow>
            policy_weight pp \<le> policy_weight pp') \<and>
         GetPlacementPolicy m \<sigma> (podNamespace pod) (ppName pp) = Return (Some pp, None))"
proof -
  from everything_listed [OF assms(1-3,6)] obtain pps where
    pps: "namespace_policies pk m (world \<sigma>) (podNamespace pod) = Return (pps, None)"
    "set pps = {pp \<in> held (world \<sigma>). ppNamespace pp = podNamespace pod}" .
  have "\<forall>pp \<in> set pps. PodSelector (Spec pp) \<noteq> None" using pps(2) assms(8) by simp
  from least_selecting_chosen [OF assms(4,5) pps(1) this] obtain res where
    res: "GetPlacementPolicyForPod pk m \<sigma> r = Return (res, None)" "least_selecting pod pps res" by blast
  have "GetPlacementPolicy m \<sigma> (podNamespace pod) (ppName pp) = Return (Some pp, None)" if "res = Some pp" for pp
    using res(2) that cached.gets [OF assms(2,7), of pp "ppName pp"] pps(2)
    by (simp add: least_selecting_def GetPlacementPolicy_def assms(1) del: new_lister_simps)
  with res pps(2) show ?thesis
    by (intro exI [of _ res]) (auto simp: least_selecting_def split: option.splits)
qed

definition ex_two_policies :: "PlacementPolicy list" where
  "ex_two_policies = [ex_policy_of ''heavy'' 20 EnforcementModeStrict,
     ex_policy_of ''light'' 10 EnforcementModeBestEffort]"

theorem policy_choice_witness:
  "\<exists>res. GetPlacementPolicyForPod ex_packages (ex_manager_of ex_two_policies) ex_machine 0 = Return (res, None) \<and>
    (case res of
       None \<Rightarrow> \<forall>pp \<in> set ex_two_policies. \<not> selects pp (ex_pod ''nginx-0'')
     | Some pp \<Rightarrow> pp \<in> set ex_two_policies \<and> selects pp (ex_pod ''nginx-0'') \<and>
         (\<forall>pp' \<in> set ex_two_policies. selects pp' (ex_pod ''nginx-0'') \<longrightarrow>
            policy_weight pp \<le> policy_weight pp'))"
  by (rule policy_choice)
    (simp_all add: ex_two_policies_def ex_defs namespace_policies_def sort_Sort_12_contract)

lemma ex_cache:
  "cache_contract (ex_indexer ex_two_policies) (\<lambda>w. set ex_two_policies) (\<lambda>sel pp. True) ()"
proof -
  have d: "distinct ex_two_policies" by (simp add: ex_two_policies_def ex_policy_of_def)
  have n: "pp \<in> set ex_two_policies \<Longrightarrow> ppNamespace pp = ''default''" for pp
    by (auto simp: ex_two_policies_def ex_policy_of_def)
  show ?thesis
    unfolding cache_contract_def
  proof (intro conjI allI ballI impI)
    show "GetByKey (ex_indexer ex_two_policies) () (ppNamespace p @ ''/'' @ ppName p) = (Some (IfacePolicy p), True, None)"
      if "p \<in> set ex_two_policies" for p
      using that by (auto simp: ex_two_policies_def ex_policy_of_def)
    show "GetByKey (ex_indexer ex_two_policies) () key = (None, False, None)"
      if "\<forall>p \<in> set ex_two_policies. ppNamespace p @ ''/'' @ ppName p \<noteq> key" for key
    proof -
      have "filter (\<lambda>pp. ppNamespace pp @ ''/'' @ ppName pp = key) ex_two_policies = []"
        using that by (simp add: filter_empty_conv)
      then show ?thesis by simp
    qed
    show "CHR ''/'' \<notin> set (ppNamespace p)" if "p \<in> set ex_two_policies" for p
      using n [OF that] by simp
    show "\<exists>pps. ListAll (ex_indexer ex_two_policies) () sel = (map IfacePolicy pps, None) \<and> distinct pps \<and>
        set pps = {p \<in> set ex_two_policies. True}" for sel
      using d by (intro exI [of _ ex_two_policies]) (simp add: ex_indexer_def)
    show "\<exists>pps. ListAllByNamespace (ex_indexer ex_two_policies) () ns sel = (map IfacePolicy pps, None) \<and> distinct pps \<and>
        set pps = {p \<in> set ex_two_policies. ppNamespace p = ns \<and> True}" for ns sel
      using d by (intro exI [of _ "filter (\<lambda>pp. ppNamespace pp = ns) ex_two_policies"]) (auto simp: ex_indexer_def)
  qed
qed

theorem chosen_policy_is_found_witness:
  "\<exists>pp. GetPlacementPolicyForPod ex_packages (ex_manager_of ex_two_policies) ex_machine 0 = Return (Some pp, None) \<and>
     GetPlacementPolicy (ex_manager_of ex_two_policies) ex_machine ''default'' (ppName pp) = Return (Some pp, None)"
proof -
  have sel: "\<exists>pp \<in> set ex_two_policies. ppNamespace pp = ''default'' \<and> selects pp (ex_pod ''nginx-0'')"
    by (simp add: ex_two_policies_def selects_def ex_defs label_defs)
  have "\<exists>res. GetPlacementPolicyForPod ex_packages (ex_manager_of ex_two_policies) ex_machine 0 = Return (res, None) \<and>
    (case res of
       None \<Rightarrow> \<forall>pp \<in> set ex_two_policies. ppNamespace pp = podNamespace (ex_pod ''nginx-0'') \<longrightarrow> \<not> selects pp (ex_pod ''nginx-0'')
     | Some pp \<Rightarrow> pp \<in> set ex_two_policies \<and> ppNamespace pp = podNamespace (ex_pod ''nginx-0'') \<and> selects pp (ex_pod ''nginx-0'') \<and>
         (\<forall>pp' \<in> set ex_two_policies. ppNamespace pp' = podNamespace (ex_pod ''nginx-0'') \<and> selects pp' (ex_pod ''nginx-0'') \<longrightarrow>
            policy_weight pp \<le> policy_weight pp') \<and>
         GetPlacementPolicy (ex_manager_of ex_two_policies) ex_machine (podNamespace (ex_pod ''nginx-0'')) (ppName pp) =
           Return (Some pp, None))"
    by (rule chosen_policy_is_found [where held = "\<lambda>w. set ex_two_policies" and chosen = "\<lambda>sel pp. True" and
          ix = "ex_indexer ex_two_policies"])
      (use ex_cache in \<open>simp_all add: ex_two_policies_def ex_defs sort_Sort_12_contract\<close>)
  moreover have "podNamespace (ex_pod ''nginx-0'') = ''default''" by (simp add: ex_pod_def)
  ultimately show ?thesis using sel by (auto split: option.splits)
qed

text \<open>
  An instance of the choice: of two policies that select a pod, the one with the smaller weight is the one the
  manager returns, whatever their enforcement modes: a BestEffort policy of weight 10 wins
  over a Strict policy of weight 20.
\<close>

theorem lighter_policy_wins:
  "GetPlacementPolicyForPod ex_packages (ex_manager_of ex_two_policies) ex_machine 0 =
     Return (Some (ex_policy_of ''light'' 10 EnforcementModeBestEffort), None)"
proof -
  let ?pod = "ex_pod ''nginx-0''"
  have pod: "mem ex_machine 0 = Some ?pod"
    by (simp add: ex_machine_def)
  have l: "namespace_policies ex_packages (ex_manager_of ex_two_policies) (world ex_machine) (podNamespace ?pod) =
      Return (ex_two_policies, None)"
    by (simp add: namespace_policies_def ex_two_policies_def ex_defs)
  have f: "filterPlacementPolicyList ex_two_policies ?pod = Return ex_two_policies"
    by (simp add: filterPlacementPolicyList_eq selects_def ex_two_policies_def ex_defs label_defs)
  have "by_weight_order ex_packages ex_two_policies ! 0 = ex_policy_of ''light'' 10 EnforcementModeBestEffort"
    "0 < length (by_weight_order ex_packages ex_two_policies)"
    by (simp_all add: by_weight_order_def ex_packages_def sort_Sort_12_def insertionSort_def shell_pass_def
        Reverse_Less_def ByWeight_Less_def ByWeight_Swap_def ex_two_policies_def ex_policy_of_def upt_rec)
  then show ?thesis
    using GetPlacementPolicyForPod_eq [OF pod l] f by (simp add: slice_index_def ex_two_policies_def)
qed

end
