(* ===== verification/Hook_Properties.thy ===== *)
theory Hook_Properties
  imports Example_Cluster
begin

section \<open>Properties of the scheduling hooks\<close>

text \<open>
  One scheduling cycle: what a pre-hook decides and writes, what the hook after it makes
  of that for every node, which hook a policy's mode switches off, and what happens on
  the error and nil paths. The facts come from \<open>Placement_Decision\<close>, where the manager's
  interface is interpreted on the policy manager of the code.
\<close>

subsection \<open>A cycle under a policy\<close>

text \<open>
  C12: under a policy whose mode is not BestEffort, a pod whose policy, pods and nodes are
  found and whose update the API server accepts goes through \<open>PreFilter\<close> successfully, and
  \<open>Filter\<close> then accepts exactly the nodes on the side of the decision: the nodes with the
  policy's labels when fewer pods than the target are placed there, the others when not.
  The comparison is on unbounded integers, the 64-bit arithmetic does not wrap.
\<close>

theorem filter_follows_target:
  assumes "ppMgr p = as_Manager pk m" "cycle_contract cy" "sees pk (as_Manager pk m) \<sigma> r v"
    and "EnforcementModeOf (Spec (vPolicy v)) \<noteq> EnforcementModeBestEffort"
    and "NodeInfos_List (frameworkHandler p) (world \<sigma>) = (map Some ns, None)"
    and "fst (decided_update m \<sigma> ns v) = (Some pod', None)"
    and "length (vPods v) < 2 ^ 62" "- (2 ^ 62) \<le> sint (vTarget v)"
  shows "\<exists>st' \<sigma>'. PreFilter pk cy p st r \<sigma> = (Return ok_status, st', \<sigma>') \<and>
    (\<forall>n. Filter cy p st' r (Some n) \<sigma>' =
      Return (if checkHasLabels (nodeLabels n) (MatchLabels (vNodeSelector v)) \<longleftrightarrow>
                 int (length (placed (mem \<sigma>) (matching_names (vNodeSelector v) ns) (podUID (vPod v)) (vPods v)))
                   < target (PolicyAction (vRule v)) (sint (vTarget v)) (length (vPods v))
              then ok_status else Some (NewStatus Unschedulable (Text ''''))))"
  using pre_filter_then_filter [OF assms(1-6), of st] unfolding decision_iff [OF assms(7,8)] by blast

theorem filter_follows_target_witness:
  "\<exists>st' \<sigma>'. PreFilter ex_packages ex_cycle (ex_plugin_of [ex_policy]) ex_new_cycle 0 ex_machine =
      (Return ok_status, st', \<sigma>') \<and>
    Filter ex_cycle (ex_plugin_of [ex_policy]) st' 0 (Some ex_node1) \<sigma>' = Return ok_status \<and>
    Filter ex_cycle (ex_plugin_of [ex_policy]) st' 0 (Some ex_node2) \<sigma>' =
      Return (Some (NewStatus Unschedulable (Text '''')))"
proof -
  let ?v = "ex_view ex_policy" and ?p = "ex_plugin_of [ex_policy]"
  have bounds: "length (vPods ?v) < 2 ^ 62" "- (2 ^ 62) \<le> sint (vTarget ?v)"
    and n: "checkHasLabels (nodeLabels ex_node1) (MatchLabels (vNodeSelector ?v))"
      "\<not> checkHasLabels (nodeLabels ex_node2) (MatchLabels (vNodeSelector ?v))"
    and d: "int (length (placed (mem ex_machine) (matching_names (vNodeSelector ?v) [ex_node1, ex_node2])
      (podUID (vPod ?v)) (vPods ?v))) < target (PolicyAction (vRule ?v)) (sint (vTarget ?v)) (length (vPods ?v))"
    by (simp_all add: ex_view_def ex_defs label_defs placed_def counted_def pod_annotation_def target_def)
  have mode: "EnforcementModeOf (Spec (vPolicy ?v)) \<noteq> EnforcementModeBestEffort"
    by (simp add: ex_policy_mode(3))
  from filter_follows_target [OF ex_plugin_mgr ex_cycle_contract ex_sees_policy(1) mode ex_plugin_nodes(1)
      ex_accepts bounds, of ex_new_cycle] n d
  show ?thesis by auto
qed

text \<open>
  C13: under a policy whose mode is not Strict, \<open>PreScore\<close> succeeds in the same way over the
  feasible nodes, and \<open>Score\<close> then gives 100 to every node on the side of the decision and
  0 to every other.
\<close>

theorem score_follows_target:
  assumes "ppMgr p = as_Manager pk m" "cycle_contract cy" "sees pk (as_Manager pk m) \<sigma> r v"
    and "EnforcementModeOf (Spec (vPolicy v)) \<noteq> EnforcementModeStrict"
    and "fst (decided_update m \<sigma> ns v) = (Some pod', None)"
    and "length (vPods v) < 2 ^ 62" "- (2 ^ 62) \<le> sint (vTarget v)"
  shows "\<exists>st' \<sigma>'. PreScore pk cy p st r (map Some ns) \<sigma> = (Return ok_status, st', \<sigma>') \<and>
    (\<forall>x n. NodeInfos_Get (frameworkHandler p) (world \<sigma>') x = (Some n, None) \<longrightarrow>
      Score cy p st' r x \<sigma>' =
      Return (if checkHasLabels (nodeLabels n) (MatchLabels (vNodeSelector v)) \<longleftrightarrow>
                 int (length (placed (mem \<sigma>) (matching_names (vNodeSelector v) ns) (podUID (vPod v)) (vPods v)))
                   < target (PolicyAction (vRule v)) (sint (vTarget v)) (length (vPods v))
              then 100 else 0, None))"
proof -
  let ?st' = "csWrite cy st (getPreScoreStateKey p) (NewStateData (podName pod') (Some (vPolicy v)))"
  let ?\<sigma>' = "decided_machine m r \<sigma> ns v"
  have pre: "PreScore pk cy p st r (map Some ns) \<sigma> = (Return ok_status, ?st', ?\<sigma>')"
    using assms(5) by (simp add: core_pre_score [OF assms(1,3,4)] finish_stage_def)
  have "Score cy p ?st' r x ?\<sigma>' =
      Return (if checkHasLabels (nodeLabels n) (MatchLabels (vNodeSelector v)) = decision \<sigma> ns v
              then 100 else 0, None)"
    if "NodeInfos_Get (frameworkHandler p) (world ?\<sigma>') x = (Some n, None)" for x n
    by (rule Score_reads [of cy _ _ "podName pod'" "vPolicy v" _ _ _ _ r "vPolicy v" _ "vPod v"])
      (use assms(2,3) that in \<open>simp_all add: cycle_contract_read sees_def decided_pod_def\<close>)
  with pre show ?thesis unfolding decision_iff [OF assms(6,7)] by blast
qed

theorem score_follows_target_witness:
  "\<exists>st' \<sigma>'. PreScore ex_packages ex_cycle (ex_plugin_of [ex_soft]) ex_new_cycle 0
      (map Some [ex_node1, ex_node2]) ex_machine = (Return ok_status, st', \<sigma>') \<and>
    Score ex_cycle (ex_plugin_of [ex_soft]) st' 0 ''worker'' \<sigma>' = Return (100, None)"
proof -
  let ?v = "ex_view ex_soft" and ?p = "ex_plugin_of [ex_soft]"
  have bounds: "length (vPods ?v) < 2 ^ 62" "- (2 ^ 62) \<le> sint (vTarget ?v)"
    and n: "checkHasLabels (nodeLabels ex_node1) (MatchLabels (vNodeSelector ?v))"
    and d: "int (length (placed (mem ex_machine) (matching_names (vNodeSelector ?v) [ex_node1, ex_node2])
      (podUID (vPod ?v)) (vPods ?v))) < target (PolicyAction (vRule ?v)) (sint (vTarget ?v)) (length (vPods ?v))"
    by (simp_all add: ex_view_def ex_defs label_defs placed_def counted_def pod_annotation_def target_def)
  have mode: "EnforcementModeOf (Spec (vPolicy ?v)) \<noteq> EnforcementModeStrict"
    by (simp add: ex_policy_mode(4))
  from score_follows_target [OF ex_plugin_mgr ex_cycle_contract ex_sees_policy(2) mode
      ex_accepts bounds, of ex_new_cycle "[ex_node1, ex_node2]"] n d ex_plugin_nodes(2)
  show ?thesis by auto
qed

subsection \<open>Which hook a mode switches off\<close>

text \<open>
  C14: which pre-hook handles a pod depends on the mode of its policy alone: \<open>PreFilter\<close> leaves
  BestEffort policies to \<open>PreScore\<close>, \<open>PreScore\<close> leaves Strict policies to \<open>PreFilter\<close>, and a
  policy with any other mode (the empty mode of a policy that leaves the field out, for one)
  is handled by both. On the same nodes the two that run do the same: they annotate the pod
  with the same decision, and, if the update is accepted, succeed and write the same entry,
  each under its own key; if not, they fail with the same error and write none.
\<close>

theorem mode_selects_hooks:
  assumes "ppMgr p = as_Manager pk m" "sees pk (as_Manager pk m) \<sigma> r v"
    and "NodeInfos_List (frameworkHandler p) (world \<sigma>) = (map Some ns, None)"
    and "fst (decided_update m \<sigma> ns v) = (Some pod', err)"
  shows "\<exists>\<sigma>'. mem \<sigma>' = (mem \<sigma>)(r \<mapsto> annotated (vPolicy v) (decision \<sigma> ns v) (vPod v)) \<and>
    (let handles = (\<lambda>key. case err of
           None \<Rightarrow> (Return ok_status, csWrite cy st key (NewStateData (podName pod') (Some (vPolicy v))), \<sigma>')
         | Some e \<Rightarrow> (Return (error_status (Sprintf ''failed to annotate pod %s: %v''
             [ArgString (podName pod'), ArgError e])), st, \<sigma>'));
         mode = EnforcementModeOf (Spec (vPolicy v))
     in PreFilter pk cy p st r \<sigma> =
          (if mode = EnforcementModeBestEffort then (Return ok_status, st, \<sigma>) else handles (getPreFilterStateKey p)) \<and>
        PreScore pk cy p st r (map Some ns) \<sigma> =
          (if mode = EnforcementModeStrict then (Return ok_status, st, \<sigma>) else handles (getPreScoreStateKey p)))"
proof (intro exI conjI)
  let ?\<sigma>' = "decided_machine m r \<sigma> ns v" and ?mode = "EnforcementModeOf (Spec (vPolicy v))"
  show "mem ?\<sigma>' = (mem \<sigma>)(r \<mapsto> annotated (vPolicy v) (decision \<sigma> ns v) (vPod v))" by (simp add: decided_pod_def)
  have policy: "mGetPlacementPolicyForPod (as_Manager pk m) \<sigma> r = Return (Some (vPolicy v), None)"
    using assms(2) by (simp only: sees_def)
  have f: "PreFilter pk cy p st r \<sigma> = (if ?mode = EnforcementModeBestEffort then (Return ok_status, st, \<sigma>)
      else finish_stage cy (getPreFilterStateKey p) (vPolicy v) st (Return (Some pod', err)) ?\<sigma>')"
  proof (cases "?mode = EnforcementModeBestEffort")
    case True
    then show ?thesis by (simp add: PreFilter_stage assms(1) core_manager.guard_skips [OF policy])
  next
    case False
    with core_pre_filter [OF assms(1,2) False assms(3), of cy st] assms(4) show ?thesis by simp
  qed
  have s: "PreScore pk cy p st r (map Some ns) \<sigma> = (if ?mode = EnforcementModeStrict then (Return ok_status, st, \<sigma>)
      else finish_stage cy (getPreScoreStateKey p) (vPolicy v) st (Return (Some pod', err)) ?\<sigma>')"
  proof (cases "?mode = EnforcementModeStrict")
    case True
    then show ?thesis by (simp add: PreScore_stage assms(1) core_manager.guard_skips [OF policy])
  next
    case False
    with core_pre_score [OF assms(1,2) False, of cy st ns] assms(4) show ?thesis by simp
  qed
  show "let handles = (\<lambda>key. case err of
           None \<Rightarrow> (Return ok_status, csWrite cy st key (NewStateData (podName pod') (Some (vPolicy v))), ?\<sigma>')
         | Some e \<Rightarrow> (Return (error_status (Sprintf ''failed to annotate pod %s: %v''
             [ArgString (podName pod'), ArgError e])), st, ?\<sigma>'));
         mode = EnforcementModeOf (Spec (vPolicy v))
     in PreFilter pk cy p st r \<sigma> =
          (if mode = EnforcementModeBestEffort then (Return ok_status, st, \<sigma>) else handles (getPreFilterStateKey p)) \<and>
        PreScore pk cy p st r (map Some ns) \<sigma> =
          (if mode = EnforcementModeStrict then (Return ok_status, st, \<sigma>) else handles (getPreScoreStateKey p))"
    unfolding f s by (cases err) (simp_all add: finish_stage_def Let_def)
qed

text \<open>A policy without a mode: both pre-hooks decide.\<close>

theorem mode_selects_hooks_witness:
  "let p = ex_plugin_of [ex_policy_of ''default-mode'' 100 '''']; d = NewStateData ''nginx-0'' (Some (ex_policy_of ''default-mode'' 100 ''''))
   in \<exists>\<sigma>'. map_option (\<lambda>P. pod_annotation P PlacementPolicyPreferenceAnnotationKey) (mem \<sigma>' 0) = Some ''true'' \<and>
    PreFilter ex_packages ex_cycle p ex_new_cycle 0 ex_machine =
      (Return ok_status, csWrite ex_cycle ex_new_cycle (getPreFilterStateKey p) d, \<sigma>') \<and>
    PreScore ex_packages ex_cycle p ex_new_cycle 0 (map Some [ex_node1, ex_node2]) ex_machine =
      (Return ok_status, csWrite ex_cycle ex_new_cycle (getPreScoreStateKey p) d, \<sigma>')"
proof -
  let ?pp = "ex_policy_of ''default-mode'' 100 ''''" and ?ns = "[ex_node1, ex_node2]"
  let ?v = "ex_view ?pp"
  have d: "decision ex_machine ?ns ?v"
    by (simp add: decision_defs ex_view_def) (simp add: ex_defs label_defs)
  have mode: "EnforcementModeOf (Spec ?pp) \<noteq> EnforcementModeBestEffort" "EnforcementModeOf (Spec ?pp) \<noteq> EnforcementModeStrict"
    by (simp_all add: ex_policy_of_def api_constants)
  have name: "podName (decided_pod ex_machine ?ns ?v) = ''nginx-0''"
    by (simp add: decided_pod_def ex_view_def ex_pod_def)
  from mode_selects_hooks [OF ex_plugin_mgr ex_sees [of "''default-mode''" 100 "''''"] ex_plugin_nodes(1) ex_accepts,
      where cy = ex_cycle and st = ex_new_cycle]
  obtain \<sigma>' where "mem \<sigma>' = (mem ex_machine)(0 \<mapsto> annotated ?pp (decision ex_machine ?ns ?v) (vPod ?v))"
    "PreFilter ex_packages ex_cycle (ex_plugin_of [?pp]) ex_new_cycle 0 ex_machine =
      (Return ok_status, csWrite ex_cycle ex_new_cycle (getPreFilterStateKey (ex_plugin_of [?pp]))
         (NewStateData ''nginx-0'' (Some ?pp)), \<sigma>')"
    "PreScore ex_packages ex_cycle (ex_plugin_of [?pp]) ex_new_cycle 0 (map Some ?ns) ex_machine =
      (Return ok_status, csWrite ex_cycle ex_new_cycle (getPreScoreStateKey (ex_plugin_of [?pp]))
         (NewStateData ''nginx-0'' (Some ?pp)), \<sigma>')"
    by (auto simp: Let_def mode name)
  with d show ?thesis unfolding Let_def by (intro exI [of _ \<sigma>']) simp
qed

text \<open>
  Under a BestEffort policy the filter hooks do nothing: \<open>PreFilter\<close> succeeds without
  touching the cycle state, the pod or the world, and \<open>Filter\<close> accepts every node.
\<close>

theorem best_effort_never_filters:
  assumes "mGetPlacementPolicyForPod (ppMgr p) \<sigma> r = Return (Some pp, None)"
    and "EnforcementModeOf (Spec pp) = EnforcementModeBestEffort"
    and "csRead cy st (getPreFilterStateKey p) = (data, Some FrameworkErrNotFound)"
  shows "PreFilter pk cy p st r \<sigma> = (Return ok_status, st, \<sigma>) \<and>
    (\<forall>n \<sigma>'. Filter cy p st r (Some n) \<sigma>' = Return ok_status)"
  using assms by (simp add: PreFilter_stage policy_guard_def Filter_def)

theorem best_effort_never_filters_witness:
  "PreFilter ex_packages ex_cycle (ex_plugin_of [ex_soft]) ex_new_cycle 0 ex_machine =
     (Return ok_status, ex_new_cycle, ex_machine) \<and>
   (\<forall>n \<sigma>'. Filter ex_cycle (ex_plugin_of [ex_soft]) ex_new_cycle 0 (Some n) \<sigma>' = Return ok_status)"
  by (rule best_effort_never_filters [where pp = ex_soft and data = None])
    (simp_all add: ex_plugin_mgr ex_soft_def ex_get_policy_0 ex_new_cycle_read, simp add: ex_policy_of_def)

text \<open>
  After the \<open>PreFilter\<close> of a cycle, whatever it returned, the scoring hooks do nothing
  if the pod's policy is Strict: \<open>PreScore\<close> succeeds without an effect, and every node scores
  0 because the entry of \<open>PreFilter\<close> is not under the key that \<open>Score\<close> reads.
\<close>

theorem strict_never_scores:
  assumes "cycle_contract cy" "csRead cy st (getPreScoreStateKey p) = (data, Some FrameworkErrNotFound)"
    and "PreFilter pk cy p st r \<sigma> = (out, st', \<sigma>')"
    and "mGetPlacementPolicyForPod (ppMgr p) \<sigma>' r = Return (Some pp, None)"
    and "EnforcementModeOf (Spec pp) = EnforcementModeStrict"
  shows "PreScore pk cy p st' r nodes \<sigma>' = (Return ok_status, st', \<sigma>') \<and>
    (\<forall>x \<sigma>''. Score cy p st' r x \<sigma>'' = Return (0, None))"
proof -
  have "csRead cy st' (getPreScoreStateKey p) = (data, Some FrameworkErrNotFound)"
    using PreFilter_read [OF assms(1,3), of "getPreScoreStateKey p"] assms(2) by simp
  then show ?thesis
    using assms(4,5) by (simp add: PreScore_stage policy_guard_def Score_def)
qed

theorem strict_never_scores_witness:
  "\<exists>st' \<sigma>'. PreFilter ex_packages ex_cycle (ex_plugin_of [ex_policy]) ex_new_cycle 0 ex_machine =
      (Return ok_status, st', \<sigma>') \<and>
    PreScore ex_packages ex_cycle (ex_plugin_of [ex_policy]) st' 0 [Some ex_node1] \<sigma>' = (Return ok_status, st', \<sigma>') \<and>
    (\<forall>x \<sigma>''. Score ex_cycle (ex_plugin_of [ex_policy]) st' 0 x \<sigma>'' = Return (0, None))"
proof -
  let ?p = "ex_plugin_of [ex_policy]"
  let ?\<sigma>' = "decided_machine (ex_manager_of [ex_policy]) 0 ex_machine [ex_node1, ex_node2] (ex_view ex_policy)"
  have "GetPlacementPolicyForPod ex_packages (ex_manager_of [ex_policy_of ''strict-must'' 100 EnforcementModeStrict]) ?\<sigma>' 0 =
      Return (Some (ex_policy_of ''strict-must'' 100 EnforcementModeStrict), None)"
    by (rule ex_get_policy [where pod = "decided_pod ex_machine [ex_node1, ex_node2] (ex_view ex_policy)"])
      (simp_all add: decided_pod_def ex_view_def ex_pod_def)
  then have "mGetPlacementPolicyForPod (ppMgr ?p) ?\<sigma>' 0 = Return (Some ex_policy, None)"
    by (simp add: ex_plugin_mgr ex_policy_def)
  from strict_never_scores [OF ex_cycle_contract ex_new_cycle_read ex_pre_filter this ex_policy_mode(1)]
  show ?thesis using ex_pre_filter by blast
qed

text \<open>
  C16: a pod that no policy of its namespace selects is left alone: both pre-hooks succeed
  without an effect, every node passes \<open>Filter\<close> and scores 0.
\<close>

theorem unselected_pod_is_left_alone:
  assumes "ppMgr p = as_Manager pk m" "mem \<sigma> r = Some pod"
    and "namespace_policies pk m (world \<sigma>) (podNamespace pod) = Return (pps, None)"
    and "\<forall>pp \<in> set pps. PodSelector (Spec pp) \<noteq> None \<and> \<not> selects pp pod"
    and "csRead cy st (getPreFilterStateKey p) = (data, Some FrameworkErrNotFound)"
    and "csRead cy st (getPreScoreStateKey p) = (data', Some FrameworkErrNotFound)"
  shows "PreFilter pk cy p st r \<sigma> = (Return ok_status, st, \<sigma>) \<and>
    PreScore pk cy p st r nodes \<sigma> = (Return ok_status, st, \<sigma>) \<and>
    (\<forall>n. Filter cy p st r (Some n) \<sigma> = Return ok_status) \<and>
    (\<forall>x. Score cy p st r x \<sigma> = Return (0, None))"
proof -
  have "filterPlacementPolicyList pps pod = Return []"
    using assms(4) by (simp add: filterPlacementPolicyList_eq filter_empty_conv)
  then have "GetPlacementPolicyForPod pk m \<sigma> r = Return (None, None)"
    using GetPlacementPolicyForPod_eq [OF assms(2,3)] by simp
  with assms(1,2) have "policy_guard (ppMgr p) skip st r \<sigma> k = (Return ok_status, st, \<sigma>)" for skip k
    by (simp add: core_manager.guard_no_policy)
  with assms(5,6) show ?thesis
    by (simp add: PreFilter_stage PreScore_stage Filter_def Score_def)
qed

theorem unselected_pod_is_left_alone_witness:
  "let p = ex_plugin_of [ex_policy];
       \<sigma> = ex_machine\<lparr>mem := [0 \<mapsto> (ex_pod ''web-0'')\<lparr>podLabels := [(''app'', ''web'')]\<rparr>]\<rparr>
   in PreFilter ex_packages ex_cycle p ex_new_cycle 0 \<sigma> = (Return ok_status, ex_new_cycle, \<sigma>) \<and>
      PreScore ex_packages ex_cycle p ex_new_cycle 0 [Some ex_node1] \<sigma> = (Return ok_status, ex_new_cycle, \<sigma>) \<and>
      (\<forall>n. Filter ex_cycle p ex_new_cycle 0 (Some n) \<sigma> = Return ok_status) \<and>
      (\<forall>x. Score ex_cycle p ex_new_cycle 0 x \<sigma> = Return (0, None))"
  unfolding Let_def
  by (rule unselected_pod_is_left_alone [OF ex_plugin_mgr, where pps = "[ex_policy]" and data = None and data' = None])
    (simp_all add: ex_new_cycle_read, simp_all add: namespace_policies_def selects_def ex_defs label_defs)

subsection \<open>What a hook may change\<close>

text \<open>
  C17: whatever a pre-hook returns, panics included, no Pod struct but that of the pod being
  scheduled has changed, and of that pod only the two annotations of the plugin have.
\<close>

theorem hooks_frame:
  assumes "ppMgr p = as_Manager pk m"
    and "PreFilter pk cy p st r \<sigma> = (out, st', \<sigma>') \<or> PreScore pk cy p st r nodes \<sigma> = (out, st', \<sigma>')"
  shows "(\<forall>q. q \<noteq> r \<longrightarrow> mem \<sigma>' q = mem \<sigma> q) \<and>
    (case mem \<sigma> r of
       None \<Rightarrow> mem \<sigma>' r = None
     | Some pod \<Rightarrow> \<exists>pod'. mem \<sigma>' r = Some pod' \<and>
         pod'\<lparr>podAnnotations := podAnnotations pod\<rparr> = pod \<and>
         (\<forall>k. k \<notin> {PlacementPolicyAnnotationKey, PlacementPolicyPreferenceAnnotationKey} \<longrightarrow>
            pod_annotation pod' k = pod_annotation pod k))"
proof -
  have "annotates_only \<sigma> st r \<sigma>' st'"
    using assms(2)
    by (elim disjE core_manager.pre_filter_frame [OF assms(1)] core_manager.pre_score_frame [OF assms(1)])
  then show ?thesis
    by (auto simp: annotates_only_def annotated_other annotated_strip split: option.split)
qed

theorem hooks_frame_witness:
  "let \<sigma>' = snd (snd (PreFilter ex_packages ex_cycle (ex_plugin_of [ex_policy]) ex_new_cycle 0 ex_machine))
   in mem \<sigma>' 1 = mem ex_machine 1"
  using hooks_frame [OF ex_plugin_mgr disjI1 [OF ex_pre_filter]]
  by (simp add: ex_pre_filter)

text \<open>
  C18: when the API server refuses the update, \<open>PreFilter\<close> reports an error and writes no
  entry, but the decision stays on the Pod struct it was handed: from then on the pod,
  which has no node, counts as placed in the cycles of the other pods if the decision was
  true.
\<close>

theorem failed_update_still_counts:
  assumes "ppMgr p = as_Manager pk m" "sees pk (as_Manager pk m) \<sigma> r v"
    and "EnforcementModeOf (Spec (vPolicy v)) \<noteq> EnforcementModeBestEffort"
    and "NodeInfos_List (frameworkHandler p) (world \<sigma>) = (map Some ns, None)"
    and "fst (decided_update m \<sigma> ns v) = (Some pod', Some e)" "podNodeName (vPod v) = ''''"
  shows "\<exists>\<sigma>'. PreFilter pk cy p st r \<sigma> =
      (Return (error_status (Sprintf ''failed to annotate pod %s: %v'' [ArgString (podName pod'), ArgError e])), st, \<sigma>') \<and>
    (\<forall>names uid. uid \<noteq> podUID (vPod v) \<longrightarrow>
       placed (mem \<sigma>') names uid [r] = (if decision \<sigma> ns v then [r] else []))"
  using assms(5,6)
  by (auto simp: core_pre_filter [OF assms(1,2,3,4)] finish_stage_def placed_def counted_def decided_pod_def)

definition ex_refusing :: "(unit, strmap) PlacementPolicyManager" where
  "ex_refusing = (ex_manager_of [ex_policy])\<lparr>client :=
     \<lparr>Pods_Update = (\<lambda>ns pod w. ((Some pod, Some (External ''conflict'')), w))\<rparr>\<rparr>"

theorem failed_update_still_counts_witness:
  "\<exists>\<sigma>'. PreFilter ex_packages ex_cycle (new_Plugin ex_handle ex_packages ex_refusing) ex_new_cycle 0 ex_machine =
      (Return (error_status (Sprintf ''failed to annotate pod %s: %v''
        [ArgString ''nginx-0'', ArgError (External ''conflict'')])), ex_new_cycle, \<sigma>') \<and>
    placed (mem \<sigma>') {} ''nginx-1'' [0] = [0]"
proof -
  let ?p = "new_Plugin ex_handle ex_packages ex_refusing" and ?v = "ex_view ex_policy"
  let ?ns = "[ex_node1, ex_node2]"
  have mgr: "ppMgr ?p = as_Manager ex_packages ex_refusing" by (simp add: new_Plugin_def)
  have same: "GetPlacementPolicyForPod ex_packages ex_refusing = GetPlacementPolicyForPod ex_packages (ex_manager_of [ex_policy])"
    "GetPodsWithLabels ex_packages ex_refusing = GetPodsWithLabels ex_packages (ex_manager_of [ex_policy])"
    by (simp_all add: fun_eq_iff GetPlacementPolicyForPod_def GetPodsWithLabels_def ex_refusing_def)
  have sees: "sees ex_packages (as_Manager ex_packages ex_refusing) ex_machine 0 ?v"
    using ex_sees_policy(1) by (simp add: sees_def same)
  have mode: "EnforcementModeOf (Spec (vPolicy ?v)) \<noteq> EnforcementModeBestEffort"
    by (simp add: ex_policy_mode(3))
  have nodes: "NodeInfos_List (frameworkHandler ?p) (world ex_machine) = (map Some ?ns, None)"
    by (simp add: new_Plugin_def ex_handle_def)
  have upd: "fst (decided_update ex_refusing ex_machine ?ns ?v) =
      (Some (decided_pod ex_machine ?ns ?v), Some (External ''conflict''))"
    by (simp add: decided_update_def ex_refusing_def)
  have d: "decision ex_machine ?ns ?v" "podNodeName (vPod ?v) = ''''" "podUID (vPod ?v) = ''nginx-0''"
    "podName (decided_pod ex_machine ?ns ?v) = ''nginx-0''"
    by (simp_all add: decided_pod_def ex_view_def ex_pod_def)
      (simp add: decision_defs ex_defs label_defs)
  show ?thesis
    using failed_update_still_counts [OF mgr sees mode nodes upd d(2), of ex_cycle ex_new_cycle] d by auto
qed

subsection \<open>Nil pointers\<close>

text \<open>
  C19: one policy without a pod selector in a namespace makes both pre-hooks panic for every
  pod of that namespace, whether or not another policy selects the pod.
\<close>

theorem nil_pod_selector_panics:
  assumes "ppMgr p = as_Manager pk m" "mem \<sigma> r = Some pod"
    and "namespace_policies pk m (world \<sigma>) (podNamespace pod) = Return (pps, None)"
    and "\<exists>pp \<in> set pps. PodSelector (Spec pp) = None"
  shows "PreFilter pk cy p st r \<sigma> = (Panic NilDereference, st, \<sigma>) \<and>
    PreScore pk cy p st r nodes \<sigma> = (Panic NilDereference, st, \<sigma>)"
  using assms(1) GetPlacementPolicyForPod_eq [OF assms(2,3)]
    filterPlacementPolicyList_nil_selector [OF assms(4), of pod]
  by (simp add: PreFilter_stage PreScore_stage policy_guard_def)

theorem nil_pod_selector_panics_witness:
  "let p = ex_plugin_of [ex_policy, ex_soft\<lparr>Spec := (Spec ex_soft)\<lparr>PodSelector := None\<rparr>\<rparr>]
   in PreFilter ex_packages ex_cycle p ex_new_cycle 0 ex_machine = (Panic NilDereference, ex_new_cycle, ex_machine) \<and>
      PreScore ex_packages ex_cycle p ex_new_cycle 0 [Some ex_node1] ex_machine =
        (Panic NilDereference, ex_new_cycle, ex_machine)"
  unfolding Let_def
  by (rule nil_pod_selector_panics [OF ex_plugin_mgr, where pod = "ex_pod ''nginx-0''" and
        pps = "[ex_policy, ex_soft\<lparr>Spec := (Spec ex_soft)\<lparr>PodSelector := None\<rparr>\<rparr>]"])
    (simp_all add: ex_machine_def namespace_policies_def, simp add: ex_soft_def ex_defs)

text \<open>
  C20: a policy without a node selector makes the pre-hook that is responsible for its mode
  panic on every pod the policy is chosen for.
\<close>

theorem nil_node_selector_panics:
  assumes "mGetPlacementPolicyForPod (ppMgr p) \<sigma> r = Return (Some pp, None)"
    and "NodeSelector (Spec pp) = None"
    and "NodeInfos_List (frameworkHandler p) (world \<sigma>) = (nodes, None)"
  shows "(EnforcementModeOf (Spec pp) \<noteq> EnforcementModeBestEffort \<longrightarrow>
      PreFilter pk cy p st r \<sigma> = (Panic NilDereference, st, \<sigma>)) \<and>
    (EnforcementModeOf (Spec pp) \<noteq> EnforcementModeStrict \<longrightarrow>
      PreScore pk cy p st r nodes \<sigma> = (Panic NilDereference, st, \<sigma>))"
  using assms by (simp add: PreFilter_stage PreScore_stage policy_guard_def placement_stage_def)

theorem nil_node_selector_panics_witness:
  "let pp = ex_policy\<lparr>Spec := (Spec ex_policy)\<lparr>NodeSelector := None\<rparr>\<rparr>
   in PreFilter ex_packages ex_cycle (ex_plugin_of [pp]) ex_new_cycle 0 ex_machine =
        (Panic NilDereference, ex_new_cycle, ex_machine)"
proof -
  let ?pp = "ex_policy\<lparr>Spec := (Spec ex_policy)\<lparr>NodeSelector := None\<rparr>\<rparr>" and ?pod = "ex_pod ''nginx-0''"
  have pod: "mem ex_machine 0 = Some ?pod" by (simp add: ex_machine_def)
  have l: "namespace_policies ex_packages (ex_manager_of [?pp]) (world ex_machine) (podNamespace ?pod) =
      Return ([?pp], None)"
    by (simp add: namespace_policies_def ex_defs)
  have "filterPlacementPolicyList [?pp] ?pod = Return [?pp]"
    by (simp add: filterPlacementPolicyList_eq selects_def ex_defs label_defs)
  then have "mGetPlacementPolicyForPod (ppMgr (ex_plugin_of [?pp])) ex_machine 0 = Return (Some ?pp, None)"
    using GetPlacementPolicyForPod_eq [OF pod l]
    by (simp add: ex_plugin_mgr by_weight_order_def slice_index_def)
  from nil_node_selector_panics [OF this _ ex_plugin_nodes(1), of ex_packages ex_cycle ex_new_cycle]
  show ?thesis by (simp add: ex_policy_mode(3) Let_def)
qed

subsection \<open>Filter and Score\<close>

text \<open>
  C21: on the same entry, pod and node, \<open>Filter\<close> and \<open>Score\<close> take the same decision:
  success is 100, unschedulable is 0, an error is the same error, a panic the same panic.
\<close>

theorem score_mirrors_filter:
  assumes "csRead cy st (getPreFilterStateKey p) = (Some d, None)"
    and "csRead cy st (getPreScoreStateKey p) = (Some d, None)"
    and "NodeInfos_Get (frameworkHandler p) (world \<sigma>) x = (Some n, None)"
  shows "Score cy p st r x \<sigma> = go_bind (Filter cy p st r (Some n) \<sigma>) (\<lambda>s. Return
    (if s = ok_status then (100, None)
     else if s = Some (NewStatus Unschedulable (Text '''')) then (0, None)
     else (0, s)))"
proof (cases d)
  case (StateOther t)
  with assms show ?thesis by (simp add: Score_def Filter_def error_status_def ok_status_def)
next
  case (StatePlacement sd)
  with assms show ?thesis
    by (cases "statePolicy sd"; cases "NodeSelector (Spec (the (statePolicy sd)))"; cases "mem \<sigma> r")
      (auto simp: Score_def Filter_def Let_def ok_status_def error_status_def split: option.split)
qed

theorem score_mirrors_filter_witness:
  "let p = ex_plugin_of [ex_policy]; d = NewStateData ''nginx-0'' (Some ex_policy);
       st = csWrite ex_cycle (csWrite ex_cycle ex_new_cycle (getPreFilterStateKey p) d) (getPreScoreStateKey p) d
   in Score ex_cycle p st 0 ''worker'' ex_machine =
      go_bind (Filter ex_cycle p st 0 (Some ex_node1) ex_machine) (\<lambda>s. Return
        (if s = ok_status then (100, None)
         else if s = Some (NewStatus Unschedulable (Text '''')) then (0, None)
         else (0, s)))"
  unfolding Let_def
  by (rule score_mirrors_filter)
    (simp_all add: cycle_contract_read [OF ex_cycle_contract] ex_plugin_nodes)

end
