(* ===== verification/Selection_Properties.thy ===== *)
theory Selection_Properties
  imports Example_Cluster
begin

section \<open>Properties of what a decision takes in\<close>

text \<open>
  Which policies and nodes a selector picks, and which pods are counted for a policy, as seen
  from the filtering hooks: match labels without match expressions, pods of every namespace,
  and pods that another policy has decided on.
\<close>

subsection \<open>What selectors select\<close>

text \<open>
  C27: of a selector the plugin evaluates the match labels and never the match expressions.
  A namespace's policies are narrowed down to exactly those whose pod selector, stripped of its
  expressions, selects the pod in the documented sense; this is the documented answer if and
  only if each of these policies' expressions hold of the pod. For nodes, after an accepted
  \<open>PreFilter\<close> a node passes \<open>Filter\<close> exactly if the stripped node selector agrees with the
  decision: when the policy's nodes are wanted, a node with the match labels passes although
  an expression excludes it. Wanted values are not empty, label keys are distinct.
\<close>

theorem expressions_are_not_evaluated:
  assumes "\<forall>pp \<in> set pps. \<exists>sel. PodSelector (Spec pp) = Some sel \<and> plain_labels sel" "map_wf (podLabels pod)"
    and "ppMgr p = as_Manager pk m" "cycle_contract cy" "accepting m" "sees pk (as_Manager pk m) \<sigma> r v"
    and "EnforcementModeOf (Spec (vPolicy v)) \<noteq> EnforcementModeBestEffort"
    and "NodeInfos_List (frameworkHandler p) (world \<sigma>) = (map Some ns, None)"
    and "plain_labels (vNodeSelector v)" "\<forall>n \<in> set ns. map_wf (nodeLabels n)"
  shows "(let selecting = filter (\<lambda>pp. label_query ((the (PodSelector (Spec pp)))\<lparr>MatchExpressions := []\<rparr>) (podLabels pod)) pps
     in filterPlacementPolicyList pps pod = Return selecting \<and>
       (selecting = filter (\<lambda>pp. label_query (the (PodSelector (Spec pp))) (podLabels pod)) pps \<longleftrightarrow>
         (\<forall>pp \<in> set selecting. \<forall>req \<in> set (MatchExpressions (the (PodSelector (Spec pp)))).
            requirement_holds req (podLabels pod)))) \<and>
    (\<exists>st' \<sigma>'. PreFilter pk cy p st r \<sigma> = (Return ok_status, st', \<sigma>') \<and>
      (\<forall>n \<in> set ns. Filter cy p st' r (Some n) \<sigma>' = Return ok_status \<longleftrightarrow>
        label_query ((vNodeSelector v)\<lparr>MatchExpressions := []\<rparr>) (nodeLabels n) = decision \<sigma> ns v))"
proof
  let ?stripped = "\<lambda>pp. label_query ((the (PodSelector (Spec pp)))\<lparr>MatchExpressions := []\<rparr>) (podLabels pod)"
  have "selects pp pod \<longleftrightarrow> ?stripped pp" if "pp \<in> set pps" for pp
    using assms(1,2) that by (auto simp: selects_def pod_labels.decides_match_labels dest!: bspec)
  moreover have "\<forall>pp \<in> set pps. PodSelector (Spec pp) \<noteq> None" using assms(1) by fastforce
  ultimately have "filterPlacementPolicyList pps pod = Return (filter ?stripped pps)"
    by (simp add: filterPlacementPolicyList_eq cong: filter_cong)
  moreover have q: "label_query (the (PodSelector (Spec pp))) (podLabels pod) \<longleftrightarrow> ?stripped pp \<and>
      list_all (\<lambda>req. requirement_holds req (podLabels pod)) (MatchExpressions (the (PodSelector (Spec pp))))" for pp
    by (rule label_query_split)
  have "filter ?stripped pps = filter (\<lambda>pp. label_query (the (PodSelector (Spec pp))) (podLabels pod)) pps \<longleftrightarrow>
      (\<forall>pp \<in> set (filter ?stripped pps). \<forall>req \<in> set (MatchExpressions (the (PodSelector (Spec pp)))).
         requirement_holds req (podLabels pod))"
    using filter_conj_same [of ?stripped pps "\<lambda>pp. list_all (\<lambda>req. requirement_holds req (podLabels pod))
        (MatchExpressions (the (PodSelector (Spec pp))))"]
    by (simp only: q list_all_iff)
  ultimately show "let selecting = filter ?stripped pps
     in filterPlacementPolicyList pps pod = Return selecting \<and>
       (selecting = filter (\<lambda>pp. label_query (the (PodSelector (Spec pp))) (podLabels pod)) pps \<longleftrightarrow>
         (\<forall>pp \<in> set selecting. \<forall>req \<in> set (MatchExpressions (the (PodSelector (Spec pp)))).
            requirement_holds req (podLabels pod)))" by (simp only: Let_def)
  have "checkHasLabels (nodeLabels n) (MatchLabels (vNodeSelector v)) \<longleftrightarrow>
      label_query ((vNodeSelector v)\<lparr>MatchExpressions := []\<rparr>) (nodeLabels n)" if "n \<in> set ns" for n
    using assms(9,10) that by (simp add: node_labels.decides_match_labels)
  moreover obtain pod' where "fst (decided_update m \<sigma> ns v) = (Some pod', None)"
    using accepting_update [OF assms(5)] by blast
  ultimately show "\<exists>st' \<sigma>'. PreFilter pk cy p st r \<sigma> = (Return ok_status, st', \<sigma>') \<and>
      (\<forall>n \<in> set ns. Filter cy p st' r (Some n) \<sigma>' = Return ok_status \<longleftrightarrow>
        label_query ((vNodeSelector v)\<lparr>MatchExpressions := []\<rparr>) (nodeLabels n) = decision \<sigma> ns v)"
    using pre_filter_then_filter [OF assms(3,4,6,7,8), of pod' st] by (fastforce simp: ok_status_def)
qed

text \<open>A node selector that no node satisfies, and a policy for pods that are not a pod's.\<close>

definition ex_strange :: PlacementPolicy where
  "ex_strange = (let never = [\<lparr>reqKey = ''app'', reqOperator = ''Exists'', reqValues = []\<rparr>,
         \<lparr>reqKey = ''app'', reqOperator = ''DoesNotExist'', reqValues = []\<rparr>];
       pp = ex_policy_of ''strange'' 100 EnforcementModeStrict in
     pp\<lparr>Spec := (Spec pp)\<lparr>PodSelector := Some (ex_nginx\<lparr>MatchExpressions := never\<rparr>),
       NodeSelector := Some (ex_want\<lparr>MatchExpressions := never\<rparr>)\<rparr>\<rparr>)"

definition ex_strange_view :: hook_view where
  "ex_strange_view = \<lparr>vPod = ex_pod ''nginx-0'', vPolicy = ex_strange, vNodeSelector = the (NodeSelector (Spec ex_strange)),
     vPodSelector = the (PodSelector (Spec ex_strange)), vRule = ex_rule, vPods = [0, 1], vTarget = 1\<rparr>"

lemmas ex_strange_defs = ex_strange_def Let_def

lemma ex_strange_selects: "filterPlacementPolicyList [ex_strange] (ex_pod ''nginx-0'') = Return [ex_strange]"
  by (simp add: filterPlacementPolicyList_eq selects_def ex_strange_defs ex_nginx_def ex_pod_def label_defs)

lemma ex_strange_sees:
  "sees ex_packages (as_Manager ex_packages (ex_manager_of [ex_strange])) ex_machine 0 ex_strange_view"
proof -
  have "mem ex_machine 0 = Some (ex_pod ''nginx-0'')" by (simp add: ex_machine_def)
  moreover have "namespace_policies ex_packages (ex_manager_of [ex_strange]) (world ex_machine) (podNamespace (ex_pod ''nginx-0'')) =
      Return ([ex_strange], None)"
    by (simp add: namespace_policies_def ex_manager_of_def NewPlacementPolicyManager_def ex_pod_def)
      (simp add: ex_strange_defs ex_policy_of_def)
  ultimately have "GetPlacementPolicyForPod ex_packages (ex_manager_of [ex_strange]) ex_machine 0 = Return (Some ex_strange, None)"
    by (simp add: GetPlacementPolicyForPod_eq ex_strange_selects by_weight_order_def slice_index_def)
  then show ?thesis
    by (simp add: sees_def ex_strange_view_def GetPodsWithLabels_def) (simp add: ex_strange_defs ex_defs len64_def)
qed

theorem expressions_are_not_evaluated_witness:
  "filterPlacementPolicyList [ex_strange] (ex_pod ''nginx-0'') = Return [ex_strange] \<and>
   \<not> label_query (the (PodSelector (Spec ex_strange))) (podLabels (ex_pod ''nginx-0'')) \<and>
   \<not> label_query (the (NodeSelector (Spec ex_strange))) (nodeLabels ex_node1) \<and>
   (\<exists>st' \<sigma>'. PreFilter ex_packages ex_cycle (ex_plugin_of [ex_strange]) ex_new_cycle 0 ex_machine = (Return ok_status, st', \<sigma>') \<and>
      Filter ex_cycle (ex_plugin_of [ex_strange]) st' 0 (Some ex_node1) \<sigma>' = Return ok_status)"
proof -
  let ?ns = "[ex_node1, ex_node2]" and ?pod = "ex_pod ''nginx-0''"
  have sel: "PodSelector (Spec ex_strange) \<noteq> None" "plain_labels (the (PodSelector (Spec ex_strange)))"
    "plain_labels (vNodeSelector ex_strange_view)" "map_wf (podLabels ?pod)" "\<forall>n \<in> set ?ns. map_wf (nodeLabels n)"
    by (simp_all add: ex_strange_view_def ex_strange_defs plain_labels_def map_wf_def ex_nginx_def ex_want_def ex_pod_def
        ex_node1_def ex_node2_def)
  have q: "label_query ((the (PodSelector (Spec ex_strange)))\<lparr>MatchExpressions := []\<rparr>) (podLabels ?pod)"
    "label_query ((vNodeSelector ex_strange_view)\<lparr>MatchExpressions := []\<rparr>) (nodeLabels ex_node1)"
    "\<not> label_query (the (PodSelector (Spec ex_strange))) (podLabels ?pod)"
    "\<not> label_query (the (NodeSelector (Spec ex_strange))) (nodeLabels ex_node1)"
    by (simp_all add: ex_strange_view_def ex_strange_defs label_query_def requirement_holds_def ex_nginx_def ex_want_def ex_pod_def ex_node1_def)
  have d: "decision ex_machine ?ns ex_strange_view"
    by (simp add: decision_defs ex_strange_view_def) (simp add: ex_strange_defs ex_defs label_defs)
  have acc: "accepting (ex_manager_of [ex_strange])" by (simp add: accepting_def ex_defs)
  have mode: "EnforcementModeOf (Spec (vPolicy ex_strange_view)) \<noteq> EnforcementModeBestEffort"
    by (simp add: ex_strange_view_def ex_strange_defs ex_policy_of_def api_constants)
  have "\<forall>pp \<in> set [ex_strange]. \<exists>sel. PodSelector (Spec pp) = Some sel \<and> plain_labels sel" using sel(1,2) by auto
  from expressions_are_not_evaluated [OF this sel(4) ex_plugin_mgr ex_cycle_contract acc ex_strange_sees mode
      ex_plugin_nodes(1) sel(3,5), of ex_new_cycle] d q(2)
  have "\<exists>st' \<sigma>'. PreFilter ex_packages ex_cycle (ex_plugin_of [ex_strange]) ex_new_cycle 0 ex_machine = (Return ok_status, st', \<sigma>') \<and>
      Filter ex_cycle (ex_plugin_of [ex_strange]) st' 0 (Some ex_node1) \<sigma>' = Return ok_status" by fastforce
  with ex_strange_selects q(3,4) show ?thesis by blast
qed

subsection \<open>Pods of other namespaces\<close>

text \<open>
  C30: policies apply to pods of their own namespace, but the pods of every namespace count
  for them. Over a pod cache that lists, as client-go documents, all its pods with given
  labels, a node passes \<open>Filter\<close> after an accepted \<open>PreFilter\<close> exactly if it is on the side of
  the comparison of all placed pods with the policy's labels, those of the pod's namespace and
  those of the others, with a target that is scaled by, and for \<open>MustNot\<close> subtracted from, the
  number of both. In particular, pods of other namespaces alone can fill a policy's target.
\<close>

theorem pods_of_all_namespaces_count:
  fixes all \<sigma> pod psel
  defines "listed \<equiv> filter (\<lambda>q. \<forall>(k, v) \<in> set (MatchLabels psel). map_of (podLabels (the (mem \<sigma> q))) k = Some v) all"
    and "own \<equiv> \<lambda>q. podNamespace (the (mem \<sigma> q)) = podNamespace pod"
  assumes "ppMgr p = as_Manager pk m" "cycle_contract cy" "accepting m" "pod_cache pk m \<sigma> all"
    and "mem \<sigma> r = Some pod" "GetPlacementPolicyForPod pk m \<sigma> r = Return (Some pp, None)"
    and "EnforcementModeOf (Spec pp) \<noteq> EnforcementModeBestEffort"
    and "NodeSelector (Spec pp) = Some nsel" "PodSelector (Spec pp) = Some psel" "PolicyOf (Spec pp) = Some rule"
    and "GetScaledValueFromIntOrPercent pk (TargetSize rule) (len64 listed) False = (t, None)"
    and "NodeInfos_List (frameworkHandler p) (world \<sigma>) = (map Some ns, None)"
    and "length listed < 2 ^ 62" "- (2 ^ 62) \<le> sint t"
  shows "\<exists>st' \<sigma>'. PreFilter pk cy p st r \<sigma> = (Return ok_status, st', \<sigma>') \<and>
    (\<forall>n. Filter cy p st' r (Some n) \<sigma>' = Return ok_status \<longleftrightarrow>
      (checkHasLabels (nodeLabels n) (MatchLabels nsel) \<longleftrightarrow>
        int (length (placed (mem \<sigma>) (matching_names nsel ns) (podUID pod) (filter own listed))) +
        int (length (placed (mem \<sigma>) (matching_names nsel ns) (podUID pod) (filter (\<lambda>q. \<not> own q) listed)))
        < target (PolicyAction rule) (sint t) (length (filter own listed) + length (filter (\<lambda>q. \<not> own q) listed))))"
proof -
  let ?v = "\<lparr>vPod = pod, vPolicy = pp, vNodeSelector = nsel, vPodSelector = psel, vRule = rule, vPods = listed, vTarget = t\<rparr>"
  have sees: "sees pk (as_Manager pk m) \<sigma> r ?v"
    using assms(6-8,10-13) by (auto simp: sees_def GetPodsWithLabels_def pod_cache_def listed_def)
  obtain pod' where upd: "fst (decided_update m \<sigma> ns ?v) = (Some pod', None)"
    using accepting_update [OF assms(5)] by blast
  have count: "int (length (placed (mem \<sigma>) names uid (filter own listed))) +
      int (length (placed (mem \<sigma>) names uid (filter (\<lambda>q. \<not> own q) listed))) = int (length (placed (mem \<sigma>) names uid listed))" for names uid
    unfolding placed_filter using sum_length_filter_compl [of own "placed (mem \<sigma>) names uid listed"] by simp
  have total: "length (filter own listed) + length (filter (\<lambda>q. \<not> own q) listed) = length listed"
    by (rule sum_length_filter_compl)
  have d: "decision \<sigma> ns ?v \<longleftrightarrow> int (length (placed (mem \<sigma>) (matching_names nsel ns) (podUID pod) listed))
      < target (PolicyAction rule) (sint t) (length listed)"
    using decision_iff [of ?v \<sigma> ns] assms(15,16) by simp
  from pre_filter_then_filter [OF assms(3,4) sees _ assms(14) upd, of st] assms(9)
  obtain st' where "PreFilter pk cy p st r \<sigma> = (Return ok_status, st', decided_machine m r \<sigma> ns ?v)"
    "\<forall>n. Filter cy p st' r (Some n) (decided_machine m r \<sigma> ns ?v) =
      Return (if checkHasLabels (nodeLabels n) (MatchLabels nsel) = decision \<sigma> ns ?v
              then ok_status else Some (NewStatus Unschedulable (Text '''')))" by auto
  then show ?thesis unfolding count total d by (auto simp: ok_status_def)
qed

text \<open>
  The next pod of a policy with a target of one is turned away from its nodes by a pod of
  another namespace on one of them.
\<close>

definition ex_foreign_machine :: "unit machine" where
  "ex_foreign_machine = ex_machine\<lparr>mem := [0 \<mapsto> ex_pod ''nginx-0'',
     1 \<mapsto> (ex_pod ''other-0'')\<lparr>podNamespace := ''other'', podNodeName := ''worker''\<rparr>]\<rparr>"

definition ex_caching :: "(unit, strmap) PlacementPolicyManager" where
  "ex_caching = (ex_manager_of [ex_policy])\<lparr>podLister := (\<lambda>\<sigma> sel.
     (filter (\<lambda>q. \<forall>(k, v) \<in> set sel. map_of (podLabels (the (mem \<sigma> q))) k = Some v) [0, 1], None))\<rparr>"

theorem pods_of_all_namespaces_count_witness:
  "podNamespace (the (mem ex_foreign_machine 1)) \<noteq> podNamespace (the (mem ex_foreign_machine 0)) \<and>
   (\<exists>st' \<sigma>'. PreFilter ex_packages ex_cycle (new_Plugin ex_handle ex_packages ex_caching) ex_new_cycle 0 ex_foreign_machine =
       (Return ok_status, st', \<sigma>') \<and>
     Filter ex_cycle (new_Plugin ex_handle ex_packages ex_caching) st' 0 (Some ex_node1) \<sigma>' \<noteq> Return ok_status)"
proof
  let ?p = "new_Plugin ex_handle ex_packages ex_caching" and ?\<sigma> = ex_foreign_machine and ?ns = "[ex_node1, ex_node2]"
  show "podNamespace (the (mem ?\<sigma> 1)) \<noteq> podNamespace (the (mem ?\<sigma> 0))"
    by (simp add: ex_foreign_machine_def ex_pod_def)
  have pods: "mem ?\<sigma> 0 = Some (ex_pod ''nginx-0'')" "podLabels (the (mem ?\<sigma> 0)) = [(''app'', ''nginx'')]"
    "podLabels (the (mem ?\<sigma> (Suc 0))) = [(''app'', ''nginx'')]" "podUID (the (mem ?\<sigma> 0)) = ''nginx-0''"
    "podUID (the (mem ?\<sigma> (Suc 0))) = ''other-0''" "podNodeName (the (mem ?\<sigma> (Suc 0))) = ''worker''"
    "podNamespace (the (mem ?\<sigma> 0)) = ''default''" "podNamespace (the (mem ?\<sigma> (Suc 0))) = ''other''"
    by (simp_all add: ex_foreign_machine_def ex_pod_def)
  have cache: "pod_cache ex_packages ex_caching ?\<sigma> [0, 1]"
    by (simp add: pod_cache_def ex_caching_def ex_packages_def) (simp add: ex_foreign_machine_def)
  have acc: "accepting ex_caching"
    by (simp add: accepting_def ex_caching_def) (simp add: ex_defs)
  have "GetPlacementPolicyForPod ex_packages (ex_manager_of [ex_policy]) ?\<sigma> 0 = Return (Some ex_policy, None)"
    unfolding ex_policy_def by (rule ex_get_policy [OF pods(1)]) (simp_all add: ex_pod_def)
  then have pol: "GetPlacementPolicyForPod ex_packages ex_caching ?\<sigma> 0 = Return (Some ex_policy, None)"
    by (simp add: GetPlacementPolicyForPod_def ex_caching_def)
  have spec: "NodeSelector (Spec ex_policy) = Some ex_want" "PodSelector (Spec ex_policy) = Some ex_nginx" "PolicyOf (Spec ex_policy) = Some ex_rule"
    by (simp_all add: ex_policy_def ex_policy_of_def)
  have mgr: "ppMgr ?p = as_Manager ex_packages ex_caching" "NodeInfos_List (frameworkHandler ?p) (world ?\<sigma>) = (map Some ?ns, None)"
    by (simp_all add: new_Plugin_def ex_handle_def)
  have listed: "filter (\<lambda>q. \<forall>(k, v) \<in> set (MatchLabels ex_nginx). map_of (podLabels (the (mem ?\<sigma> q))) k = Some v) [0, 1] = [0, 1]"
    by (simp add: ex_nginx_def pods) (simp add: ex_pod_def)
  have scaled: "GetScaledValueFromIntOrPercent ex_packages (TargetSize ex_rule) (len64 [0 :: nat, 1]) False = (1, None)"
    by (simp add: ex_defs len64_def)
  have names: "matching_names ex_want ?ns = {''worker''}" "checkHasLabels (nodeLabels ex_node1) (MatchLabels ex_want)"
    by (simp_all add: matching_names_def ex_defs label_defs)
  from pods_of_all_namespaces_count [OF mgr(1) ex_cycle_contract acc cache pods(1) pol ex_policy_mode(3) spec, unfolded listed,
      OF scaled mgr(2), of ex_new_cycle]
  obtain st' \<sigma>' where "PreFilter ex_packages ex_cycle ?p ex_new_cycle 0 ?\<sigma> = (Return ok_status, st', \<sigma>')"
    "Filter ex_cycle ?p st' 0 (Some ex_node1) \<sigma>' \<noteq> Return ok_status"
    by (auto simp: names placed_def counted_def pods ex_pod_def target_def ex_rule_def api_constants split: if_splits)
  then show "\<exists>st' \<sigma>'. PreFilter ex_packages ex_cycle ?p ex_new_cycle 0 ?\<sigma> = (Return ok_status, st', \<sigma>') \<and>
     Filter ex_cycle ?p st' 0 (Some ex_node1) \<sigma>' \<noteq> Return ok_status" by blast
qed

subsection \<open>Pods of two policies\<close>

text \<open>
  C15: a pod that two policies select is handled by the lighter of them, but counts for both,
  by the one annotation that says whether it prefers the nodes of the policy that decided. So
  let no pod count for the heavier policy yet, and let its target be one: the next pod of it
  would be sent to its nodes. Once the lighter policy, none of whose nodes are nodes of the
  heavier one, has sent the common pod to its own nodes, that next pod is turned away from
  the heavier policy's nodes, although no pod of it is there and the common pod cannot go there.
\<close>

theorem other_policys_pods_count:
  assumes "ppMgr p = as_Manager pk m" "cycle_contract cy" "accepting m"
    and "\<forall>w. NodeInfos_List (frameworkHandler p) w = (map Some ns, None)"
    and "sees pk (as_Manager pk m) \<sigma> q u" "sees pk (as_Manager pk m) \<sigma> r v"
      "sees pk (as_Manager pk m) (decided_machine m q \<sigma> ns u) r v"
    and "EnforcementModeOf (Spec (vPolicy u)) \<noteq> EnforcementModeBestEffort"
      "EnforcementModeOf (Spec (vPolicy v)) \<noteq> EnforcementModeBestEffort"
    and "sort_contract (sort_Sort pk)" "namespace_policies pk m (world \<sigma>) (podNamespace (vPod u)) = Return (pps, None)"
      "\<forall>pp \<in> set pps. PodSelector (Spec pp) \<noteq> None" "vPolicy v \<in> set pps" "selects (vPolicy v) (vPod u)"
    and "\<forall>n \<in> set ns. \<not> (checkHasLabels (nodeLabels n) (MatchLabels (vNodeSelector u)) \<and>
      checkHasLabels (nodeLabels n) (MatchLabels (vNodeSelector v)))"
    and "decision \<sigma> ns u" "podNodeName (vPod u) = ''''" "q \<in> set (vPods v)" "podUID (vPod u) \<noteq> podUID (vPod v)"
    and "placed (mem \<sigma>) (matching_names (vNodeSelector v) ns) (podUID (vPod v)) (vPods v) = []"
    and "length (vPods v) < 2 ^ 62" "- (2 ^ 62) \<le> sint (vTarget v)"
    and "target (PolicyAction (vRule v)) (sint (vTarget v)) (length (vPods v)) = 1"
  shows "policy_weight (vPolicy u) \<le> policy_weight (vPolicy v) \<and>
    (\<exists>st1 \<sigma>1. PreFilter pk cy p st r \<sigma> = (Return ok_status, st1, \<sigma>1) \<and>
      (\<forall>n \<in> set ns. Filter cy p st1 r (Some n) \<sigma>1 = Return ok_status \<longleftrightarrow>
        checkHasLabels (nodeLabels n) (MatchLabels (vNodeSelector v)))) \<and>
    (\<exists>st1 \<sigma>1 st2 \<sigma>2.
      PreFilter pk cy p st q \<sigma> = (Return ok_status, st1, \<sigma>1) \<and>
      (\<forall>n \<in> set ns. Filter cy p st1 q (Some n) \<sigma>1 = Return ok_status \<longrightarrow>
        \<not> checkHasLabels (nodeLabels n) (MatchLabels (vNodeSelector v))) \<and>
      (\<forall>x \<in> set (vPods v). podNodeName (the (mem \<sigma>1 x)) = podNodeName (the (mem \<sigma> x))) \<and>
      PreFilter pk cy p st' r \<sigma>1 = (Return ok_status, st2, \<sigma>2) \<and>
      (\<forall>n \<in> set ns. Filter cy p st2 r (Some n) \<sigma>2 = Return ok_status \<longleftrightarrow>
        \<not> checkHasLabels (nodeLabels n) (MatchLabels (vNodeSelector v))))"
proof (intro conjI)
  let ?\<sigma>1 = "decided_machine m q \<sigma> ns u" and ?names = "matching_names (vNodeSelector v) ns"
  note nodes = assms(4) [rule_format]
  note acc = accepting_update [OF assms(3)]
  have pod: "mem \<sigma> q = Some (vPod u)" using assms(5) by (simp add: sees_def)
  show "policy_weight (vPolicy u) \<le> policy_weight (vPolicy v)"
    using least_selecting_chosen [OF assms(10) pod assms(11,12)] assms(5,13,14)
    by (auto simp: sees_def least_selecting_def)
  have "decision \<sigma> ns v" unfolding decision_iff [OF assms(21,22)] by (simp add: assms(20,23))
  with acc [of \<sigma> ns v] pre_filter_then_filter [OF assms(1,2,6,9) nodes, of _ st]
  show "\<exists>st1 \<sigma>1. PreFilter pk cy p st r \<sigma> = (Return ok_status, st1, \<sigma>1) \<and>
      (\<forall>n \<in> set ns. Filter cy p st1 r (Some n) \<sigma>1 = Return ok_status \<longleftrightarrow>
        checkHasLabels (nodeLabels n) (MatchLabels (vNodeSelector v)))"
    by (fastforce simp: ok_status_def)
  have "mem ?\<sigma>1 q = Some (annotated (vPolicy u) True (vPod u))"
    using assms(16) by (simp add: decided_pod_def)
  then have "q \<in> set (placed (mem ?\<sigma>1) ?names (podUID (vPod v)) (vPods v))"
    using assms(17-19) by (simp add: placed_def counted_def)
  then have "0 < length (placed (mem ?\<sigma>1) ?names (podUID (vPod v)) (vPods v))"
    by (rule length_pos_if_in_set)
  then have off: "\<not> decision ?\<sigma>1 ns v"
    unfolding decision_iff [OF assms(21,22)] using assms(23) by linarith
  obtain x where x: "fst (decided_update m \<sigma> ns u) = (Some x, None)" using acc by blast
  obtain y where y: "fst (decided_update m ?\<sigma>1 ns v) = (Some y, None)" using acc by blast
  from pre_filter_then_filter [OF assms(1,2,5,8) nodes x, of st] assms(16) obtain st1 where
    one: "PreFilter pk cy p st q \<sigma> = (Return ok_status, st1, ?\<sigma>1)"
      "\<forall>n. Filter cy p st1 q (Some n) ?\<sigma>1 = Return ok_status \<longleftrightarrow>
        checkHasLabels (nodeLabels n) (MatchLabels (vNodeSelector u))"
    by (auto simp: ok_status_def)
  from pre_filter_then_filter [OF assms(1,2,7,9) nodes y, of st'] off obtain st2 where
    two: "PreFilter pk cy p st' r ?\<sigma>1 = (Return ok_status, st2, decided_machine m r ?\<sigma>1 ns v)"
      "\<forall>n. Filter cy p st2 r (Some n) (decided_machine m r ?\<sigma>1 ns v) = Return ok_status \<longleftrightarrow>
        \<not> checkHasLabels (nodeLabels n) (MatchLabels (vNodeSelector v))"
    by (auto simp: ok_status_def)
  have stay: "\<forall>x \<in> set (vPods v). podNodeName (the (mem ?\<sigma>1 x)) = podNodeName (the (mem \<sigma> x))"
    using pod by (simp add: decided_pod_def)
  show "\<exists>st1 \<sigma>1 st2 \<sigma>2.
      PreFilter pk cy p st q \<sigma> = (Return ok_status, st1, \<sigma>1) \<and>
      (\<forall>n \<in> set ns. Filter cy p st1 q (Some n) \<sigma>1 = Return ok_status \<longrightarrow>
        \<not> checkHasLabels (nodeLabels n) (MatchLabels (vNodeSelector v))) \<and>
      (\<forall>x \<in> set (vPods v). podNodeName (the (mem \<sigma>1 x)) = podNodeName (the (mem \<sigma> x))) \<and>
      PreFilter pk cy p st' r \<sigma>1 = (Return ok_status, st2, \<sigma>2) \<and>
      (\<forall>n \<in> set ns. Filter cy p st2 r (Some n) \<sigma>2 = Return ok_status \<longleftrightarrow>
        \<not> checkHasLabels (nodeLabels n) (MatchLabels (vNodeSelector v)))"
    using one two stay assms(15) by (intro exI conjI) (assumption | blast)+
qed

text \<open>A policy for golden pods, and a heavier one that wants one of all pods in zone b.\<close>

definition ex_golden_policy :: PlacementPolicy where
  "ex_golden_policy = (let pp = ex_policy_of ''gold'' 10 EnforcementModeStrict in
     pp\<lparr>Spec := (Spec pp)\<lparr>PodSelector := Some \<lparr>MatchLabels = [(''tier'', ''gold'')], MatchExpressions = []\<rparr>\<rparr>\<rparr>)"

definition ex_zone_policy :: PlacementPolicy where
  "ex_zone_policy = (let pp = ex_policy_of ''zone'' 20 EnforcementModeStrict in
     pp\<lparr>Spec := (Spec pp)\<lparr>NodeSelector := Some \<lparr>MatchLabels = [(''zone'', ''b'')], MatchExpressions = []\<rparr>\<rparr>\<rparr>)"

lemmas ex_overlap_policies = ex_golden_policy_def ex_zone_policy_def Let_def

definition ex_zone_node :: Node where
  "ex_zone_node = ex_node2\<lparr>nodeLabels := [(''zone'', ''b'')]\<rparr>"

definition ex_overlap :: "(unit, strmap) PlacementPolicyManager" where
  "ex_overlap = (ex_manager_of [ex_golden_policy, ex_zone_policy])
     \<lparr>podLister := (\<lambda>\<sigma> sel. (if sel = [(''app'', ''nginx'')] then [0, 1] else [0], None))\<rparr>"

definition ex_overlap_plugin :: "unit Plugin" where
  "ex_overlap_plugin = new_Plugin (ex_handle\<lparr>NodeInfos_List := (\<lambda>w. (map Some [ex_node1, ex_zone_node], None))\<rparr>)
     ex_packages ex_overlap"

definition ex_golden_pod :: Pod where
  "ex_golden_pod = (ex_pod ''nginx-0'')\<lparr>podLabels := [(''app'', ''nginx''), (''tier'', ''gold'')]\<rparr>"

definition ex_overlap_machine :: "unit machine" where
  "ex_overlap_machine = ex_machine\<lparr>mem := [0 \<mapsto> ex_golden_pod, 1 \<mapsto> ex_pod ''nginx-1'']\<rparr>"

definition ex_overlap_view :: "PlacementPolicy \<Rightarrow> Pod \<Rightarrow> pod_ref list \<Rightarrow> hook_view" where
  "ex_overlap_view pp pod rs =
     \<lparr>vPod = pod, vPolicy = pp, vNodeSelector = the (NodeSelector (Spec pp)), vPodSelector = the (PodSelector (Spec pp)),
      vRule = ex_rule, vPods = rs, vTarget = 1\<rparr>"

lemma ex_overlap_lists:
  "podNamespace pod = ''default'' \<Longrightarrow>
   namespace_policies ex_packages ex_overlap w (podNamespace pod) = Return ([ex_golden_policy, ex_zone_policy], None)"
  by (simp add: namespace_policies_def ex_overlap_def ex_manager_of_def NewPlacementPolicyManager_def)
    (simp add: ex_overlap_policies ex_policy_of_def)

lemma ex_overlap_selects:
  "selects ex_zone_policy pod \<longleftrightarrow> HasMatchingLabels (podLabels pod) [(''app'', ''nginx'')]"
  "selects ex_golden_policy pod \<longleftrightarrow> HasMatchingLabels (podLabels pod) [(''tier'', ''gold'')]"
  "PodSelector (Spec ex_zone_policy) = Some ex_nginx"
  "PodSelector (Spec ex_golden_policy) = Some \<lparr>MatchLabels = [(''tier'', ''gold'')], MatchExpressions = []\<rparr>"
  "policy_weight ex_golden_policy = 10" "policy_weight ex_zone_policy = 20"
  "EnforcementModeOf (Spec ex_zone_policy) = EnforcementModeStrict"
  "EnforcementModeOf (Spec ex_golden_policy) = EnforcementModeStrict"
  by (simp_all add: selects_def ex_overlap_policies ex_policy_of_def ex_nginx_def policy_weight_def api_constants)

lemma ex_overlap_chooses:
  assumes "mem \<sigma> r = Some pod" "podNamespace pod = ''default''" "HasMatchingLabels (podLabels pod) [(''app'', ''nginx'')]"
  shows "GetPlacementPolicyForPod ex_packages ex_overlap \<sigma> r =
    Return (Some (if HasMatchingLabels (podLabels pod) [(''tier'', ''gold'')] then ex_golden_policy else ex_zone_policy), None)"
  by (rule lightest_chosen [OF _ assms(1) ex_overlap_lists [OF assms(2)]])
    (use assms(3) in \<open>auto simp: ex_overlap_selects, simp add: ex_packages_def\<close>)

lemma ex_overlap_sees:
  "sees ex_packages (as_Manager ex_packages ex_overlap) ex_overlap_machine 0 (ex_overlap_view ex_golden_policy ex_golden_pod [0])"
  "mem \<sigma> 0 \<noteq> None \<Longrightarrow> mem \<sigma> 1 = Some (ex_pod ''nginx-1'') \<Longrightarrow>
   sees ex_packages (as_Manager ex_packages ex_overlap) \<sigma> 1 (ex_overlap_view ex_zone_policy (ex_pod ''nginx-1'') [0, 1])"
proof -
  have r: "GetPlacementPolicyForPod ex_packages ex_overlap ex_overlap_machine 0 = Return (Some ex_golden_policy, None)"
    using ex_overlap_chooses [of ex_overlap_machine 0 ex_golden_pod]
    by (simp add: ex_overlap_machine_def ex_golden_pod_def ex_pod_def label_defs)
  show "sees ex_packages (as_Manager ex_packages ex_overlap) ex_overlap_machine 0 (ex_overlap_view ex_golden_policy ex_golden_pod [0])"
    unfolding sees_def as_Manager_simps ex_overlap_view_def hook_view.select_convs r
    by (simp add: GetPodsWithLabels_def ex_overlap_def)
      (simp add: ex_overlap_policies ex_overlap_machine_def ex_policy_of_def ex_packages_def ex_scaled_def ex_rule_def)
  assume m: "mem \<sigma> 0 \<noteq> None" "mem \<sigma> 1 = Some (ex_pod ''nginx-1'')"
  have r: "GetPlacementPolicyForPod ex_packages ex_overlap \<sigma> 1 = Return (Some ex_zone_policy, None)"
    using ex_overlap_chooses [OF m(2)] by (simp add: ex_pod_def label_defs)
  show "sees ex_packages (as_Manager ex_packages ex_overlap) \<sigma> 1 (ex_overlap_view ex_zone_policy (ex_pod ''nginx-1'') [0, 1])"
    unfolding sees_def as_Manager_simps r using m
    by (simp add: ex_overlap_view_def GetPodsWithLabels_def ex_overlap_def)
      (simp add: ex_overlap_policies ex_policy_of_def ex_packages_def ex_scaled_def ex_rule_def ex_nginx_def)
qed

theorem other_policys_pods_count_witness:
  "(\<exists>st1 \<sigma>1. PreFilter ex_packages ex_cycle ex_overlap_plugin ex_new_cycle 1 ex_overlap_machine = (Return ok_status, st1, \<sigma>1) \<and>
    Filter ex_cycle ex_overlap_plugin st1 1 (Some ex_zone_node) \<sigma>1 = Return ok_status) \<and>
   (\<exists>st1 \<sigma>1 st2 \<sigma>2.
    PreFilter ex_packages ex_cycle ex_overlap_plugin ex_new_cycle 0 ex_overlap_machine = (Return ok_status, st1, \<sigma>1) \<and>
    Filter ex_cycle ex_overlap_plugin st1 0 (Some ex_zone_node) \<sigma>1 \<noteq> Return ok_status \<and>
    PreFilter ex_packages ex_cycle ex_overlap_plugin ex_new_cycle 1 \<sigma>1 = (Return ok_status, st2, \<sigma>2) \<and>
    Filter ex_cycle ex_overlap_plugin st2 1 (Some ex_zone_node) \<sigma>2 \<noteq> Return ok_status)"
proof -
  let ?ns = "[ex_node1, ex_zone_node]"
  let ?u = "ex_overlap_view ex_golden_policy ex_golden_pod [0]"
    and ?v = "ex_overlap_view ex_zone_policy (ex_pod ''nginx-1'') [0, 1]"
  have match: "checkHasLabels (nodeLabels ex_node1) (MatchLabels (vNodeSelector ?u))"
    "\<not> checkHasLabels (nodeLabels ex_zone_node) (MatchLabels (vNodeSelector ?u))"
    "\<not> checkHasLabels (nodeLabels ex_node1) (MatchLabels (vNodeSelector ?v))"
    "checkHasLabels (nodeLabels ex_zone_node) (MatchLabels (vNodeSelector ?v))"
    by (simp_all add: ex_overlap_view_def ex_overlap_policies ex_policy_of_def ex_want_def ex_node1_def ex_node2_def
        ex_zone_node_def label_defs)
  have d: "decision ex_overlap_machine ?ns ?u"
    by (simp add: decision_iff ex_overlap_view_def ex_rule_def target_def api_constants placed_def ex_overlap_machine_def)
  have "(\<exists>st1 \<sigma>1. PreFilter ex_packages ex_cycle ex_overlap_plugin ex_new_cycle 1 ex_overlap_machine = (Return ok_status, st1, \<sigma>1) \<and>
      (\<forall>n \<in> set ?ns. Filter ex_cycle ex_overlap_plugin st1 1 (Some n) \<sigma>1 = Return ok_status \<longleftrightarrow>
        checkHasLabels (nodeLabels n) (MatchLabels (vNodeSelector ?v)))) \<and>
    (\<exists>st1 \<sigma>1 st2 \<sigma>2.
      PreFilter ex_packages ex_cycle ex_overlap_plugin ex_new_cycle 0 ex_overlap_machine = (Return ok_status, st1, \<sigma>1) \<and>
      (\<forall>n \<in> set ?ns. Filter ex_cycle ex_overlap_plugin st1 0 (Some n) \<sigma>1 = Return ok_status \<longrightarrow>
        \<not> checkHasLabels (nodeLabels n) (MatchLabels (vNodeSelector ?v))) \<and>
      (\<forall>x \<in> set (vPods ?v). podNodeName (the (mem \<sigma>1 x)) = podNodeName (the (mem ex_overlap_machine x))) \<and>
      PreFilter ex_packages ex_cycle ex_overlap_plugin ex_new_cycle 1 \<sigma>1 = (Return ok_status, st2, \<sigma>2) \<and>
      (\<forall>n \<in> set ?ns. Filter ex_cycle ex_overlap_plugin st2 1 (Some n) \<sigma>2 = Return ok_status \<longleftrightarrow>
        \<not> checkHasLabels (nodeLabels n) (MatchLabels (vNodeSelector ?v))))"
  proof (rule conjunct2 [OF other_policys_pods_count [OF _ ex_cycle_contract _ _ ex_overlap_sees(1) ex_overlap_sees(2) ex_overlap_sees(2),
        where pps = "[ex_golden_policy, ex_zone_policy]"]])
    show "ppMgr ex_overlap_plugin = as_Manager ex_packages ex_overlap"
      "\<forall>w. NodeInfos_List (frameworkHandler ex_overlap_plugin) w = (map Some ?ns, None)"
      by (simp_all add: ex_overlap_plugin_def new_Plugin_def)
    show "accepting ex_overlap"
      by (simp add: accepting_def ex_overlap_def ex_manager_of_def NewPlacementPolicyManager_def ex_client_def)
    show "namespace_policies ex_packages ex_overlap (world ex_overlap_machine) (podNamespace (vPod ?u)) =
        Return ([ex_golden_policy, ex_zone_policy], None)"
      by (rule ex_overlap_lists) (simp add: ex_overlap_view_def ex_golden_pod_def ex_pod_def)
    show "sort_contract (sort_Sort ex_packages)" by (simp add: ex_packages_def sort_Sort_12_contract)
    show "placed (mem ex_overlap_machine) (matching_names (vNodeSelector ?v) ?ns) (podUID (vPod ?v)) (vPods ?v) = []"
      by (simp add: placed_def counted_def ex_overlap_view_def ex_overlap_machine_def ex_golden_pod_def ex_pod_def pod_annotation_def map_index_def)
    show "\<forall>n \<in> set ?ns. \<not> (checkHasLabels (nodeLabels n) (MatchLabels (vNodeSelector ?u)) \<and>
        checkHasLabels (nodeLabels n) (MatchLabels (vNodeSelector ?v)))" using match by simp
    show "decision ex_overlap_machine ?ns ?u" by (rule d)
  qed (simp_all add: ex_overlap_view_def ex_overlap_selects ex_overlap_machine_def ex_golden_pod_def ex_pod_def
      ex_rule_def target_def api_constants label_defs)
  with match show ?thesis by (auto 0 3)
qed

end
