(* ===== verification/Counting_Properties.thy ===== *)
theory Counting_Properties
  imports Normalization Example_Cluster
begin

section \<open>Properties of the counts and the scores\<close>

text \<open>
  What the decision counts (nodes by label, pods by place or annotation) and what
  \<open>NormalizeScore\<close> does to the scores of a cycle.
\<close>

subsection \<open>Nodes and pods\<close>

text \<open>
  C28: \<open>groupNodesWithLabels\<close> panics exactly when a node is missing from its list; otherwise
  it returns a map from the names of exactly the nodes that have the labels, each name
  leading to such a node of that name.
\<close>

theorem node_group_spec:
  "(groupNodesWithLabels nodeList labels = Panic NilDereference \<longleftrightarrow> None \<in> set nodeList) \<and>
   (case groupNodesWithLabels nodeList labels of
      Panic e \<Rightarrow> e = NilDereference
    | Return grp \<Rightarrow> map_wf grp \<and>
        dom (map_of grp) = {nodeName n | n. Some n \<in> set nodeList \<and> checkHasLabels (nodeLabels n) labels} \<and>
        (\<forall>x n. map_of grp x = Some n \<longrightarrow>
           Some n \<in> set nodeList \<and> nodeName n = x \<and> checkHasLabels (nodeLabels n) labels))"
proof (cases "None \<in> set nodeList")
  case True
  then show ?thesis by (simp add: groupNodesWithLabels_nil)
next
  case False
  then obtain nodes where nl: "nodeList = map Some nodes"
    by (rule all_present)
  show ?thesis
    by (auto simp: nl groupNodesWithLabels_eq map_wf_fold_store go_simps dom_fold_store map_of_fold_store
        split: option.splits dest!: map_of_SomeD)
qed

theorem node_group_spec_witness:
  "\<exists>grp. groupNodesWithLabels [Some ex_node1, Some ex_node2] (MatchLabels ex_want) = Return grp \<and>
    dom (map_of grp) = {''worker''} \<and> (\<forall>x n. map_of grp x = Some n \<longrightarrow> nodeName n = x)"
proof -
  let ?l = "[Some ex_node1, Some ex_node2]"
  have names: "{nodeName n | n. Some n \<in> set ?l \<and> checkHasLabels (nodeLabels n) (MatchLabels ex_want)} = {''worker''}"
  proof -
    have "checkHasLabels (nodeLabels ex_node1) (MatchLabels ex_want)" "nodeName ex_node1 = ''worker''"
      "\<not> checkHasLabels (nodeLabels ex_node2) (MatchLabels ex_want)"
      by (simp_all add: ex_node1_def ex_node2_def ex_want_def label_defs)
    then show ?thesis by (auto intro!: exI [of _ ex_node1])
  qed
  show ?thesis
    using node_group_spec [of ?l "MatchLabels ex_want"] unfolding names
    by (auto split: go.splits)
qed

text \<open>
  C29: \<open>groupPodsBasedOnNodePreference\<close> keeps, in order, exactly the pods other than the one
  being scheduled that are on a node of the group, or are on no node and carry a node
  preference annotation that reads as true.
\<close>

theorem pod_group_spec:
  assumes "\<forall>q \<in> set podList. h q \<noteq> None" "h r = Some current"
  shows "groupPodsBasedOnNodePreference h podList r grp = Return (filter (\<lambda>q.
    case h q of None \<Rightarrow> False | Some P \<Rightarrow>
      podUID P \<noteq> podUID current \<and>
      (podNodeName P \<in> dom (map_of grp) \<and> podNodeName P \<noteq> '''' \<or>
       podNodeName P = '''' \<and> pod_annotation P PlacementPolicyPreferenceAnnotationKey
         \<in> {''1'', ''t'', ''T'', ''true'', ''TRUE'', ''True''})) podList)"
proof -
  have "podUID (the (h q)) \<noteq> podUID current \<and> counted (dom (map_of grp)) (the (h q)) \<longleftrightarrow>
      (case h q of None \<Rightarrow> False | Some P \<Rightarrow>
        podUID P \<noteq> podUID current \<and>
        (podNodeName P \<in> dom (map_of grp) \<and> podNodeName P \<noteq> '''' \<or>
         podNodeName P = '''' \<and> pod_annotation P PlacementPolicyPreferenceAnnotationKey
           \<in> {''1'', ''t'', ''T'', ''true'', ''TRUE'', ''True''}))" if q: "q \<in> set podList" for q
  proof -
    from q assms(1) obtain P where "h q = Some P" by blast
    then show ?thesis by (cases "podNodeName P = ''''") (simp_all add: counted_def ParseBool_True_iff)
  qed
  then show ?thesis
    unfolding groupPodsBasedOnNodePreference_eq [OF assms] by (simp cong: filter_cong)
qed

theorem pod_group_spec_witness:
  "groupPodsBasedOnNodePreference (mem (machine_of ex_placed)) [0, 1] 1 [(''worker'', ex_node1)] =
     Return (filter (\<lambda>q. case mem (machine_of ex_placed) q of None \<Rightarrow> False | Some P \<Rightarrow>
       podUID P \<noteq> podUID (ex_pod1 (Some False) ''worker3'') \<and>
       (podNodeName P \<in> dom (map_of [(''worker'', ex_node1)]) \<and> podNodeName P \<noteq> '''' \<or>
        podNodeName P = '''' \<and> pod_annotation P PlacementPolicyPreferenceAnnotationKey
          \<in> {''1'', ''t'', ''T'', ''true'', ''TRUE'', ''True''})) [0, 1])"
  by (rule pod_group_spec) (simp_all add: ex_placed_def ex_state_def)

subsection \<open>Normalised scores\<close>

text \<open>
  C31: \<open>NormalizeScore\<close> keeps the nodes and puts every score between the framework's bounds;
  a higher score never becomes lower than another, and unless all scores are equal the
  highest gets the upper bound and the lowest the lower one. For scores and bounds below
  2^30 in size the 64-bit arithmetic does not wrap.
\<close>

theorem normalize_spec:
  assumes "mem \<sigma> r = Some pod" "scores \<noteq> []" "moderate p scores"
  shows "\<exists>g. NormalizeScore p r scores \<sigma> = (Return ok_status, map g scores) \<and>
    (\<forall>s \<in> set scores. scoreName (g s) = scoreName s \<and>
       sint (MinNodeScore (frameworkHandler p)) \<le> sint (scoreValue (g s)) \<and>
       sint (scoreValue (g s)) \<le> sint (MaxNodeScore (frameworkHandler p))) \<and>
    (\<forall>s \<in> set scores. \<forall>t \<in> set scores. sint (scoreValue s) \<le> sint (scoreValue t) \<longrightarrow>
       sint (scoreValue (g s)) \<le> sint (scoreValue (g t))) \<and>
    (\<forall>s \<in> set scores. \<forall>t \<in> set scores.
       (\<forall>u \<in> set scores. sint (scoreValue s) \<le> sint (scoreValue u) \<and> sint (scoreValue u) \<le> sint (scoreValue t)) \<longrightarrow>
       scoreValue s \<noteq> scoreValue t \<longrightarrow>
       sint (scoreValue (g s)) = sint (MinNodeScore (frameworkHandler p)) \<and>
       sint (scoreValue (g t)) = sint (MaxNodeScore (frameworkHandler p)))"
proof -
  from NormalizeScore_rescaled [OF assms] obtain lo hi g where m: "lo \<in> set scores" "hi \<in> set scores"
    and b: "\<forall>s \<in> set scores. sint (scoreValue lo) \<le> sint (scoreValue s) \<and> sint (scoreValue s) \<le> sint (scoreValue hi)"
    and n: "NormalizeScore p r scores \<sigma> = (Return ok_status, map g scores)"
    and g: "\<forall>s \<in> set scores. scoreName (g s) = scoreName s \<and> sint (scoreValue (g s)) =
       rescaled (sint (scoreValue lo)) (sint (scoreValue hi)) (sint (MinNodeScore (frameworkHandler p)))
         (sint (MaxNodeScore (frameworkHandler p))) (sint (scoreValue s))" .
  have le: "sint (MinNodeScore (frameworkHandler p)) \<le> sint (MaxNodeScore (frameworkHandler p))"
    using assms(3) by (simp add: moderate_def)
  have lh: "sint (scoreValue lo) \<le> sint (scoreValue hi)" using b m by simp
  have ext: "rescaled (sint (scoreValue lo)) (sint (scoreValue hi)) mn mx (sint (scoreValue s)) = mn \<and>
      rescaled (sint (scoreValue lo)) (sint (scoreValue hi)) mn mx (sint (scoreValue t)) = mx"
    if "s \<in> set scores" "t \<in> set scores" "scoreValue s \<noteq> scoreValue t"
      "\<forall>u \<in> set scores. sint (scoreValue s) \<le> sint (scoreValue u) \<and> sint (scoreValue u) \<le> sint (scoreValue t)"
    for s t mn mx
  proof -
    have "sint (scoreValue s) = sint (scoreValue lo)" "sint (scoreValue t) = sint (scoreValue hi)"
      using that b m by (simp_all add: order_antisym)
    moreover from this that(3) have "sint (scoreValue hi) \<noteq> sint (scoreValue lo)"
      by (metis signed_word_eqI)
    ultimately show ?thesis by (simp add: rescaled_extremes)
  qed
  show ?thesis
    using b g le lh by (intro exI [of _ g] conjI n) (simp_all add: rescaled_bounds rescaled_mono ext)
qed

definition ex_scores :: "NodeScore list" where
  "ex_scores = [\<lparr>scoreName = ''a'', scoreValue = 3\<rparr>, \<lparr>scoreName = ''b'', scoreValue = 7\<rparr>,
     \<lparr>scoreName = ''c'', scoreValue = 4\<rparr>]"

theorem normalize_spec_witness:
  "\<exists>g. NormalizeScore (ex_plugin_of [ex_soft]) 0 ex_scores ex_machine = (Return ok_status, map g ex_scores) \<and>
    sint (scoreValue (g \<lparr>scoreName = ''a'', scoreValue = 3\<rparr>)) = 0 \<and>
    sint (scoreValue (g \<lparr>scoreName = ''b'', scoreValue = 7\<rparr>)) = 100"
proof -
  have m: "mem ex_machine 0 = Some (ex_pod ''nginx-0'')" "ex_scores \<noteq> []"
    "moderate (ex_plugin_of [ex_soft]) ex_scores"
    by (simp_all add: ex_machine_def ex_scores_def moderate_def ex_plugin_of_def new_Plugin_def ex_handle_def)
  from normalize_spec [OF m] obtain g where
    "NormalizeScore (ex_plugin_of [ex_soft]) 0 ex_scores ex_machine = (Return ok_status, map g ex_scores)"
    "\<forall>s \<in> set ex_scores. \<forall>t \<in> set ex_scores.
       (\<forall>u \<in> set ex_scores. sint (scoreValue s) \<le> sint (scoreValue u) \<and> sint (scoreValue u) \<le> sint (scoreValue t)) \<longrightarrow>
       scoreValue s \<noteq> scoreValue t \<longrightarrow>
       sint (scoreValue (g s)) = sint (MinNodeScore (frameworkHandler (ex_plugin_of [ex_soft]))) \<and>
       sint (scoreValue (g t)) = sint (MaxNodeScore (frameworkHandler (ex_plugin_of [ex_soft])))"
    by blast
  then show ?thesis
    by (intro exI [of _ g]) (simp add: ex_scores_def ex_plugin_of_def new_Plugin_def ex_handle_def)
qed

end
