(* ===== verification/Plugin_Bootstrap.thy ===== *)
theory Plugin_Bootstrap
  imports Informer_Factory Plugin_Hooks
begin

section \<open>Bringing the plugin up\<close>

text \<open>
  \<open>New\<close> of \<open>pkg/plugins/placementpolicy/placementpolicy.go\<close> and the generated code it goes
  through to reach the policy informer: the group and version accessors, the informer
  object and its list and watch functions (\<open>pkg/client/informers/externalversions/apis\<close>),
  and the generic access by resource (\<open>generic.go\<close>). The informer itself, the clients and
  the wait for the cache are client-go: parameters of the definitions that use them.
\<close>

subsection \<open>The policy informer\<close>

text \<open>The request a list or watch function makes: the client, the namespace, the options.\<close>

datatype informer_request =
  ListPolicies handle string ListOptions
| WatchPolicies handle string ListOptions

record ListWatch =
  ListFunc :: "ListOptions \<Rightarrow> informer_request"
  WatchFunc :: "ListOptions \<Rightarrow> informer_request"

definition NamespaceIndex :: string where
  "NamespaceIndex = ''namespace''"

text \<open>\<open>NewSharedIndexInformer\<close> of client-go, over the list-watch, the period and the indexers.\<close>

type_synonym 'inf new_informer = "ListWatch \<Rightarrow> Duration \<Rightarrow> string list \<Rightarrow> 'inf"

definition NewFilteredPlacementPolicyInformer ::
    "'inf new_informer \<Rightarrow> handle \<Rightarrow> string \<Rightarrow> Duration \<Rightarrow> string list \<Rightarrow> TweakListOptionsFunc option \<Rightarrow> 'inf" where
  "NewFilteredPlacementPolicyInformer mk c namespace resyncPeriod indexers tweakListOptions =
     mk \<lparr>ListFunc = (\<lambda>options.
            let options = (case tweakListOptions of None \<Rightarrow> options | Some tweak \<Rightarrow> tweak options)
            in ListPolicies c namespace options),
         WatchFunc = (\<lambda>options.
            let options = (case tweakListOptions of None \<Rightarrow> options | Some tweak \<Rightarrow> tweak options)
            in WatchPolicies c namespace options)\<rparr>
       resyncPeriod indexers"

definition NewPlacementPolicyInformer ::
    "'inf new_informer \<Rightarrow> handle \<Rightarrow> string \<Rightarrow> Duration \<Rightarrow> string list \<Rightarrow> 'inf" where
  "NewPlacementPolicyInformer mk c namespace resyncPeriod indexers =
     NewFilteredPlacementPolicyInformer mk c namespace resyncPeriod indexers None"

text \<open>
  The accessors \<open>factory.Placementpolicy().V1alpha1().PlacementPolicies()\<close> hand the
  factory's namespace and tweak function down; the factory itself is the state the methods
  below work on.
\<close>

record informer_group =
  grp_namespace :: string
  grp_tweakListOptions :: "TweakListOptionsFunc option"

record informer_version =
  ver_namespace :: string
  ver_tweakListOptions :: "TweakListOptionsFunc option"

record placementPolicyInformer =
  ppi_namespace :: string
  ppi_tweakListOptions :: "TweakListOptionsFunc option"

definition apis_New :: "string \<Rightarrow> TweakListOptionsFunc option \<Rightarrow> informer_group" where
  "apis_New namespace tweakListOptions =
     \<lparr>grp_namespace = namespace, grp_tweakListOptions = tweakListOptions\<rparr>"

definition v1alpha1_New :: "string \<Rightarrow> TweakListOptionsFunc option \<Rightarrow> informer_version" where
  "v1alpha1_New namespace tweakListOptions =
     \<lparr>ver_namespace = namespace, ver_tweakListOptions = tweakListOptions\<rparr>"

definition Placementpolicy :: "'inf sharedInformerFactory \<Rightarrow> informer_group" where
  "Placementpolicy f = apis_New (fac_namespace f) (fac_tweakListOptions f)"

definition V1alpha1 :: "informer_group \<Rightarrow> informer_version" where
  "V1alpha1 g = v1alpha1_New (grp_namespace g) (grp_tweakListOptions g)"

definition PlacementPolicies :: "informer_version \<Rightarrow> placementPolicyInformer" where
  "PlacementPolicies v =
     \<lparr>ppi_namespace = ver_namespace v, ppi_tweakListOptions = ver_tweakListOptions v\<rparr>"

definition policy_type :: string where
  "policy_type = ''*v1alpha1.PlacementPolicy''"

definition defaultInformer :: "'inf new_informer \<Rightarrow> placementPolicyInformer \<Rightarrow> handle \<Rightarrow> Duration \<Rightarrow> 'inf" where
  "defaultInformer mk a c resyncPeriod =
     NewFilteredPlacementPolicyInformer mk c (ppi_namespace a) resyncPeriod [NamespaceIndex] (ppi_tweakListOptions a)"

definition Informer ::
    "'inf new_informer \<Rightarrow> placementPolicyInformer \<Rightarrow> 'inf sharedInformerFactory \<Rightarrow> 'inf \<times> 'inf sharedInformerFactory" where
  "Informer mk a f = InformerFor policy_type (defaultInformer mk a) f"

definition PolicyInformer_Lister ::
    "('inf \<Rightarrow> ('w, 'sel) Indexer) \<Rightarrow> 'inf new_informer \<Rightarrow> placementPolicyInformer \<Rightarrow> 'inf sharedInformerFactory
      \<Rightarrow> ('w, 'sel) PlacementPolicyLister \<times> 'inf sharedInformerFactory" where
  "PolicyInformer_Lister GetIndexer mk a f =
     (case Informer mk a f of (informer, f') \<Rightarrow> (NewPlacementPolicyLister (GetIndexer informer), f'))"

text \<open>The struct as a value of its interface, over the factory it points to.\<close>

definition PolicyInformer_Interface ::
    "('inf \<Rightarrow> ('w, 'sel) Indexer) \<Rightarrow> 'inf new_informer \<Rightarrow> placementPolicyInformer
      \<Rightarrow> ('inf sharedInformerFactory, 'inf, 'w, 'sel) PlacementPolicyInformer" where
  "PolicyInformer_Interface GetIndexer mk a =
     \<lparr>pp_Informer = Informer mk a, pp_Lister = PolicyInformer_Lister GetIndexer mk a\<rparr>"

subsection \<open>Generic access\<close>

record 'inf genericInformer =
  gi_resource :: GroupResource
  gi_informer :: 'inf

text \<open>\<open>GetIndexer\<close> and \<open>cache.NewGenericLister\<close> are client-go's.\<close>

definition genericInformer_Informer :: "'inf genericInformer \<Rightarrow> 'inf" where
  "genericInformer_Informer f = gi_informer f"

definition genericInformer_Lister ::
    "('inf \<Rightarrow> 'ix) \<Rightarrow> ('ix \<Rightarrow> GroupResource \<Rightarrow> 'lister) \<Rightarrow> 'inf genericInformer \<Rightarrow> 'lister" where
  "genericInformer_Lister GetIndexer NewGenericLister f =
     NewGenericLister (GetIndexer (genericInformer_Informer f)) (gi_resource f)"

definition genericInformer_Interface ::
    "('inf \<Rightarrow> 'ix) \<Rightarrow> ('ix \<Rightarrow> GroupResource \<Rightarrow> 'lister) \<Rightarrow> 'inf genericInformer \<Rightarrow> ('inf, 'lister) GenericInformer" where
  "genericInformer_Interface GetIndexer NewGenericLister f =
     \<lparr>gen_Informer = genericInformer_Informer f, gen_Lister = genericInformer_Lister GetIndexer NewGenericLister f\<rparr>"

definition ForResource ::
    "'inf new_informer \<Rightarrow> GroupVersionResource \<Rightarrow> 'inf sharedInformerFactory
      \<Rightarrow> ('inf genericInformer option \<times> goerror option) \<times> 'inf sharedInformerFactory" where
  "ForResource mk resource f =
     (if resource = WithResource SchemeGroupVersion ''placementpolicies'' then
        (case Informer mk (PlacementPolicies (V1alpha1 (Placementpolicy f))) f of (informer, f') \<Rightarrow>
          ((Some \<lparr>gi_resource = GroupResourceOf resource, gi_informer = informer\<rparr>, None), f'))
      else ((None, Some (Errorf ''no informer found for %v'' [ArgResource resource])), f))"

text \<open>The factory as a value of its interface.\<close>

definition factory_Interface ::
    "'inf new_informer
      \<Rightarrow> ('inf sharedInformerFactory, 'inf, informer_group, 'inf genericInformer) SharedInformerFactory" where
  "factory_Interface mk =
     \<lparr>sif_Start = Start, sif_InformerFor = InformerFor, sif_ForResource = ForResource mk,
      sif_WaitForCacheSync = WaitForCacheSync, sif_Placementpolicy = Placementpolicy\<rparr>"

subsection \<open>New\<close>

text \<open>
  What \<open>New\<close> calls outside the repository: the two client constructors, which panic on a
  bad configuration, the making of an informer, its indexer, and the wait for its cache.
\<close>

record ('w, 'sel, 'inf) environment =
  kubernetes_NewForConfigOrDie :: "handle \<Rightarrow> 'w KubeClient go"
  ppclientset_NewForConfigOrDie :: "handle \<Rightarrow> handle go"
  cache_NewSharedIndexInformer :: "'inf new_informer"
  inf_GetIndexer :: "'inf \<Rightarrow> ('w, 'sel) Indexer"
  cache_WaitForCacheSync :: "'inf \<Rightarrow> bool"

text \<open>
  The scheduler's handle, as far as \<open>New\<close> reads it: its configuration, its snapshot lister,
  its pod lister, and what the plugin keeps of it.
\<close>

record ('w, 'sel) scheduler_handle =
  KubeConfig :: handle
  SnapshotSharedLister :: handle
  PodsLister :: "'w machine \<Rightarrow> 'sel \<Rightarrow> pod_ref list \<times> goerror option"
  framework_handle :: "'w FrameworkHandle"

record ('w, 'inf) new_result =
  nr_plugin :: "'w Plugin option"
  nr_error :: "goerror option"
  nr_factory :: "'inf sharedInformerFactory"
  nr_launches :: "(string \<times> 'inf) list"

definition New ::
    "('w, 'sel, 'inf) environment \<Rightarrow> 'sel packages \<Rightarrow> ('w, 'sel) scheduler_handle \<Rightarrow> ('w, 'inf) new_result go" where
  "New env pk h =
     go_bind (kubernetes_NewForConfigOrDie env (KubeConfig h)) (\<lambda>kube.
     go_bind (ppclientset_NewForConfigOrDie env (KubeConfig h)) (\<lambda>ppc.
     let ppInformerFactory = factory_Interface (cache_NewSharedIndexInformer env);
         factory = NewSharedInformerFactory ppc 0;
         ppInformer = PolicyInformer_Interface (inf_GetIndexer env) (cache_NewSharedIndexInformer env)
           (PlacementPolicies (V1alpha1 (sif_Placementpolicy ppInformerFactory factory))) in
     case NewPlacementPolicyManager kube ppc (SnapshotSharedLister h) ppInformer (PodsLister h) factory of (mgr, factory) \<Rightarrow>
     let plugin = \<lparr>frameworkHandler = framework_handle h, ppMgr = as_Manager pk mgr\<rparr> in
     case sif_Start ppInformerFactory factory of (factory, launches) \<Rightarrow>
     case pp_Informer ppInformer factory of (informer, factory) \<Rightarrow>
     if \<not> cache_WaitForCacheSync env informer
     then Return \<lparr>nr_plugin = None, nr_error = Some (Errorf ''WaitForCacheSync failed'' []),
            nr_factory = factory, nr_launches = launches\<rparr>
     else Return \<lparr>nr_plugin = Some plugin, nr_error = None,
            nr_factory = factory, nr_launches = launches\<rparr>))"

subsection \<open>What New does\<close>

text \<open>The informer \<open>New\<close> makes: all namespaces, no tweak, no resync, indexed by namespace.\<close>

definition policy_informer :: "('w, 'sel, 'inf) environment \<Rightarrow> handle \<Rightarrow> 'inf" where
  "policy_informer env ppc =
     NewPlacementPolicyInformer (cache_NewSharedIndexInformer env) ppc '''' 0 [NamespaceIndex]"

lemma new_factory_accessor [simp]:
  "PlacementPolicies (V1alpha1 (Placementpolicy (NewSharedInformerFactory c d))) =
     \<lparr>ppi_namespace = '''', ppi_tweakListOptions = None\<rparr>"
  by (simp add: PlacementPolicies_def V1alpha1_def Placementpolicy_def apis_New_def v1alpha1_New_def
      NewSharedInformerFactory_def NewSharedInformerFactoryWithOptions_def)

lemma first_informer:
  "Informer mk \<lparr>ppi_namespace = '''', ppi_tweakListOptions = None\<rparr> (NewSharedInformerFactory ppc 0) =
     (let informer = NewPlacementPolicyInformer mk ppc '''' 0 [NamespaceIndex]
      in (informer, (NewSharedInformerFactory ppc 0)\<lparr>fac_informers := [(policy_type, informer)]\<rparr>))"
  by (simp add: Informer_def InformerFor_def defaultInformer_def NewPlacementPolicyInformer_def
      NewSharedInformerFactory_def NewSharedInformerFactoryWithOptions_def map_store_def)

lemma Informer_shared:
  "map_of (fac_informers f) policy_type = Some informer \<Longrightarrow> Informer mk a f = (informer, f)"
  by (simp add: Informer_def InformerFor_def)

lemma New_eq:
  assumes "kubernetes_NewForConfigOrDie env (KubeConfig h) = Return kube"
    and "ppclientset_NewForConfigOrDie env (KubeConfig h) = Return ppc"
  shows "\<exists>res. New env pk h = Return res \<and>
    nr_launches res = [(policy_type, policy_informer env ppc)] \<and>
    fac_informers (nr_factory res) = [(policy_type, policy_informer env ppc)] \<and>
    (if cache_WaitForCacheSync env (policy_informer env ppc)
     then nr_error res = None \<and> nr_plugin res = Some
       \<lparr>frameworkHandler = framework_handle h,
        ppMgr = as_Manager pk \<lparr>client = kube, ppClient = ppc, podLister = PodsLister h,
          snapshotSharedLister = SnapshotSharedLister h,
          ppLister = NewPlacementPolicyLister (inf_GetIndexer env (policy_informer env ppc))\<rparr>\<rparr>
     else nr_plugin res = None \<and> nr_error res = Some (Errorf ''WaitForCacheSync failed'' []))"
proof -
  let ?i = "policy_informer env ppc"
  let ?f = "(NewSharedInformerFactory ppc 0)\<lparr>fac_informers := [(policy_type, ?i)]\<rparr> :: 'c sharedInformerFactory"
  have s: "Start ?f = (?f\<lparr>fac_startedInformers := [(policy_type, True)]\<rparr>, [(policy_type, ?i)])"
    by (simp add: Start_def started_def map_store_def NewSharedInformerFactory_def
        NewSharedInformerFactoryWithOptions_def)
  show ?thesis
    using assms s
    by (simp add: New_def factory_Interface_def NewPlacementPolicyManager_def PolicyInformer_Interface_def PolicyInformer_Lister_def first_informer
        policy_informer_def Informer_shared Let_def)
qed

end
