(* ===== verification/Informer_Properties.thy ===== *)
theory Informer_Properties
  imports Plugin_Bootstrap Example_Cluster
begin

section \<open>Properties of the informer factory and of the bootstrap\<close>

text \<open>
  The informers behind the policy lister: each is made once, started once and waited for,
  and the plugin that \<open>New\<close> returns reads from the one that was started. In the witnesses
  an informer is the number of its resync period.
\<close>

definition ex_new :: "nat \<Rightarrow> handle \<Rightarrow> Duration \<Rightarrow> nat" where
  "ex_new n c d = n + unat d"

text \<open>
  C33: in any sequence of registrations and starts on a new factory, whatever options it was
  made with, no type is launched twice, every launched informer is the one registered for
  its type, and the types the factory calls started are exactly those launched.
\<close>

theorem factory_starts_each_once:
  assumes "\<forall>opt \<in> set options. package_option opt"
    and "run_factory ops (NewSharedInformerFactoryWithOptions c d options) = (f, launches)"
  shows "distinct (map fst launches) \<and>
    (\<forall>(t, i) \<in> set launches. map_of (fac_informers f) t = Some i) \<and>
    (\<forall>t. started (fac_startedInformers f) t \<longleftrightarrow> t \<in> fst ` set launches)"
  using run_factory_launches [OF new_factory_ok(1) [OF assms(1)] assms(2)]
    run_factory_started [OF new_factory_ok(1) [OF assms(1)] assms(2)] new_factory_ok(2) [OF assms(1)]
  by auto

theorem factory_starts_each_once_witness:
  "let ops = [Register ''a'' (ex_new 1), StartAll, Register ''b'' (ex_new 2), Register ''a'' (ex_new 3), StartAll]
   in snd (run_factory ops (NewSharedInformerFactoryWithOptions (Handle 0) 5 [WithNamespace ''default''])) =
        [(''a'', 6), (''b'', 7)] \<and>
      distinct (map fst (snd (run_factory ops
        (NewSharedInformerFactoryWithOptions (Handle 0) 5 [WithNamespace ''default'']))))"
  using factory_starts_each_once [of "[WithNamespace ''default'']"
      "[Register ''a'' (ex_new 1), StartAll, Register ''b'' (ex_new 2), Register ''a'' (ex_new 3), StartAll]"
      "Handle 0" 5]
  by (simp add: Let_def package_option_def prod_eq_iff)
    (simp add: NewSharedInformerFactoryWithOptions_def WithNamespace_def InformerFor_def Start_def
      started_def map_store_def ex_new_def)

text \<open>
  Asking for the informer of a type again, at any later time and with any constructor,
  returns the one the first request made and changes nothing.
\<close>

theorem informer_is_shared:
  assumes "InformerFor t newFunc f = (i, f1)" "run_factory ops f1 = (f2, launches)"
  shows "InformerFor t newFunc' f2 = (i, f2)"
proof -
  have "map_of (fac_informers f1) t = Some i"
    using InformerFor_registered [of t newFunc f] assms(1) by simp
  from run_factory_keeps [OF assms(2) this] show ?thesis by (simp add: InformerFor_def)
qed

theorem informer_is_shared_witness:
  "let f1 = snd (InformerFor ''a'' (ex_new 1) (NewSharedInformerFactory (Handle 0) 5));
       f2 = fst (run_factory [StartAll, Register ''b'' (ex_new 2)] f1)
   in InformerFor ''a'' (ex_new 9) f2 = (6, f2)"
  using informer_is_shared [of "''a''" "ex_new 1" "NewSharedInformerFactory (Handle 0) 5" 6
      "snd (InformerFor ''a'' (ex_new 1) (NewSharedInformerFactory (Handle 0) 5))"
      "[StartAll, Register ''b'' (ex_new 2)]"]
  by (simp add: Let_def prod_eq_iff InformerFor_def NewSharedInformerFactory_def
      NewSharedInformerFactoryWithOptions_def ex_new_def)

text \<open>
  After a start, waiting for the caches reports on every registered informer, each by
  its own answer; before it, on none that was not started.
\<close>

theorem wait_covers_started:
  assumes "map_wf (fac_informers f)"
  shows "map_of (WaitForCacheSync has_synced (fst (Start f))) t =
      map_option has_synced (map_of (fac_informers f) t) \<and>
    (\<not> started (fac_startedInformers f) t \<longrightarrow> map_of (WaitForCacheSync has_synced f) t = None)"
proof -
  have "started (fac_startedInformers (fst (Start f))) t" if "map_of (fac_informers f) t \<noteq> None"
    using that by (simp add: Start_started map_of_eq_None_iff)
  then show ?thesis
    using assms by (cases "map_of (fac_informers f) t") (simp_all add: WaitForCacheSync_lookup)
qed

theorem wait_covers_started_witness:
  "let f = snd (InformerFor ''a'' (ex_new 1) (NewSharedInformerFactory (Handle 0) 5))
   in map_of (WaitForCacheSync (\<lambda>i. i = 6) (fst (Start f))) ''a'' = Some True \<and>
      map_of (WaitForCacheSync (\<lambda>i. i = 6) f) ''a'' = None"
proof -
  let ?f = "snd (InformerFor ''a'' (ex_new 1) (NewSharedInformerFactory (Handle 0) 5))"
  have f: "fac_informers ?f = [(''a'', 6)]" "fac_startedInformers ?f = []"
    by (simp_all add: InformerFor_def NewSharedInformerFactory_def
        NewSharedInformerFactoryWithOptions_def map_store_def ex_new_def)
  then have "map_wf (fac_informers ?f)" by (simp add: map_wf_def)
  from wait_covers_started [OF this, of "\<lambda>i. i = 6" "''a''"] f show ?thesis
    by (simp add: Let_def started_def)
qed

text \<open>
  The first request for a type makes its informer with the factory's client and the
  resync period configured for that type, or the default one if none is.
\<close>

theorem resync_period_of_type:
  assumes "map_wf cfg"
  shows "fst (InformerFor t newFunc (NewSharedInformerFactoryWithOptions c d [WithCustomResyncConfig cfg])) =
    newFunc c (case map_of cfg t of Some period \<Rightarrow> period | None \<Rightarrow> d)"
proof -
  have "map_of (rev cfg) = map_of cfg"
    using assms by (intro map_of_mset [symmetric]) simp_all
  then show ?thesis
    by (simp add: NewSharedInformerFactoryWithOptions_def InformerFor_def custom_resync_fields
        custom_resync_lookup Let_def split: option.split)
qed

text \<open>
  C32: when both clients can be made, \<open>New\<close> launches exactly one informer: the policy
  informer over all namespaces with no tweak and no resync. It waits for that informer, and
  returns a plugin exactly if its cache synced; the plugin's manager then lists policies
  from the very informer that was launched. Otherwise it returns the error.
\<close>

theorem new_starts_what_it_reads:
  assumes "kubernetes_NewForConfigOrDie env (KubeConfig h) = Return kube"
    and "ppclientset_NewForConfigOrDie env (KubeConfig h) = Return ppc"
  shows "\<exists>res informer m. New env pk h = Return res \<and>
    informer = NewPlacementPolicyInformer (cache_NewSharedIndexInformer env) ppc '''' 0 [NamespaceIndex] \<and>
    nr_launches res = [(policy_type, informer)] \<and>
    fac_informers (nr_factory res) = [(policy_type, informer)] \<and>
    ppLister m = NewPlacementPolicyLister (inf_GetIndexer env informer) \<and> client m = kube \<and>
    (if cache_WaitForCacheSync env informer
     then nr_error res = None \<and>
       nr_plugin res = Some \<lparr>frameworkHandler = framework_handle h, ppMgr = as_Manager pk m\<rparr>
     else nr_plugin res = None \<and> nr_error res = Some (Errorf ''WaitForCacheSync failed'' []))"
proof -
  let ?i = "policy_informer env ppc"
  let ?m = "\<lparr>client = kube, ppClient = ppc, podLister = PodsLister h,
     snapshotSharedLister = SnapshotSharedLister h, ppLister = NewPlacementPolicyLister (inf_GetIndexer env ?i)\<rparr>"
  from New_eq [OF assms, of pk] obtain res where "New env pk h = Return res"
    "nr_launches res = [(policy_type, ?i)]" "fac_informers (nr_factory res) = [(policy_type, ?i)]"
    "if cache_WaitForCacheSync env ?i
     then nr_error res = None \<and>
       nr_plugin res = Some \<lparr>frameworkHandler = framework_handle h, ppMgr = as_Manager pk ?m\<rparr>
     else nr_plugin res = None \<and> nr_error res = Some (Errorf ''WaitForCacheSync failed'' [])" by blast
  then show ?thesis
    by (intro exI [of _ res] exI [of _ ?i] exI [of _ ?m])
      (simp add: policy_informer_def)
qed

definition ex_environment :: "bool \<Rightarrow> (unit, strmap, ListWatch) environment" where
  "ex_environment synced =
     \<lparr>kubernetes_NewForConfigOrDie = (\<lambda>cfg. Return ex_client),
      ppclientset_NewForConfigOrDie = (\<lambda>cfg. Return (Handle 1)),
      cache_NewSharedIndexInformer = (\<lambda>lw d ix. lw),
      inf_GetIndexer = (\<lambda>lw. ex_indexer [ex_policy]),
      cache_WaitForCacheSync = (\<lambda>lw. synced)\<rparr>"

definition ex_scheduler :: "(unit, strmap) scheduler_handle" where
  "ex_scheduler = \<lparr>KubeConfig = Handle 7, SnapshotSharedLister = Handle 8,
     PodsLister = (\<lambda>\<sigma> sel. ([0, 1], None)), framework_handle = ex_handle\<rparr>"

theorem new_starts_what_it_reads_witness:
  "\<exists>res. New (ex_environment False) ex_packages ex_scheduler = Return res \<and>
    map fst (nr_launches res) = [policy_type] \<and> nr_plugin res = None \<and>
    nr_error res = Some (Errorf ''WaitForCacheSync failed'' [])"
proof -
  have "kubernetes_NewForConfigOrDie (ex_environment False) (KubeConfig ex_scheduler) = Return ex_client"
    "ppclientset_NewForConfigOrDie (ex_environment False) (KubeConfig ex_scheduler) = Return (Handle 1)"
    by (simp_all add: ex_environment_def)
  from new_starts_what_it_reads [OF this, of ex_packages] show ?thesis
    by (auto simp: ex_environment_def)
qed

text \<open>
  C34: generic access knows one resource, the policies of the group and version of the
  scheme: for it, the informer returned is the one the typed access of the same factory
  returns from then on, whatever is registered or started in between; every other resource
  gets an error and leaves the factory as it was.
\<close>

theorem generic_access_shares_informer:
  assumes "ForResource mk resource f = ((res, err), f1)" "run_factory ops f1 = (f2, launches)"
  shows "case res of
      Some gi \<Rightarrow> err = None \<and> Informer mk a f2 = (gi_informer gi, f2) \<and>
        resource = \<lparr>gvrGroup = ''placement-policy.scheduling.x-k8s.io'', gvrVersion = ''v1alpha1'',
          gvrResource = ''placementpolicies''\<rparr> \<and>
        gi_resource gi = \<lparr>grGroup = ''placement-policy.scheduling.x-k8s.io'', grResource = ''placementpolicies''\<rparr>
    | None \<Rightarrow> err = Some (Errorf ''no informer found for %v'' [ArgResource resource]) \<and> f1 = f \<and>
        resource \<noteq> \<lparr>gvrGroup = ''placement-policy.scheduling.x-k8s.io'', gvrVersion = ''v1alpha1'',
          gvrResource = ''placementpolicies''\<rparr>"
proof (cases "resource = WithResource SchemeGroupVersion ''placementpolicies''")
  case True
  let ?a = "PlacementPolicies (V1alpha1 (Placementpolicy f))"
  obtain informer f' where i: "Informer mk ?a f = (informer, f')" by fastforce
  with assms(1) True have r: "res = Some \<lparr>gi_resource = GroupResourceOf resource, gi_informer = informer\<rparr>"
    "err = None" "f1 = f'"
    by (simp_all add: ForResource_def)
  have "map_of (fac_informers f1) policy_type = Some informer"
    using InformerFor_registered [of policy_type "defaultInformer mk ?a" f] i r(3) by (simp add: Informer_def)
  from Informer_shared [OF run_factory_keeps [OF assms(2) this]] r True show ?thesis
    by (simp add: GroupResourceOf_def WithResource_def SchemeGroupVersion_def GroupName_def)
next
  case False
  with assms(1) show ?thesis
    by (auto simp: ForResource_def WithResource_def SchemeGroupVersion_def GroupName_def)
qed

theorem generic_access_shares_informer_witness:
  "let mk = (\<lambda>lw d ix. d); f = NewSharedInformerFactory (Handle 0) 5;
       r = ForResource mk (WithResource SchemeGroupVersion ''placementpolicies'') f;
       f2 = fst (run_factory [StartAll] (snd r))
   in Informer mk \<lparr>ppi_namespace = ''x'', ppi_tweakListOptions = None\<rparr> f2 = (gi_informer (the (fst (fst r))), f2)"
proof -
  let ?mk = "\<lambda>lw d ix. d :: Duration" and ?f = "NewSharedInformerFactory (Handle 0) 5"
  let ?r = "ForResource ?mk (WithResource SchemeGroupVersion ''placementpolicies'') ?f"
  have r: "?r = ((fst (fst ?r), snd (fst ?r)), snd ?r)"
    and o: "run_factory [StartAll] (snd ?r) = (fst (run_factory [StartAll] (snd ?r)), snd (run_factory [StartAll] (snd ?r)))"
    by simp_all
  have "fst (fst ?r) \<noteq> None" by (simp add: ForResource_def split: prod.split)
  with generic_access_shares_informer [OF r o, of "\<lparr>ppi_namespace = ''x'', ppi_tweakListOptions = None\<rparr>"]
  show ?thesis by (auto simp: Let_def)
qed

end
