(* ===== verification/Deep_Copy.thy ===== *)
theory Deep_Copy
  imports Api_Types
begin

section \<open>Deep copies\<close>

text \<open>
  \<open>apis/v1alpha1/zz_generated.deepcopy.go\<close>: copying policies without sharing memory. Here
  the pointers matter, so a policy is a struct whose pointer fields are addresses of a heap
  of cells, and its value (the record of \<open>Api_Types\<close>) is what a reader finds by following
  them. \<open>metav1\<close> copies its own structs: those two methods are parameters. Assigning a struct
  (\<open>*out = *in\<close>) copies its fields, addresses included; \<open>new\<close> with the assignment that
  follows it is one allocation.
\<close>

subsection \<open>Structs with pointers\<close>

type_synonym addr = nat

record policy_struct =
  psAction :: Action
  psTargetSize :: "addr option"

record spec_struct =
  ssWeight :: int32
  ssEnforcementMode :: EnforcementMode
  ssPodSelector :: "addr option"
  ssNodeSelector :: "addr option"
  ssPolicy :: "addr option"

record ObjectMeta =
  metaName :: string
  metaNamespace :: string
  metaLabels :: strmap

text \<open>\<open>PlacementPolicyStatus\<close> is a struct without fields: it has one value.\<close>

datatype PlacementPolicyStatus = EmptyStatus

record object_struct =
  osObjectMeta :: ObjectMeta
  osSpec :: spec_struct
  osStatus :: PlacementPolicyStatus

record list_struct =
  lsResourceVersion :: string
  lsItems :: "addr option"

datatype cell =
  TargetCell IntOrString
| SelectorCell LabelSelector
| PolicyCell policy_struct
| SpecCell spec_struct
| StatusCell PlacementPolicyStatus
| ObjectCell object_struct
| ItemsCell "object_struct list"
| ListCell list_struct

record heap =
  cells :: "addr \<Rightarrow> cell option"
  next_addr :: addr

definition alloc :: "cell \<Rightarrow> heap \<Rightarrow> addr \<times> heap" where
  "alloc c h = (next_addr h,
     h\<lparr>cells := (cells h)(next_addr h \<mapsto> c), next_addr := Suc (next_addr h)\<rparr>)"

record meta_package =
  ObjectMeta_DeepCopy :: "ObjectMeta \<Rightarrow> ObjectMeta"
  LabelSelector_DeepCopy :: "LabelSelector \<Rightarrow> LabelSelector"

subsection \<open>The generated methods\<close>

text \<open>
  \<open>copy_pointer\<close> is the block \<open>if in.F != nil { *out = new(T); (*in).DeepCopyInto(*out) }\<close>:
  nil stays nil, otherwise the target is read, copied and stored in a new cell.
\<close>

definition copy_pointer ::
    "(cell \<Rightarrow> 'x option) \<Rightarrow> ('x \<Rightarrow> cell) \<Rightarrow> ('x \<Rightarrow> heap \<Rightarrow> ('x \<times> heap) go) \<Rightarrow> addr option \<Rightarrow> heap
      \<Rightarrow> (addr option \<times> heap) go" where
  "copy_pointer sel mk into p h =
     (case p of
        None \<Rightarrow> Return (None, h)
      | Some a \<Rightarrow>
          go_bind (deref (Option.bind (cells h a) sel)) (\<lambda>x.
          go_bind (into x h) (\<lambda>(x', h').
          case alloc (mk x') h' of (b, h'') \<Rightarrow> Return (Some b, h''))))"

definition is_target :: "cell \<Rightarrow> IntOrString option" where
  "is_target c = (case c of TargetCell t \<Rightarrow> Some t | _ \<Rightarrow> None)"

definition is_selector :: "cell \<Rightarrow> LabelSelector option" where
  "is_selector c = (case c of SelectorCell s \<Rightarrow> Some s | _ \<Rightarrow> None)"

definition is_policy :: "cell \<Rightarrow> policy_struct option" where
  "is_policy c = (case c of PolicyCell p \<Rightarrow> Some p | _ \<Rightarrow> None)"

definition is_spec :: "cell \<Rightarrow> spec_struct option" where
  "is_spec c = (case c of SpecCell s \<Rightarrow> Some s | _ \<Rightarrow> None)"

definition is_status :: "cell \<Rightarrow> PlacementPolicyStatus option" where
  "is_status c = (case c of StatusCell s \<Rightarrow> Some s | _ \<Rightarrow> None)"

definition is_object :: "cell \<Rightarrow> object_struct option" where
  "is_object c = (case c of ObjectCell ob \<Rightarrow> Some ob | _ \<Rightarrow> None)"

definition is_items :: "cell \<Rightarrow> object_struct list option" where
  "is_items c = (case c of ItemsCell xs \<Rightarrow> Some xs | _ \<Rightarrow> None)"

definition is_list :: "cell \<Rightarrow> list_struct option" where
  "is_list c = (case c of ListCell l \<Rightarrow> Some l | _ \<Rightarrow> None)"

definition Policy_DeepCopyInto :: "policy_struct \<Rightarrow> heap \<Rightarrow> (policy_struct \<times> heap) go" where
  "Policy_DeepCopyInto x h =
     go_bind (copy_pointer is_target TargetCell (\<lambda>t h. Return (t, h)) (psTargetSize x) h) (\<lambda>(t, h').
       Return (x\<lparr>psTargetSize := t\<rparr>, h'))"

definition selector_into :: "meta_package \<Rightarrow> LabelSelector \<Rightarrow> heap \<Rightarrow> (LabelSelector \<times> heap) go" where
  "selector_into mp s h = Return (LabelSelector_DeepCopy mp s, h)"

definition Spec_DeepCopyInto :: "meta_package \<Rightarrow> spec_struct \<Rightarrow> heap \<Rightarrow> (spec_struct \<times> heap) go" where
  "Spec_DeepCopyInto mp x h =
     go_bind (copy_pointer is_selector SelectorCell (selector_into mp) (ssPodSelector x) h) (\<lambda>(ps, h).
     go_bind (copy_pointer is_selector SelectorCell (selector_into mp) (ssNodeSelector x) h) (\<lambda>(ns, h).
     go_bind (copy_pointer is_policy PolicyCell Policy_DeepCopyInto (ssPolicy x) h) (\<lambda>(pol, h).
       Return (x\<lparr>ssPodSelector := ps, ssNodeSelector := ns, ssPolicy := pol\<rparr>, h))))"

definition Status_DeepCopyInto :: "PlacementPolicyStatus \<Rightarrow> heap \<Rightarrow> (PlacementPolicyStatus \<times> heap) go" where
  "Status_DeepCopyInto x h = Return (x, h)"

definition Object_DeepCopyInto :: "meta_package \<Rightarrow> object_struct \<Rightarrow> heap \<Rightarrow> (object_struct \<times> heap) go" where
  "Object_DeepCopyInto mp x h =
     (let out = x\<lparr>osObjectMeta := ObjectMeta_DeepCopy mp (osObjectMeta x)\<rparr> in
      go_bind (Spec_DeepCopyInto mp (osSpec x) h) (\<lambda>(s, h').
        Return (out\<lparr>osSpec := s, osStatus := osStatus x\<rparr>, h')))"

text \<open>The loop \<open>for i := range *in { (*in)[i].DeepCopyInto(&(*out)[i]) }\<close>.\<close>

primrec items_into :: "meta_package \<Rightarrow> object_struct list \<Rightarrow> heap \<Rightarrow> (object_struct list \<times> heap) go" where
  "items_into mp [] h = Return ([], h)"
| "items_into mp (x # xs) h =
     go_bind (Object_DeepCopyInto mp x h) (\<lambda>(x', h').
     go_bind (items_into mp xs h') (\<lambda>(xs', h''). Return (x' # xs', h'')))"

definition List_DeepCopyInto :: "meta_package \<Rightarrow> list_struct \<Rightarrow> heap \<Rightarrow> (list_struct \<times> heap) go" where
  "List_DeepCopyInto mp x h =
     go_bind (copy_pointer is_items ItemsCell (items_into mp) (lsItems x) h) (\<lambda>(items, h').
       Return (x\<lparr>lsItems := items\<rparr>, h'))"

text \<open>The \<open>DeepCopy\<close> methods: nil for nil, otherwise a new struct filled by \<open>DeepCopyInto\<close>.\<close>

definition Policy_DeepCopy :: "addr option \<Rightarrow> heap \<Rightarrow> (addr option \<times> heap) go" where
  "Policy_DeepCopy p h = copy_pointer is_policy PolicyCell Policy_DeepCopyInto p h"

definition Spec_DeepCopy :: "meta_package \<Rightarrow> addr option \<Rightarrow> heap \<Rightarrow> (addr option \<times> heap) go" where
  "Spec_DeepCopy mp p h = copy_pointer is_spec SpecCell (Spec_DeepCopyInto mp) p h"

definition Status_DeepCopy :: "addr option \<Rightarrow> heap \<Rightarrow> (addr option \<times> heap) go" where
  "Status_DeepCopy p h = copy_pointer is_status StatusCell Status_DeepCopyInto p h"

definition Object_DeepCopy :: "meta_package \<Rightarrow> addr option \<Rightarrow> heap \<Rightarrow> (addr option \<times> heap) go" where
  "Object_DeepCopy mp p h = copy_pointer is_object ObjectCell (Object_DeepCopyInto mp) p h"

definition List_DeepCopy :: "meta_package \<Rightarrow> addr option \<Rightarrow> heap \<Rightarrow> (addr option \<times> heap) go" where
  "List_DeepCopy mp p h = copy_pointer is_list ListCell (List_DeepCopyInto mp) p h"

text \<open>\<open>DeepCopyObject\<close> wraps the pointer into an interface, and a nil pointer into nil.\<close>

definition Object_DeepCopyObject :: "meta_package \<Rightarrow> addr option \<Rightarrow> heap \<Rightarrow> (addr option \<times> heap) go" where
  "Object_DeepCopyObject mp p h =
     go_bind (Object_DeepCopy mp p h) (\<lambda>(c, h'). case c of None \<Rightarrow> Return (None, h') | Some b \<Rightarrow> Return (Some b, h'))"

definition List_DeepCopyObject :: "meta_package \<Rightarrow> addr option \<Rightarrow> heap \<Rightarrow> (addr option \<times> heap) go" where
  "List_DeepCopyObject mp p h =
     go_bind (List_DeepCopy mp p h) (\<lambda>(c, h'). case c of None \<Rightarrow> Return (None, h') | Some b \<Rightarrow> Return (Some b, h'))"

subsection \<open>Values, reach, and growing heaps\<close>

text \<open>
  The contract of a copying method: \<open>val\<close> reads the value of a struct through the heap,
  \<open>reach\<close> is the set of cells the reading visits. A value depends on the cells it reaches
  only, and those are allocated. Copying keeps every existing cell, gives the copied value
  (\<open>conv\<close> is what the parameters of \<open>meta_package\<close> make of it), and the copy reaches new
  cells only.
\<close>

type_synonym store = "addr \<Rightarrow> cell option"

definition heap_ok :: "heap \<Rightarrow> bool" where
  "heap_ok h \<longleftrightarrow> dom (cells h) \<subseteq> {..<next_addr h}"

definition grows :: "heap \<Rightarrow> heap \<Rightarrow> bool" where
  "grows h h' \<longleftrightarrow> next_addr h \<le> next_addr h' \<and> heap_ok h' \<and>
     (\<forall>a. a < next_addr h \<longrightarrow> cells h' a = cells h a)"

lemma grows_refl: "heap_ok h \<Longrightarrow> grows h h"
  by (simp add: grows_def)

lemma grows_trans: "grows h h' \<Longrightarrow> grows h' h'' \<Longrightarrow> grows h h''"
  by (auto simp: grows_def)

lemma grows_ok: "grows h h' \<Longrightarrow> heap_ok h'"
  by (simp add: grows_def)

lemma fresh_mono: "S \<subseteq> {a..<b} \<Longrightarrow> a' \<le> a \<Longrightarrow> b \<le> b' \<Longrightarrow> S \<subseteq> {a'..<b'}" for a :: addr
  by fastforce

lemma alloc_grows: "heap_ok h \<Longrightarrow> alloc c h = (b, h') \<Longrightarrow>
    grows h h' \<and> b = next_addr h \<and> next_addr h' = Suc b \<and> cells h' b = Some c"
  by (force simp: alloc_def grows_def heap_ok_def)

text \<open>
  \<open>y\<close> is a copy of \<open>x\<close>: both have the value \<open>v\<close>, and writing anything into a cell of one does
  not change what is read from the other.
\<close>

definition separate_copy ::
    "(store \<Rightarrow> 'x \<Rightarrow> 'v option) \<Rightarrow> (store \<Rightarrow> 'x \<Rightarrow> addr set) \<Rightarrow> heap \<Rightarrow> 'x \<Rightarrow> 'x \<Rightarrow> 'v \<Rightarrow> bool" where
  "separate_copy val reach h x y v \<longleftrightarrow>
     val (cells h) x = Some v \<and> val (cells h) y = Some v \<and>
     (\<forall>a \<in> reach (cells h) y. \<forall>w. val ((cells h)(a := w)) x = Some v) \<and>
     (\<forall>a \<in> reach (cells h) x. \<forall>w. val ((cells h)(a := w)) y = Some v)"

locale copyable =
  fixes into :: "'x \<Rightarrow> heap \<Rightarrow> ('x \<times> heap) go"
    and val :: "store \<Rightarrow> 'x \<Rightarrow> 'v option"
    and reach :: "store \<Rightarrow> 'x \<Rightarrow> addr set"
    and conv :: "'v \<Rightarrow> 'v"
  assumes reads: "\<forall>a \<in> reach c x. c' a = c a \<Longrightarrow> val c' x = val c x \<and> reach c' x = reach c x"
    and allocated: "val c x = Some v \<Longrightarrow> reach c x \<subseteq> dom c"
    and copies: "heap_ok h \<Longrightarrow> val (cells h) x = Some v \<Longrightarrow>
      \<exists>x' h'. into x h = Return (x', h') \<and> grows h h' \<and> val (cells h') x' = Some (conv v) \<and>
        reach (cells h') x' \<subseteq> {next_addr h..<next_addr h'}"
begin

lemma kept:
  assumes "heap_ok h" "grows h h'" "val (cells h) x = Some v"
  shows "val (cells h') x = Some v \<and> reach (cells h') x = reach (cells h) x"
proof -
  have "reach (cells h) x \<subseteq> {..<next_addr h}"
    using assms(1) allocated [OF assms(3)] by (auto simp: heap_ok_def)
  then have "\<forall>a \<in> reach (cells h) x. cells h' a = cells h a"
    using assms(2) by (auto simp: grows_def)
  from reads [OF this] assms(3) show ?thesis by simp
qed

text \<open>A copy stays apart: what is written into its cells does not change the original.\<close>

lemma apart:
  assumes "heap_ok h" "val (cells h) x = Some v" "grows h h'" "next_addr h \<le> a"
  shows "val ((cells h')(a := w)) x = Some v"
proof -
  have "reach (cells h) x \<subseteq> {..<next_addr h}"
    using assms(1) allocated [OF assms(2)] by (auto simp: heap_ok_def)
  then have "\<forall>b \<in> reach (cells h) x. ((cells h')(a := w)) b = cells h b"
    using assms(3,4) by (auto simp: grows_def)
  from reads [OF this] have "val ((cells h')(a := w)) x = val (cells h) x" ..
  with assms(2) show ?thesis by (simp only:)
qed

lemma separate:
  assumes h: "heap_ok h" and v: "val (cells h) x = Some v" and id: "conv v = v"
  shows "\<exists>y h'. into x h = Return (y, h') \<and> separate_copy val reach h' x y v \<and>
    reach (cells h') y \<inter> dom (cells h) = {} \<and> (\<forall>a \<in> dom (cells h). cells h' a = cells h a)"
proof -
  from copies [OF h v] obtain y h' where c: "into x h = Return (y, h')" "grows h h'"
    "val (cells h') y = Some v" "reach (cells h') y \<subseteq> {next_addr h..<next_addr h'}"
    unfolding id by blast
  note k = kept [OF h c(2) v]
  have old: "a < next_addr h" if "a \<in> dom (cells h)" for a
    using h that by (auto simp: heap_ok_def)
  have new: "next_addr h \<le> a" if "a \<in> reach (cells h') y" for a
    using subsetD [OF c(4) that] by simp
  have "\<forall>a \<in> reach (cells h') x. \<forall>w. val ((cells h')(a := w)) y = Some v"
  proof (intro ballI allI)
    fix a w
    assume "a \<in> reach (cells h') x"
    then have "a < next_addr h" using k subsetD [OF allocated [OF v]] old by simp
    then have "\<forall>b \<in> reach (cells h') y. ((cells h')(a := w)) b = cells h' b"
      using new by fastforce
    from reads [OF this] have "val ((cells h')(a := w)) y = val (cells h') y" ..
    with c(3) show "val ((cells h')(a := w)) y = Some v" by (simp only:)
  qed
  moreover have "\<forall>a \<in> reach (cells h') y. \<forall>w. val ((cells h')(a := w)) x = Some v"
    using apart [OF h v c(2)] new by blast
  moreover have "reach (cells h') y \<inter> dom (cells h) = {}"
    using old new by fastforce
  moreover have "\<forall>a \<in> dom (cells h). cells h' a = cells h a"
    using old c(2) by (simp add: grows_def)
  ultimately show ?thesis using c(1,3) k unfolding separate_copy_def by blast
qed

end

subsection \<open>Pointers\<close>

definition val_ptr ::
    "(cell \<Rightarrow> 'x option) \<Rightarrow> (store \<Rightarrow> 'x \<Rightarrow> 'v option) \<Rightarrow> store \<Rightarrow> addr option \<Rightarrow> 'v option option" where
  "val_ptr sel val c p =
     (case p of None \<Rightarrow> Some None
      | Some a \<Rightarrow> (case Option.bind (c a) sel of None \<Rightarrow> None | Some x \<Rightarrow> map_option Some (val c x)))"

definition reach_ptr ::
    "(cell \<Rightarrow> 'x option) \<Rightarrow> (store \<Rightarrow> 'x \<Rightarrow> addr set) \<Rightarrow> store \<Rightarrow> addr option \<Rightarrow> addr set" where
  "reach_ptr sel reach c p =
     (case p of None \<Rightarrow> {}
      | Some a \<Rightarrow> insert a (case Option.bind (c a) sel of None \<Rightarrow> {} | Some x \<Rightarrow> reach c x))"

locale pointer = copyable into val reach conv
  for into :: "'x \<Rightarrow> heap \<Rightarrow> ('x \<times> heap) go" and val :: "store \<Rightarrow> 'x \<Rightarrow> 'v option"
    and reach :: "store \<Rightarrow> 'x \<Rightarrow> addr set" and conv :: "'v \<Rightarrow> 'v" +
  fixes sel :: "cell \<Rightarrow> 'x option" and mk :: "'x \<Rightarrow> cell"
  assumes sel_mk: "sel (mk x) = Some x"
begin

lemma ptr_copies:
  assumes h: "heap_ok h" and v: "val_ptr sel val (cells h) p = Some v"
  shows "\<exists>q h'. copy_pointer sel mk into p h = Return (q, h') \<and> grows h h' \<and>
    val_ptr sel val (cells h') q = Some (map_option conv v) \<and>
    reach_ptr sel reach (cells h') q \<subseteq> {next_addr h..<next_addr h'}"
proof (cases p)
  case None
  with h v show ?thesis by (auto simp: copy_pointer_def val_ptr_def reach_ptr_def grows_refl)
next
  case (Some a)
  with v obtain x w where x: "Option.bind (cells h a) sel = Some x" "val (cells h) x = Some w" "v = Some w"
    by (auto simp: val_ptr_def split: option.splits)
  from copies [OF h x(2)] obtain x' h1 where c: "into x h = Return (x', h1)" "grows h h1"
    "val (cells h1) x' = Some (conv w)" "reach (cells h1) x' \<subseteq> {next_addr h..<next_addr h1}" by blast
  obtain b h2 where al: "alloc (mk x') h1 = (b, h2)" by fastforce
  from alloc_grows [OF grows_ok [OF c(2)] al] have g: "grows h1 h2" "b = next_addr h1" "next_addr h2 = Suc b"
    and cell: "cells h2 b = Some (mk x')" by blast+
  have k: "val (cells h2) x' = Some (conv w) \<and> reach (cells h2) x' = reach (cells h1) x'"
    by (rule kept [OF grows_ok [OF c(2)] g(1) c(3)])
  have "copy_pointer sel mk into p h = Return (Some b, h2)"
    using Some x(1) c(1) al by (simp add: copy_pointer_def)
  moreover have "grows h h2" by (rule grows_trans [OF c(2) g(1)])
  moreover have "val_ptr sel val (cells h2) (Some b) = Some (map_option conv v)"
    using cell k x(3) by (simp add: val_ptr_def sel_mk)
  moreover have "reach_ptr sel reach (cells h2) (Some b) \<subseteq> {next_addr h..<next_addr h2}"
    using cell g k c(2,4) by (auto simp: reach_ptr_def sel_mk grows_def)
  ultimately show ?thesis by blast
qed

lemma ptr_reads:
  assumes "\<forall>a \<in> reach_ptr sel reach c p. c' a = c a"
  shows "val_ptr sel val c' p = val_ptr sel val c p \<and> reach_ptr sel reach c' p = reach_ptr sel reach c p"
proof (cases p)
  case None
  then show ?thesis by (simp add: val_ptr_def reach_ptr_def)
next
  case (Some a)
  with assms have a: "c' a = c a" by (simp add: reach_ptr_def)
  show ?thesis
  proof (cases "Option.bind (c a) sel")
    case None
    with Some a show ?thesis by (simp add: val_ptr_def reach_ptr_def)
  next
    case x: (Some x)
    with assms Some have "\<forall>b \<in> reach c x. c' b = c b" by (simp add: reach_ptr_def)
    from reads [OF this] Some a x show ?thesis by (simp add: val_ptr_def reach_ptr_def)
  qed
qed

lemma ptr_allocated: "val_ptr sel val c p = Some v \<Longrightarrow> reach_ptr sel reach c p \<subseteq> dom c"
  using allocated
  by (fastforce simp: val_ptr_def reach_ptr_def bind_eq_Some_conv split: option.splits)

end

text \<open>A pointer to something copyable is copyable.\<close>

sublocale pointer \<subseteq> ptr: copyable "copy_pointer sel mk into" "val_ptr sel val" "reach_ptr sel reach" "map_option conv"
  by unfold_locales (use ptr_reads ptr_allocated ptr_copies in \<open>blast+\<close>)

subsection \<open>The contract of each generated method\<close>

lemma sel_mk_simps [simp]:
  "is_target (TargetCell t) = Some t" "is_selector (SelectorCell s) = Some s" "is_policy (PolicyCell p) = Some p"
  "is_spec (SpecCell sp) = Some sp" "is_object (ObjectCell ob) = Some ob" "is_items (ItemsCell xs) = Some xs"
  "is_list (ListCell l) = Some l"
  by (simp_all add: is_target_def is_selector_def is_policy_def is_spec_def is_object_def is_items_def is_list_def)

interpretation target: pointer "\<lambda>t h. Return (t, h)" "\<lambda>c t. Some t" "\<lambda>c t. {}" "\<lambda>v. v" is_target TargetCell
  by unfold_locales (auto simp: grows_refl)

interpretation status: pointer Status_DeepCopyInto "\<lambda>c s. Some s" "\<lambda>c s. {}" "\<lambda>v. v" is_status StatusCell
  by unfold_locales (auto simp: grows_refl Status_DeepCopyInto_def is_status_def)

interpretation selector: pointer "selector_into mp" "\<lambda>c s. Some s" "\<lambda>c s. {}" "LabelSelector_DeepCopy mp"
    is_selector SelectorCell for mp
  by unfold_locales (auto simp: grows_refl selector_into_def)

definition policy_val :: "store \<Rightarrow> policy_struct \<Rightarrow> Policy option" where
  "policy_val c x = map_option (\<lambda>t. \<lparr>PolicyAction = psAction x, TargetSize = t\<rparr>)
     (val_ptr is_target (\<lambda>c t. Some t) c (psTargetSize x))"

definition policy_reach :: "store \<Rightarrow> policy_struct \<Rightarrow> addr set" where
  "policy_reach c x = reach_ptr is_target (\<lambda>c t. {}) c (psTargetSize x)"

interpretation policy: pointer Policy_DeepCopyInto policy_val policy_reach "\<lambda>v. v" is_policy PolicyCell
proof unfold_locales
  fix h x v
  assume h: "heap_ok h" and v: "policy_val (cells h) x = Some v"
  then obtain t where t: "val_ptr is_target (\<lambda>c t. Some t) (cells h) (psTargetSize x) = Some t"
    "v = \<lparr>PolicyAction = psAction x, TargetSize = t\<rparr>" by (auto simp: policy_val_def)
  from target.ptr.copies [OF h t(1)] t(2)
  show "\<exists>x' h'. Policy_DeepCopyInto x h = Return (x', h') \<and> grows h h' \<and>
    policy_val (cells h') x' = Some v \<and> policy_reach (cells h') x' \<subseteq> {next_addr h..<next_addr h'}"
    by (auto simp: Policy_DeepCopyInto_def policy_val_def policy_reach_def option.map_ident)
next
  fix c c' :: store and x
  assume "\<forall>a \<in> policy_reach c x. c' a = c a"
  then show "policy_val c' x = policy_val c x \<and> policy_reach c' x = policy_reach c x"
    using target.ptr.reads [of c "psTargetSize x" c'] by (simp add: policy_val_def policy_reach_def)
next
  fix c :: store and x v
  assume "policy_val c x = Some v"
  then obtain t where "val_ptr is_target (\<lambda>c t. Some t) c (psTargetSize x) = Some t"
    by (auto simp: policy_val_def)
  then show "policy_reach c x \<subseteq> dom c"
    unfolding policy_reach_def by (rule target.ptr.allocated)
qed simp

definition spec_val :: "store \<Rightarrow> spec_struct \<Rightarrow> PlacementPolicySpec option" where
  "spec_val c x =
     Option.bind (val_ptr is_selector (\<lambda>c s. Some s) c (ssPodSelector x)) (\<lambda>ps.
     Option.bind (val_ptr is_selector (\<lambda>c s. Some s) c (ssNodeSelector x)) (\<lambda>ns.
     Option.bind (val_ptr is_policy policy_val c (ssPolicy x)) (\<lambda>pol.
       Some \<lparr>Weight = ssWeight x, EnforcementModeOf = ssEnforcementMode x, PodSelector = ps,
         NodeSelector = ns, PolicyOf = pol\<rparr>)))"

definition spec_reach :: "store \<Rightarrow> spec_struct \<Rightarrow> addr set" where
  "spec_reach c x =
     reach_ptr is_selector (\<lambda>c s. {}) c (ssPodSelector x) \<union>
     reach_ptr is_selector (\<lambda>c s. {}) c (ssNodeSelector x) \<union>
     reach_ptr is_policy policy_reach c (ssPolicy x)"

definition spec_conv :: "meta_package \<Rightarrow> PlacementPolicySpec \<Rightarrow> PlacementPolicySpec" where
  "spec_conv mp v = v\<lparr>PodSelector := map_option (LabelSelector_DeepCopy mp) (PodSelector v),
     NodeSelector := map_option (LabelSelector_DeepCopy mp) (NodeSelector v)\<rparr>"

lemma spec_copies:
  assumes h: "heap_ok h" and v: "spec_val (cells h) x = Some v"
  shows "\<exists>x' h'. Spec_DeepCopyInto mp x h = Return (x', h') \<and> grows h h' \<and>
    spec_val (cells h') x' = Some (spec_conv mp v) \<and> spec_reach (cells h') x' \<subseteq> {next_addr h..<next_addr h'}"
proof -
  from v obtain ps ns pol where
    ps: "val_ptr is_selector (\<lambda>c s. Some s) (cells h) (ssPodSelector x) = Some ps" and
    ns: "val_ptr is_selector (\<lambda>c s. Some s) (cells h) (ssNodeSelector x) = Some ns" and
    pol: "val_ptr is_policy policy_val (cells h) (ssPolicy x) = Some pol" and
    v': "v = \<lparr>Weight = ssWeight x, EnforcementModeOf = ssEnforcementMode x, PodSelector = ps,
      NodeSelector = ns, PolicyOf = pol\<rparr>"
    by (auto simp: spec_val_def bind_eq_Some_conv)
  obtain p1 h1 where c1: "copy_pointer is_selector SelectorCell (selector_into mp) (ssPodSelector x) h = Return (p1, h1)"
    "grows h h1" "val_ptr is_selector (\<lambda>c s. Some s) (cells h1) p1 = Some (map_option (LabelSelector_DeepCopy mp) ps)"
    "reach_ptr is_selector (\<lambda>c s. {}) (cells h1) p1 \<subseteq> {next_addr h..<next_addr h1}"
    using selector.ptr.copies [OF h ps] by blast
  note ok1 = grows_ok [OF c1(2)]
  obtain p2 h2 where c2: "copy_pointer is_selector SelectorCell (selector_into mp) (ssNodeSelector x) h1 = Return (p2, h2)"
    "grows h1 h2" "val_ptr is_selector (\<lambda>c s. Some s) (cells h2) p2 = Some (map_option (LabelSelector_DeepCopy mp) ns)"
    "reach_ptr is_selector (\<lambda>c s. {}) (cells h2) p2 \<subseteq> {next_addr h1..<next_addr h2}"
    using selector.ptr.copies [OF ok1] selector.ptr.kept [OF h c1(2) ns] by blast
  note ok2 = grows_ok [OF c2(2)] and g2 = grows_trans [OF c1(2) c2(2)]
  obtain p3 h3 where c3: "copy_pointer is_policy PolicyCell Policy_DeepCopyInto (ssPolicy x) h2 = Return (p3, h3)"
    "grows h2 h3" "val_ptr is_policy policy_val (cells h3) p3 = Some (map_option (\<lambda>v. v) pol)"
    "reach_ptr is_policy policy_reach (cells h3) p3 \<subseteq> {next_addr h2..<next_addr h3}"
    using policy.ptr.copies [OF ok2] policy.ptr.kept [OF h g2 pol] by blast
  note k1 = selector.ptr.kept [OF ok1 grows_trans [OF c2(2) c3(2)] c1(3)]
    and k2 = selector.ptr.kept [OF ok2 c3(2) c2(3)]
  let ?x = "x\<lparr>ssPodSelector := p1, ssNodeSelector := p2, ssPolicy := p3\<rparr>"
  have "Spec_DeepCopyInto mp x h = Return (?x, h3)"
    by (simp add: Spec_DeepCopyInto_def c1(1) c2(1) c3(1))
  moreover have "grows h h3" by (rule grows_trans [OF g2 c3(2)])
  moreover have "spec_val (cells h3) ?x = Some (spec_conv mp v)"
    using k1 k2 c3(3) by (simp add: spec_val_def v' spec_conv_def option.map_ident)
  moreover have "spec_reach (cells h3) ?x \<subseteq> {next_addr h..<next_addr h3}"
  proof -
    have n: "next_addr h \<le> next_addr h1" "next_addr h1 \<le> next_addr h2" "next_addr h2 \<le> next_addr h3"
      using c1(2) c2(2) c3(2) by (simp_all add: grows_def)
    have "spec_reach (cells h3) ?x = reach_ptr is_selector (\<lambda>c s. {}) (cells h1) p1 \<union>
        reach_ptr is_selector (\<lambda>c s. {}) (cells h2) p2 \<union> reach_ptr is_policy policy_reach (cells h3) p3"
      using k1 k2 by (simp add: spec_reach_def)
    also have "\<dots> \<subseteq> {next_addr h..<next_addr h3}"
      using n by (intro Un_least fresh_mono [OF c1(4)] fresh_mono [OF c2(4)] fresh_mono [OF c3(4)]) simp_all
    finally show ?thesis .
  qed
  ultimately show ?thesis by blast
qed

interpretation spec: pointer "Spec_DeepCopyInto mp" spec_val spec_reach "spec_conv mp" is_spec SpecCell for mp
proof unfold_locales
  fix c c' :: store and x
  assume "\<forall>a \<in> spec_reach c x. c' a = c a"
  then show "spec_val c' x = spec_val c x \<and> spec_reach c' x = spec_reach c x"
    using selector.ptr.reads [of c "ssPodSelector x" c'] selector.ptr.reads [of c "ssNodeSelector x" c']
      policy.ptr.reads [of c "ssPolicy x" c']
    by (simp add: spec_val_def spec_reach_def)
next
  fix c :: store and x v
  assume "spec_val c x = Some v"
  then obtain ps ns pol where "val_ptr is_selector (\<lambda>c s. Some s) c (ssPodSelector x) = Some ps"
    "val_ptr is_selector (\<lambda>c s. Some s) c (ssNodeSelector x) = Some ns"
    "val_ptr is_policy policy_val c (ssPolicy x) = Some pol"
    by (auto simp: spec_val_def bind_eq_Some_conv)
  then show "spec_reach c x \<subseteq> dom c"
    unfolding spec_reach_def by (intro Un_least selector.ptr.allocated policy.ptr.allocated)
next
  fix h x v
  assume "heap_ok h" "spec_val (cells h) x = Some v"
  then show "\<exists>x' h'. Spec_DeepCopyInto mp x h = Return (x', h') \<and> grows h h' \<and>
    spec_val (cells h') x' = Some (spec_conv mp v) \<and> spec_reach (cells h') x' \<subseteq> {next_addr h..<next_addr h'}"
    by (rule spec_copies)
qed simp

definition object_val :: "store \<Rightarrow> object_struct \<Rightarrow> PlacementPolicy option" where
  "object_val c x = map_option (\<lambda>s. \<lparr>ppName = metaName (osObjectMeta x), ppNamespace = metaNamespace (osObjectMeta x),
     ppLabels = metaLabels (osObjectMeta x), Spec = s\<rparr>) (spec_val c (osSpec x))"

definition object_reach :: "store \<Rightarrow> object_struct \<Rightarrow> addr set" where
  "object_reach c x = spec_reach c (osSpec x)"

definition object_conv :: "meta_package \<Rightarrow> PlacementPolicy \<Rightarrow> PlacementPolicy" where
  "object_conv mp v =
     (let m = ObjectMeta_DeepCopy mp \<lparr>metaName = ppName v, metaNamespace = ppNamespace v, metaLabels = ppLabels v\<rparr>
      in \<lparr>ppName = metaName m, ppNamespace = metaNamespace m, ppLabels = metaLabels m,
          Spec = spec_conv mp (Spec v)\<rparr>)"

interpretation object: pointer "Object_DeepCopyInto mp" object_val object_reach "object_conv mp"
    is_object ObjectCell for mp
proof unfold_locales
  fix h x v
  assume h: "heap_ok h" and v: "object_val (cells h) x = Some v"
  then obtain s where s: "spec_val (cells h) (osSpec x) = Some s" and
    v': "v = \<lparr>ppName = metaName (osObjectMeta x), ppNamespace = metaNamespace (osObjectMeta x),
      ppLabels = metaLabels (osObjectMeta x), Spec = s\<rparr>"
    by (auto simp: object_val_def)
  from spec_copies [OF h s] obtain s' h' where c: "Spec_DeepCopyInto mp (osSpec x) h = Return (s', h')" "grows h h'"
    "spec_val (cells h') s' = Some (spec_conv mp s)" "spec_reach (cells h') s' \<subseteq> {next_addr h..<next_addr h'}"
    by blast
  have m: "ObjectMeta_DeepCopy mp \<lparr>metaName = metaName (osObjectMeta x),
      metaNamespace = metaNamespace (osObjectMeta x), metaLabels = metaLabels (osObjectMeta x)\<rparr> =
    ObjectMeta_DeepCopy mp (osObjectMeta x)" by (cases "osObjectMeta x") simp
  let ?x = "x\<lparr>osObjectMeta := ObjectMeta_DeepCopy mp (osObjectMeta x), osSpec := s', osStatus := osStatus x\<rparr>"
  have "Object_DeepCopyInto mp x h = Return (?x, h')"
    by (simp add: Object_DeepCopyInto_def c(1))
  moreover have "object_val (cells h') ?x = Some (object_conv mp v)"
    by (simp add: object_val_def object_conv_def v' m c(3) Let_def)
  moreover have "object_reach (cells h') ?x \<subseteq> {next_addr h..<next_addr h'}"
    using c(4) by (simp add: object_reach_def)
  ultimately show "\<exists>x' h'. Object_DeepCopyInto mp x h = Return (x', h') \<and> grows h h' \<and>
    object_val (cells h') x' = Some (object_conv mp v) \<and> object_reach (cells h') x' \<subseteq> {next_addr h..<next_addr h'}"
    using c(2) by blast
next
  fix c c' :: store and x
  assume "\<forall>a \<in> object_reach c x. c' a = c a"
  then show "object_val c' x = object_val c x \<and> object_reach c' x = object_reach c x"
    using spec.reads [of c "osSpec x" c'] by (simp add: object_val_def object_reach_def)
next
  fix c :: store and x v
  assume "object_val c x = Some v"
  then show "object_reach c x \<subseteq> dom c"
    unfolding object_reach_def by (auto simp: object_val_def dest: spec.allocated)
qed simp

primrec items_val :: "store \<Rightarrow> object_struct list \<Rightarrow> PlacementPolicy list option" where
  "items_val c [] = Some []"
| "items_val c (x # xs) =
     Option.bind (object_val c x) (\<lambda>v. Option.bind (items_val c xs) (\<lambda>vs. Some (v # vs)))"

definition items_reach :: "store \<Rightarrow> object_struct list \<Rightarrow> addr set" where
  "items_reach c xs = (\<Union>x \<in> set xs. object_reach c x)"

lemma items_reads:
  "\<forall>a \<in> items_reach c xs. c' a = c a \<Longrightarrow>
   items_val c' xs = items_val c xs \<and> items_reach c' xs = items_reach c xs"
proof (induction xs)
  case Nil
  then show ?case by (simp add: items_reach_def)
next
  case (Cons x xs)
  have "object_val c' x = object_val c x \<and> object_reach c' x = object_reach c x"
    by (rule object.reads) (use Cons.prems in \<open>simp add: items_reach_def\<close>)
  moreover have "items_val c' xs = items_val c xs \<and> items_reach c' xs = items_reach c xs"
    by (rule Cons.IH) (use Cons.prems in \<open>simp add: items_reach_def\<close>)
  ultimately show ?case by (simp add: items_reach_def)
qed

lemma items_allocated: "items_val c xs = Some vs \<Longrightarrow> items_reach c xs \<subseteq> dom c"
proof (induction xs arbitrary: vs)
  case Nil
  then show ?case by (simp add: items_reach_def)
next
  case (Cons x xs)
  then obtain v ws where v: "object_val c x = Some v" and "items_val c xs = Some ws"
    by (auto simp: bind_eq_Some_conv)
  then have "items_reach c xs \<subseteq> dom c" by (intro Cons.IH)
  with object.allocated [OF v] show ?case by (simp add: items_reach_def)
qed

lemma items_copies:
  "heap_ok h \<Longrightarrow> items_val (cells h) xs = Some vs \<Longrightarrow>
   \<exists>ys h'. items_into mp xs h = Return (ys, h') \<and> grows h h' \<and>
     items_val (cells h') ys = Some (map (object_conv mp) vs) \<and>
     items_reach (cells h') ys \<subseteq> {next_addr h..<next_addr h'}"
proof (induction xs arbitrary: h vs)
  case Nil
  then show ?case by (simp add: items_reach_def grows_refl)
next
  case (Cons x xs)
  from Cons.prems(2) obtain v ws where v: "object_val (cells h) x = Some v"
    and ws: "items_val (cells h) xs = Some ws" and vs: "vs = v # ws"
    by (auto simp: bind_eq_Some_conv)
  from object.copies [OF Cons.prems(1) v, of mp] obtain y h1 where c1: "Object_DeepCopyInto mp x h = Return (y, h1)"
    "grows h h1" "object_val (cells h1) y = Some (object_conv mp v)"
    "object_reach (cells h1) y \<subseteq> {next_addr h..<next_addr h1}" by blast
  note ok1 = grows_ok [OF c1(2)]
  have below: "\<forall>a \<in> items_reach (cells h) xs. cells h1 a = cells h a"
  proof
    fix a
    assume "a \<in> items_reach (cells h) xs"
    with items_allocated [OF ws] have "a \<in> dom (cells h)" by (rule subsetD)
    with Cons.prems(1) have "a \<in> {..<next_addr h}" unfolding heap_ok_def by (rule subsetD)
    with c1(2) show "cells h1 a = cells h a" by (simp add: grows_def)
  qed
  from conjunct1 [OF items_reads [OF this]] ws have "items_val (cells h1) xs = Some ws" by (simp only:)
  from Cons.IH [OF ok1 this] obtain ys h2 where c2: "items_into mp xs h1 = Return (ys, h2)" "grows h1 h2"
    "items_val (cells h2) ys = Some (map (object_conv mp) ws)"
    "items_reach (cells h2) ys \<subseteq> {next_addr h1..<next_addr h2}" by blast
  note k = object.kept [OF ok1 c2(2) c1(3)]
  have n: "next_addr h \<le> next_addr h1" "next_addr h1 \<le> next_addr h2"
    using c1(2) c2(2) by (simp_all add: grows_def)
  have "items_reach (cells h2) (y # ys) = object_reach (cells h1) y \<union> items_reach (cells h2) ys"
    using k by (simp add: items_reach_def)
  also have "\<dots> \<subseteq> {next_addr h..<next_addr h2}"
    using n by (intro Un_least fresh_mono [OF c1(4)] fresh_mono [OF c2(4)]) simp_all
  finally show ?case
    using k vs c1(1) c2(1,3) grows_trans [OF c1(2) c2(2)] by simp
qed

interpretation items: pointer "items_into mp" items_val items_reach "map (object_conv mp)" is_items ItemsCell for mp
proof unfold_locales
  fix c c' :: store and xs
  assume "\<forall>a \<in> items_reach c xs. c' a = c a"
  then show "items_val c' xs = items_val c xs \<and> items_reach c' xs = items_reach c xs"
    by (rule items_reads)
next
  fix c :: store and xs v
  assume "items_val c xs = Some v"
  then show "items_reach c xs \<subseteq> dom c" by (rule items_allocated)
next
  fix h xs v
  assume "heap_ok h" "items_val (cells h) xs = Some v"
  then show "\<exists>ys h'. items_into mp xs h = Return (ys, h') \<and> grows h h' \<and>
    items_val (cells h') ys = Some (map (object_conv mp) v) \<and>
    items_reach (cells h') ys \<subseteq> {next_addr h..<next_addr h'}"
    by (rule items_copies)
qed simp

definition list_val :: "store \<Rightarrow> list_struct \<Rightarrow> PlacementPolicyList option" where
  "list_val c x = map_option (\<lambda>items. \<lparr>ListResourceVersion = lsResourceVersion x,
     Items = (case items of None \<Rightarrow> [] | Some vs \<Rightarrow> vs)\<rparr>) (val_ptr is_items items_val c (lsItems x))"

definition list_reach :: "store \<Rightarrow> list_struct \<Rightarrow> addr set" where
  "list_reach c x = reach_ptr is_items items_reach c (lsItems x)"

interpretation list_copy: pointer "List_DeepCopyInto mp" list_val list_reach
    "\<lambda>v. v\<lparr>Items := map (object_conv mp) (Items v)\<rparr>" is_list ListCell for mp
proof unfold_locales
  fix h x v
  assume h: "heap_ok h" and v: "list_val (cells h) x = Some v"
  then obtain its where i: "val_ptr is_items items_val (cells h) (lsItems x) = Some its" and
    v': "v = \<lparr>ListResourceVersion = lsResourceVersion x, Items = (case its of None \<Rightarrow> [] | Some vs \<Rightarrow> vs)\<rparr>"
    by (auto simp: list_val_def)
  from items.ptr.copies [OF h i, of mp] show "\<exists>x' h'. List_DeepCopyInto mp x h = Return (x', h') \<and> grows h h' \<and>
    list_val (cells h') x' = Some (v\<lparr>Items := map (object_conv mp) (Items v)\<rparr>) \<and>
    list_reach (cells h') x' \<subseteq> {next_addr h..<next_addr h'}"
    by (cases its) (auto simp: List_DeepCopyInto_def list_val_def list_reach_def v')
next
  fix c c' :: store and x
  assume "\<forall>a \<in> list_reach c x. c' a = c a"
  then show "list_val c' x = list_val c x \<and> list_reach c' x = list_reach c x"
    using items.ptr.reads [of c "lsItems x" c'] by (simp add: list_val_def list_reach_def)
next
  fix c :: store and x v
  assume "list_val c x = Some v"
  then show "list_reach c x \<subseteq> dom c"
    unfolding list_reach_def by (auto simp: list_val_def dest: items.ptr.allocated)
qed simp

subsection \<open>Copies with faithful metadata copies\<close>

text \<open>What \<open>metav1\<close> documents of its own copies: they are equal to the original.\<close>

definition meta_faithful :: "meta_package \<Rightarrow> bool" where
  "meta_faithful mp \<longleftrightarrow> (\<forall>m. ObjectMeta_DeepCopy mp m = m) \<and> (\<forall>s. LabelSelector_DeepCopy mp s = s)"

lemma object_conv_id: "meta_faithful mp \<Longrightarrow> object_conv mp v = v"
proof -
  assume "meta_faithful mp"
  then have "LabelSelector_DeepCopy mp = (\<lambda>s. s)" "\<And>m. ObjectMeta_DeepCopy mp m = m"
    by (simp_all add: meta_faithful_def fun_eq_iff)
  then show ?thesis
    by (cases v; cases "Spec v") (simp add: object_conv_def spec_conv_def option.map_ident)
qed

lemma list_conv_id: "meta_faithful mp \<Longrightarrow> v\<lparr>Items := map (object_conv mp) (Items v)\<rparr> = v"
  by (simp add: object_conv_id map_idI)

end
