(* ===== verification/Rest_Client.thy ===== *)
theory Rest_Client
  imports Complex_Main Informer_Factory
begin

section \<open>The REST client of the policies\<close>

text \<open>
  \<open>pkg/client/clientset/versioned/typed/apis/v1alpha1/placementpolicy.go\<close>: the typed
  client, as the requests it builds; \<open>apis_client.go\<close> and \<open>clientset.go\<close>: making the clients
  from a configuration. A request is the verb and the builder calls in the order the code
  makes them; sending it is client-go's and a parameter (\<open>RESTClient\<close>).
\<close>

subsection \<open>Requests\<close>

datatype verb = VerbGet | VerbPost | VerbPut | VerbDelete | VerbPatch string

datatype body = BodyPolicy PlacementPolicy | BodyOptions handle | BodyBytes string

text \<open>Options other than list options are passed through unread.\<close>

datatype versioned_options = ListParams ListOptions | OtherParams handle

datatype request_call =
  CallNamespace string
| CallResource string
| CallName string
| CallSubResource "string list"
| CallVersionedParams versioned_options
| CallTimeout Duration
| CallBody body

record rest_request =
  rqVerb :: verb
  rqCalls :: "request_call list"

text \<open>
  \<open>Do(ctx).Into(result)\<close> returns what the result struct holds afterwards with the error;
  the methods return the pointer to that struct in any case.
\<close>

record 'w RESTClient =
  Do_Into_policy :: "rest_request \<Rightarrow> 'w \<Rightarrow> (PlacementPolicy \<times> goerror option) \<times> 'w"
  Do_Into_list :: "rest_request \<Rightarrow> 'w \<Rightarrow> (PlacementPolicyList \<times> goerror option) \<times> 'w"
  Do_Error :: "rest_request \<Rightarrow> 'w \<Rightarrow> goerror option \<times> 'w"
  Request_Watch :: "rest_request \<Rightarrow> 'w \<Rightarrow> (handle option \<times> goerror option) \<times> 'w"

text \<open>The typed client of the group; a nil client has a nil REST client.\<close>

record 'w PlacementpolicyV1alpha1Client =
  restClient :: "'w RESTClient option"

definition Typed_New :: "'w RESTClient \<Rightarrow> 'w PlacementpolicyV1alpha1Client" where
  "Typed_New c = \<lparr>restClient = Some c\<rparr>"

definition Typed_RESTClient :: "'w PlacementpolicyV1alpha1Client option \<Rightarrow> 'w RESTClient option" where
  "Typed_RESTClient c = (case c of None \<Rightarrow> None | Some cl \<Rightarrow> restClient cl)"

record 'w placementPolicies =
  ppc_client :: "'w RESTClient option"
  ppc_ns :: string

definition newPlacementPolicies :: "'w PlacementpolicyV1alpha1Client option \<Rightarrow> string \<Rightarrow> 'w placementPolicies" where
  "newPlacementPolicies c namespace = \<lparr>ppc_client = Typed_RESTClient c, ppc_ns = namespace\<rparr>"

definition Typed_PlacementPolicies :: "'w PlacementpolicyV1alpha1Client option \<Rightarrow> string \<Rightarrow> 'w placementPolicies" where
  "Typed_PlacementPolicies c namespace = newPlacementPolicies c namespace"

text \<open>Every method starts with a call on \<open>c.client\<close>, which panics when that is nil.\<close>

definition send ::
    "'w placementPolicies \<Rightarrow> ('w RESTClient \<Rightarrow> rest_request \<Rightarrow> 'w \<Rightarrow> 'x) \<Rightarrow> rest_request \<Rightarrow> 'w \<Rightarrow> 'x go" where
  "send c via rq w = go_bind (deref (ppc_client c)) (\<lambda>cl. Return (via cl rq w))"

subsection \<open>The methods\<close>

text \<open>\<open>time.Second\<close> is a duration of 10^9 nanoseconds.\<close>

definition Second :: Duration where
  "Second = 1000000000"

definition timeout_of :: "ListOptions \<Rightarrow> Duration" where
  "timeout_of opts = (case loTimeoutSeconds opts of None \<Rightarrow> 0 | Some s \<Rightarrow> s * Second)"

definition Client_Get ::
    "'w placementPolicies \<Rightarrow> string \<Rightarrow> handle \<Rightarrow> 'w \<Rightarrow> ((PlacementPolicy \<times> goerror option) \<times> 'w) go" where
  "Client_Get c name options =
     send c Do_Into_policy \<lparr>rqVerb = VerbGet, rqCalls =
       [CallNamespace (ppc_ns c), CallResource ''placementpolicies'', CallName name,
        CallVersionedParams (OtherParams options)]\<rparr>"

definition Client_List ::
    "'w placementPolicies \<Rightarrow> ListOptions \<Rightarrow> 'w \<Rightarrow> ((PlacementPolicyList \<times> goerror option) \<times> 'w) go" where
  "Client_List c opts =
     (let timeout = timeout_of opts in
      send c Do_Into_list \<lparr>rqVerb = VerbGet, rqCalls =
       [CallNamespace (ppc_ns c), CallResource ''placementpolicies'',
        CallVersionedParams (ListParams opts), CallTimeout timeout]\<rparr>)"

definition Client_Watch ::
    "'w placementPolicies \<Rightarrow> ListOptions \<Rightarrow> 'w \<Rightarrow> ((handle option \<times> goerror option) \<times> 'w) go" where
  "Client_Watch c opts =
     (let timeout = timeout_of opts;
          opts = opts\<lparr>loWatch := True\<rparr> in
      send c Request_Watch \<lparr>rqVerb = VerbGet, rqCalls =
       [CallNamespace (ppc_ns c), CallResource ''placementpolicies'',
        CallVersionedParams (ListParams opts), CallTimeout timeout]\<rparr>)"

definition Client_Create ::
    "'w placementPolicies \<Rightarrow> PlacementPolicy \<Rightarrow> handle \<Rightarrow> 'w \<Rightarrow> ((PlacementPolicy \<times> goerror option) \<times> 'w) go" where
  "Client_Create c pp opts =
     send c Do_Into_policy \<lparr>rqVerb = VerbPost, rqCalls =
       [CallNamespace (ppc_ns c), CallResource ''placementpolicies'',
        CallVersionedParams (OtherParams opts), CallBody (BodyPolicy pp)]\<rparr>"

definition Client_Update ::
    "'w placementPolicies \<Rightarrow> PlacementPolicy \<Rightarrow> handle \<Rightarrow> 'w \<Rightarrow> ((PlacementPolicy \<times> goerror option) \<times> 'w) go" where
  "Client_Update c pp opts =
     send c Do_Into_policy \<lparr>rqVerb = VerbPut, rqCalls =
       [CallNamespace (ppc_ns c), CallResource ''placementpolicies'', CallName (ppName pp),
        CallVersionedParams (OtherParams opts), CallBody (BodyPolicy pp)]\<rparr>"

definition Client_UpdateStatus ::
    "'w placementPolicies \<Rightarrow> PlacementPolicy \<Rightarrow> handle \<Rightarrow> 'w \<Rightarrow> ((PlacementPolicy \<times> goerror option) \<times> 'w) go" where
  "Client_UpdateStatus c pp opts =
     send c Do_Into_policy \<lparr>rqVerb = VerbPut, rqCalls =
       [CallNamespace (ppc_ns c), CallResource ''placementpolicies'', CallName (ppName pp),
        CallSubResource [''status''],
        CallVersionedParams (OtherParams opts), CallBody (BodyPolicy pp)]\<rparr>"

definition Client_Delete ::
    "'w placementPolicies \<Rightarrow> string \<Rightarrow> handle \<Rightarrow> 'w \<Rightarrow> (goerror option \<times> 'w) go" where
  "Client_Delete c name opts =
     send c Do_Error \<lparr>rqVerb = VerbDelete, rqCalls =
       [CallNamespace (ppc_ns c), CallResource ''placementpolicies'', CallName name,
        CallBody (BodyOptions opts)]\<rparr>"

definition Client_DeleteCollection ::
    "'w placementPolicies \<Rightarrow> handle \<Rightarrow> ListOptions \<Rightarrow> 'w \<Rightarrow> (goerror option \<times> 'w) go" where
  "Client_DeleteCollection c opts listOpts =
     (let timeout = timeout_of listOpts in
      send c Do_Error \<lparr>rqVerb = VerbDelete, rqCalls =
       [CallNamespace (ppc_ns c), CallResource ''placementpolicies'',
        CallVersionedParams (ListParams listOpts), CallTimeout timeout, CallBody (BodyOptions opts)]\<rparr>)"

definition Client_Patch ::
    "'w placementPolicies \<Rightarrow> string \<Rightarrow> string \<Rightarrow> string \<Rightarrow> handle \<Rightarrow> string list
      \<Rightarrow> 'w \<Rightarrow> ((PlacementPolicy \<times> goerror option) \<times> 'w) go" where
  "Client_Patch c name pt data opts subresources =
     send c Do_Into_policy \<lparr>rqVerb = VerbPatch pt, rqCalls =
       [CallNamespace (ppc_ns c), CallResource ''placementpolicies'', CallName name,
        CallSubResource subresources, CallVersionedParams (OtherParams opts), CallBody (BodyBytes data)]\<rparr>"

subsection \<open>Making the clients\<close>

text \<open>
  The fields of \<open>rest.Config\<close> the constructors read or set; the rest of it is \<open>cfgOther\<close>.
  QPS is a float32, of which only the sign is read here.
\<close>

record Config =
  RateLimiter :: "handle option"
  QPS :: rat
  Burst :: int64
  ConfigGroupVersion :: "GroupVersion option"
  APIPath :: string
  NegotiatedSerializer :: "handle option"
  UserAgent :: string
  cfgOther :: handle

record 'w rest_package =
  NewTokenBucketRateLimiter :: "rat \<Rightarrow> int64 \<Rightarrow> handle"
  DefaultKubernetesUserAgent :: string
  Codecs_WithoutConversion :: handle
  RESTClientFor :: "Config \<Rightarrow> 'w RESTClient option \<times> goerror option"
  NewDiscoveryClientForConfig :: "Config \<Rightarrow> handle option \<times> goerror option"
  NewDiscoveryClient :: "'w RESTClient \<Rightarrow> handle"
  NewDiscoveryClientForConfigOrDie :: "Config \<Rightarrow> handle go"

definition setConfigDefaults :: "'w rest_package \<Rightarrow> Config \<Rightarrow> Config" where
  "setConfigDefaults rp config =
     (let config = config\<lparr>ConfigGroupVersion := Some SchemeGroupVersion\<rparr>;
          config = config\<lparr>APIPath := ''/apis''\<rparr>;
          config = config\<lparr>NegotiatedSerializer := Some (Codecs_WithoutConversion rp)\<rparr>
      in if UserAgent config = ''''
         then config\<lparr>UserAgent := DefaultKubernetesUserAgent rp\<rparr> else config)"

definition Typed_NewForConfig ::
    "'w rest_package \<Rightarrow> Config \<Rightarrow> 'w PlacementpolicyV1alpha1Client option \<times> goerror option" where
  "Typed_NewForConfig rp c =
     (let config = setConfigDefaults rp c in
      case RESTClientFor rp config of (cl, err) \<Rightarrow>
        (case err of Some e \<Rightarrow> (None, Some e) | None \<Rightarrow> (Some \<lparr>restClient = cl\<rparr>, None)))"

text \<open>The panic value of \<open>panic(err)\<close> is left out: it is the error just returned.\<close>

definition Typed_NewForConfigOrDie ::
    "'w rest_package \<Rightarrow> Config \<Rightarrow> 'w PlacementpolicyV1alpha1Client option go" where
  "Typed_NewForConfigOrDie rp c =
     (case Typed_NewForConfig rp c of (cl, err) \<Rightarrow>
       (case err of Some e \<Rightarrow> Panic (PanicWith ''err'') | None \<Rightarrow> Return cl))"

record 'w Clientset =
  cs_discovery :: "handle option"
  cs_placementpolicyV1alpha1 :: "'w PlacementpolicyV1alpha1Client option"

text \<open>The accessor of the field, on a receiver that is not nil.\<close>

definition Clientset_PlacementpolicyV1alpha1 :: "'w Clientset \<Rightarrow> 'w PlacementpolicyV1alpha1Client option" where
  "Clientset_PlacementpolicyV1alpha1 c = cs_placementpolicyV1alpha1 c"

definition Clientset_Discovery :: "'w Clientset option \<Rightarrow> handle option" where
  "Clientset_Discovery c = (case c of None \<Rightarrow> None | Some cs \<Rightarrow> cs_discovery cs)"

definition burst_error :: goerror where
  "burst_error = Errorf ''burst is required to be greater than 0 when RateLimiter is not set and QPS is set to greater than 0'' []"

definition Clientset_NewForConfig ::
    "'w rest_package \<Rightarrow> Config \<Rightarrow> 'w Clientset option \<times> goerror option" where
  "Clientset_NewForConfig rp c =
     (let configShallowCopy = c in
      case (if RateLimiter configShallowCopy = None \<and> QPS configShallowCopy > 0
            then if Burst configShallowCopy \<le>s 0 then Inl burst_error
                 else Inr (configShallowCopy\<lparr>RateLimiter :=
                   Some (NewTokenBucketRateLimiter rp (QPS configShallowCopy) (Burst configShallowCopy))\<rparr>)
            else Inr configShallowCopy) of
        Inl e \<Rightarrow> (None, Some e)
      | Inr configShallowCopy \<Rightarrow>
        (case Typed_NewForConfig rp configShallowCopy of (typed, err) \<Rightarrow>
         case err of
           Some e \<Rightarrow> (None, Some e)
         | None \<Rightarrow>
           (case NewDiscoveryClientForConfig rp configShallowCopy of (discovery, err) \<Rightarrow>
            case err of
              Some e \<Rightarrow> (None, Some e)
            | None \<Rightarrow> (Some \<lparr>cs_discovery = discovery, cs_placementpolicyV1alpha1 = typed\<rparr>, None))))"

definition Clientset_NewForConfigOrDie :: "'w rest_package \<Rightarrow> Config \<Rightarrow> 'w Clientset go" where
  "Clientset_NewForConfigOrDie rp c =
     go_bind (Typed_NewForConfigOrDie rp c) (\<lambda>typed.
     go_bind (NewDiscoveryClientForConfigOrDie rp c) (\<lambda>discovery.
       Return \<lparr>cs_discovery = Some discovery, cs_placementpolicyV1alpha1 = typed\<rparr>))"

definition Clientset_New :: "'w rest_package \<Rightarrow> 'w RESTClient \<Rightarrow> 'w Clientset" where
  "Clientset_New rp c =
     \<lparr>cs_discovery = Some (NewDiscoveryClient rp c), cs_placementpolicyV1alpha1 = Some (Typed_New c)\<rparr>"

subsection \<open>Where requests go\<close>

text \<open>A request within a namespace's policies: the collection comes first and is not changed later.\<close>

definition within_collection :: "string \<Rightarrow> rest_request \<Rightarrow> bool" where
  "within_collection ns rq \<longleftrightarrow>
     (\<exists>calls. rqCalls rq = CallNamespace ns # CallResource ''placementpolicies'' # calls \<and>
        list_all (\<lambda>c. case c of CallNamespace n \<Rightarrow> False | CallResource r \<Rightarrow> False | _ \<Rightarrow> True) calls)"

definition agree_within :: "string \<Rightarrow> 'w RESTClient \<Rightarrow> 'w RESTClient \<Rightarrow> bool" where
  "agree_within ns c c' \<longleftrightarrow>
     (\<forall>rq. within_collection ns rq \<longrightarrow>
        Do_Into_policy c rq = Do_Into_policy c' rq \<and> Do_Into_list c rq = Do_Into_list c' rq \<and>
        Do_Error c rq = Do_Error c' rq \<and> Request_Watch c rq = Request_Watch c' rq)"

lemma within_collectionI [intro]:
  "list_all (\<lambda>c. case c of CallNamespace n \<Rightarrow> False | CallResource r \<Rightarrow> False | _ \<Rightarrow> True) calls \<Longrightarrow>
   within_collection ns \<lparr>rqVerb = v, rqCalls = CallNamespace ns # CallResource ''placementpolicies'' # calls\<rparr>"
  by (simp add: within_collection_def)

lemma agree_within_simps:
  assumes "agree_within ns c c'"
    "list_all (\<lambda>c. case c of CallNamespace n \<Rightarrow> False | CallResource r \<Rightarrow> False | _ \<Rightarrow> True) calls"
  shows
    "Do_Into_policy c \<lparr>rqVerb = v, rqCalls = CallNamespace ns # CallResource ''placementpolicies'' # calls\<rparr> =
     Do_Into_policy c' \<lparr>rqVerb = v, rqCalls = CallNamespace ns # CallResource ''placementpolicies'' # calls\<rparr>"
    "Do_Into_list c \<lparr>rqVerb = v, rqCalls = CallNamespace ns # CallResource ''placementpolicies'' # calls\<rparr> =
     Do_Into_list c' \<lparr>rqVerb = v, rqCalls = CallNamespace ns # CallResource ''placementpolicies'' # calls\<rparr>"
    "Do_Error c \<lparr>rqVerb = v, rqCalls = CallNamespace ns # CallResource ''placementpolicies'' # calls\<rparr> =
     Do_Error c' \<lparr>rqVerb = v, rqCalls = CallNamespace ns # CallResource ''placementpolicies'' # calls\<rparr>"
    "Request_Watch c \<lparr>rqVerb = v, rqCalls = CallNamespace ns # CallResource ''placementpolicies'' # calls\<rparr> =
     Request_Watch c' \<lparr>rqVerb = v, rqCalls = CallNamespace ns # CallResource ''placementpolicies'' # calls\<rparr>"
  using assms(1) within_collectionI [OF assms(2)] by (simp_all add: agree_within_def)

text \<open>Seconds become nanoseconds without a wrap up to about 292 years.\<close>

lemma timeout_exact:
  assumes "loTimeoutSeconds opts = Some s" "\<bar>sint s\<bar> \<le> 9223372036"
  shows "sint (timeout_of opts) = sint s * 1000000000"
proof -
  have "sint (s * Second) = sint s * sint Second"
    using assms(2) by (intro sint_mult64) (simp_all add: Second_def)
  with assms(1) show ?thesis by (simp add: timeout_of_def Second_def)
qed

lemma timeout_none: "loTimeoutSeconds opts = None \<Longrightarrow> timeout_of opts = 0"
  by (simp add: timeout_of_def)

subsection \<open>What the constructors pass on\<close>

text \<open>The configuration after the rate limiter is settled, or none where the burst is refused.\<close>

definition settled_config :: "'w rest_package \<Rightarrow> Config \<Rightarrow> Config option" where
  "settled_config rp c =
     (if RateLimiter c \<noteq> None \<or> \<not> QPS c > 0 then Some c
      else if 0 <s Burst c then Some (c\<lparr>RateLimiter := Some (NewTokenBucketRateLimiter rp (QPS c) (Burst c))\<rparr>)
      else None)"

lemma Clientset_NewForConfig_success:
  "Clientset_NewForConfig rp c = (Some cs, None) \<longleftrightarrow>
   (\<exists>cfg cl. settled_config rp c = Some cfg \<and>
      RESTClientFor rp (setConfigDefaults rp cfg) = (cl, None) \<and>
      NewDiscoveryClientForConfig rp cfg = (cs_discovery cs, None) \<and>
      cs_placementpolicyV1alpha1 cs = Some \<lparr>restClient = cl\<rparr>)"
  by (cases cs)
    (auto simp: Clientset_NewForConfig_def settled_config_def Typed_NewForConfig_def Let_def
      word_sless_alt word_sle_eq burst_error_def split: option.splits prod.splits if_splits)

end
