(* ===== verification/Client_Properties.thy ===== *)
theory Client_Properties
  imports Deep_Copy Rest_Client Plugin_Bootstrap Example_Cluster
begin

section \<open>Properties of the generated clients and copies\<close>

text \<open>
  Copying policies, the requests of the typed client and of the informer built on it, and
  the making of a clientset.
\<close>

subsection \<open>Deep copies\<close>

text \<open>
  C35: the deep copy of a policy, and of a list of policies, has the value of the original and
  shares no cell with it: writing anything into any cell of the one leaves what is read
  from the other unchanged. The copy lives in new cells, and no existing cell has changed.
\<close>

theorem deep_copies_are_separate:
  assumes "meta_faithful mp" "heap_ok h"
    and "val_ptr is_object object_val (cells h) p = Some v"
    and "val_ptr is_list list_val (cells h) l = Some vs"
  shows "(\<exists>q h'. Object_DeepCopy mp p h = Return (q, h') \<and>
      separate_copy (val_ptr is_object object_val) (reach_ptr is_object object_reach) h' p q v \<and>
      reach_ptr is_object object_reach (cells h') q \<inter> dom (cells h) = {} \<and>
      (\<forall>a \<in> dom (cells h). cells h' a = cells h a)) \<and>
    (\<exists>q h'. List_DeepCopy mp l h = Return (q, h') \<and>
      separate_copy (val_ptr is_list list_val) (reach_ptr is_list list_reach) h' l q vs \<and>
      reach_ptr is_list list_reach (cells h') q \<inter> dom (cells h) = {} \<and>
      (\<forall>a \<in> dom (cells h). cells h' a = cells h a))"
proof -
  have 1: "map_option (object_conv mp) v = v"
    by (rule option.map_ident_strong, rule object_conv_id [OF assms(1)])
  have 2: "map_option (\<lambda>v. v\<lparr>Items := map (object_conv mp) (Items v)\<rparr>) vs = vs"
    by (rule option.map_ident_strong, rule list_conv_id [OF assms(1)])
  show ?thesis
    unfolding Object_DeepCopy_def List_DeepCopy_def
    by (rule conjI [OF object.ptr.separate [OF assms(2,3) 1] list_copy.ptr.separate [OF assms(2,4) 2]])
qed

definition ex_meta :: meta_package where
  "ex_meta = \<lparr>ObjectMeta_DeepCopy = (\<lambda>m. m), LabelSelector_DeepCopy = (\<lambda>s. s)\<rparr>"

definition ex_object :: object_struct where
  "ex_object = \<lparr>osObjectMeta = \<lparr>metaName = ''strict-must'', metaNamespace = ''default'', metaLabels = []\<rparr>,
     osSpec = \<lparr>ssWeight = 100, ssEnforcementMode = EnforcementModeStrict, ssPodSelector = Some 0,
       ssNodeSelector = Some 1, ssPolicy = Some 2\<rparr>, osStatus = EmptyStatus\<rparr>"

definition ex_heap :: heap where
  "ex_heap = \<lparr>cells = [0 \<mapsto> SelectorCell ex_nginx, 1 \<mapsto> SelectorCell ex_want,
      2 \<mapsto> PolicyCell \<lparr>psAction = ActionMust, psTargetSize = Some 3\<rparr>, 3 \<mapsto> TargetCell (FromInt 1),
      4 \<mapsto> ObjectCell ex_object, 5 \<mapsto> ItemsCell [ex_object],
      6 \<mapsto> ListCell \<lparr>lsResourceVersion = ''7'', lsItems = Some 5\<rparr>], next_addr = 7\<rparr>"

lemma ex_heap_values:
  "val_ptr is_object object_val (cells ex_heap) (Some 4) = Some (Some ex_policy)"
  "val_ptr is_list list_val (cells ex_heap) (Some 6) =
     Some (Some \<lparr>ListResourceVersion = ''7'', Items = [ex_policy]\<rparr>)"
  by (simp_all add: ex_heap_def ex_object_def val_ptr_def object_val_def spec_val_def policy_val_def
      list_val_def ex_policy_def ex_policy_of_def ex_rule_def)

theorem deep_copies_are_separate_witness:
  "\<exists>q h'. Object_DeepCopy ex_meta (Some 4) ex_heap = Return (q, h') \<and>
     val_ptr is_object object_val (cells h') q = Some (Some ex_policy) \<and>
     val_ptr is_object object_val ((cells h')(3 := None)) q = Some (Some ex_policy)"
proof -
  have m: "meta_faithful ex_meta" "heap_ok ex_heap"
    by (auto simp: meta_faithful_def ex_meta_def heap_ok_def ex_heap_def)
  from deep_copies_are_separate [OF m ex_heap_values] obtain q h' where
    c: "Object_DeepCopy ex_meta (Some 4) ex_heap = Return (q, h')"
    "separate_copy (val_ptr is_object object_val) (reach_ptr is_object object_reach) h' (Some 4) q (Some ex_policy)"
    "\<forall>a \<in> dom (cells ex_heap). cells h' a = cells ex_heap a" by blast
  then have "3 \<in> reach_ptr is_object object_reach (cells h') (Some 4)"
    by (simp add: ex_heap_def ex_object_def reach_ptr_def object_reach_def spec_reach_def policy_reach_def)
  with c show ?thesis unfolding separate_copy_def by blast
qed

subsection \<open>Requests\<close>

text \<open>
  C36: every method of the typed client stays within the policies of its namespace: two REST
  clients that answer alike there cannot be told apart through it, whatever they do with
  requests to other namespaces or resources.
\<close>

theorem requests_stay_in_collection:
  assumes "agree_within ns c c'"
  shows "Client_Get (newPlacementPolicies (Some (Typed_New c)) ns) = Client_Get (newPlacementPolicies (Some (Typed_New c')) ns) \<and>
    Client_List (newPlacementPolicies (Some (Typed_New c)) ns) = Client_List (newPlacementPolicies (Some (Typed_New c')) ns) \<and>
    Client_Watch (newPlacementPolicies (Some (Typed_New c)) ns) = Client_Watch (newPlacementPolicies (Some (Typed_New c')) ns) \<and>
    Client_Create (newPlacementPolicies (Some (Typed_New c)) ns) = Client_Create (newPlacementPolicies (Some (Typed_New c')) ns) \<and>
    Client_Update (newPlacementPolicies (Some (Typed_New c)) ns) = Client_Update (newPlacementPolicies (Some (Typed_New c')) ns) \<and>
    Client_UpdateStatus (newPlacementPolicies (Some (Typed_New c)) ns) = Client_UpdateStatus (newPlacementPolicies (Some (Typed_New c')) ns) \<and>
    Client_Delete (newPlacementPolicies (Some (Typed_New c)) ns) = Client_Delete (newPlacementPolicies (Some (Typed_New c')) ns) \<and>
    Client_DeleteCollection (newPlacementPolicies (Some (Typed_New c)) ns) = Client_DeleteCollection (newPlacementPolicies (Some (Typed_New c')) ns) \<and>
    Client_Patch (newPlacementPolicies (Some (Typed_New c)) ns) = Client_Patch (newPlacementPolicies (Some (Typed_New c')) ns)"
  by (simp add: fun_eq_iff newPlacementPolicies_def Typed_RESTClient_def Typed_New_def send_def Client_Get_def Client_List_def Client_Watch_def
      Client_Create_def Client_Update_def Client_UpdateStatus_def Client_Delete_def
      Client_DeleteCollection_def Client_Patch_def Let_def agree_within_simps [OF assms])

text \<open>A REST client that answers every request with an error naming the request's namespace.\<close>

definition ex_rest :: "string \<Rightarrow> unit RESTClient" where
  "ex_rest other = (let answer = (\<lambda>rq. if within_collection ''default'' rq then External ''default'' else External other)
     in \<lparr>Do_Into_policy = (\<lambda>rq w. ((ex_policy, Some (answer rq)), w)),
      Do_Into_list = (\<lambda>rq w. ((\<lparr>ListResourceVersion = '''', Items = []\<rparr>, Some (answer rq)), w)),
      Do_Error = (\<lambda>rq w. (Some (answer rq), w)),
      Request_Watch = (\<lambda>rq w. ((None, Some (answer rq)), w))\<rparr>)"

definition ex_rest_package :: "unit rest_package" where
  "ex_rest_package = \<lparr>NewTokenBucketRateLimiter = (\<lambda>q b. Handle (unat b)), DefaultKubernetesUserAgent = ''scheduler'',
     Codecs_WithoutConversion = Handle 1, RESTClientFor = (\<lambda>cfg. (Some (ex_rest ''x''), None)),
     NewDiscoveryClientForConfig = (\<lambda>cfg. (RateLimiter cfg, None)),
     NewDiscoveryClient = (\<lambda>c. Handle 3), NewDiscoveryClientForConfigOrDie = (\<lambda>cfg. Return (Handle 2))\<rparr>"

theorem requests_stay_in_collection_witness:
  "Client_Update (newPlacementPolicies (Some (Typed_New (ex_rest ''a''))) ''default'') =
   Client_Update (newPlacementPolicies (Some (Typed_New (ex_rest ''b''))) ''default'')"
proof -
  have "agree_within ''default'' (ex_rest ''a'') (ex_rest ''b'')"
    by (simp add: agree_within_def ex_rest_def)
  from requests_stay_in_collection [OF this] show ?thesis by simp
qed

text \<open>
  What the list and watch functions of an informer do with a request: they send it through
  the typed client of its namespace.
\<close>

datatype informer_response =
  Listed PlacementPolicyList "goerror option"
| Watching "handle option" "goerror option"

primrec run_request ::
    "(handle \<Rightarrow> 'w Clientset) \<Rightarrow> informer_request \<Rightarrow> 'w \<Rightarrow> (informer_response \<times> 'w) go" where
  "run_request clients (ListPolicies c namespace options) w =
     go_bind (Client_List (Typed_PlacementPolicies (Clientset_PlacementpolicyV1alpha1 (clients c)) namespace) options w)
       (\<lambda>((l, err), w'). Return (Listed l err, w'))"
| "run_request clients (WatchPolicies c namespace options) w =
     go_bind (Client_Watch (Typed_PlacementPolicies (Clientset_PlacementpolicyV1alpha1 (clients c)) namespace) options w)
       (\<lambda>((wi, err), w'). Return (Watching wi err, w'))"

text \<open>
  A policy informer lists and watches with the same options, those its tweak function
  makes of what the cache asks for, except that a watch has the watch flag set; both go to
  the informer's namespace with the timeout in nanoseconds, which does not wrap for
  timeouts of up to 9223372036 seconds.
\<close>

theorem informer_requests:
  assumes "opts = (case tweak of None \<Rightarrow> options | Some f \<Rightarrow> f options)"
    and "loTimeoutSeconds opts = Some s" "\<bar>sint s\<bar> \<le> 9223372036"
    and "cs_placementpolicyV1alpha1 (clients c) = Some (Typed_New rc)"
    and "lw = NewFilteredPlacementPolicyInformer (\<lambda>lw d ix. lw) c ns period indexers tweak"
  shows "\<exists>t. sint t = sint s * 1000000000 \<and>
    run_request clients (ListFunc lw options) w =
      (case Do_Into_list rc \<lparr>rqVerb = VerbGet, rqCalls =
         [CallNamespace ns, CallResource ''placementpolicies'', CallVersionedParams (ListParams opts),
          CallTimeout t]\<rparr> w of ((l, err), w') \<Rightarrow> Return (Listed l err, w')) \<and>
    run_request clients (WatchFunc lw options) w =
      (case Request_Watch rc \<lparr>rqVerb = VerbGet, rqCalls =
         [CallNamespace ns, CallResource ''placementpolicies'',
          CallVersionedParams (ListParams (opts\<lparr>loWatch := True\<rparr>)), CallTimeout t]\<rparr> w of
        ((wi, err), w') \<Rightarrow> Return (Watching wi err, w'))"
proof -
  have f: "ListFunc lw options = ListPolicies c ns opts" "WatchFunc lw options = WatchPolicies c ns opts"
    by (simp_all add: assms(1,5) NewFilteredPlacementPolicyInformer_def)
  show ?thesis
    by (rule exI [of _ "timeout_of opts"], unfold f)
      (simp add: timeout_exact [OF assms(2,3)] assms(4) newPlacementPolicies_def Typed_PlacementPolicies_def
        Clientset_PlacementpolicyV1alpha1_def Typed_RESTClient_def Typed_New_def send_def
        Client_List_def Client_Watch_def Let_def split: prod.split)
qed

theorem informer_requests_witness:
  "let o1 = \<lparr>loLabelSelector = '''', loFieldSelector = '''', loWatch = False, loTimeoutSeconds = Some 300\<rparr>;
       lw = NewFilteredPlacementPolicyInformer (\<lambda>lw d ix. lw) (Handle 1) ''default'' 0 [NamespaceIndex] None
   in \<exists>t. sint t = 300000000000 \<and>
      run_request (\<lambda>_. Clientset_New ex_rest_package (ex_rest ''x'')) (WatchFunc lw o1) () =
        (case Request_Watch (ex_rest ''x'') \<lparr>rqVerb = VerbGet, rqCalls =
           [CallNamespace ''default'', CallResource ''placementpolicies'',
            CallVersionedParams (ListParams (o1\<lparr>loWatch := True\<rparr>)), CallTimeout t]\<rparr> () of
          ((wi, err), w') \<Rightarrow> Return (Watching wi err, w'))"
  unfolding Let_def
  by (insert informer_requests [where opts = "\<lparr>loLabelSelector = '''', loFieldSelector = '''', loWatch = False,
        loTimeoutSeconds = Some 300\<rparr>" and tweak = None and options = "\<lparr>loLabelSelector = '''', loFieldSelector = '''',
        loWatch = False, loTimeoutSeconds = Some 300\<rparr>" and s = 300 and c = "Handle 1" and ns = "''default''"
        and period = 0 and indexers = "[NamespaceIndex]" and clients = "\<lambda>_. Clientset_New ex_rest_package (ex_rest ''x'')" and rc = "ex_rest ''x''" and w = "()"
        and lw = "NewFilteredPlacementPolicyInformer (\<lambda>lw d ix. lw) (Handle 1) ''default'' 0 [NamespaceIndex] None"])
    (fastforce simp: Clientset_New_def)

subsection \<open>Clientsets\<close>

text \<open>
  \<open>NewForConfig\<close> returns a clientset or an error, never both or neither, and an error
  for a configuration that asks for a rate without a limiter and without a positive burst.
  In a clientset it returns, both clients were made with the same rate limiter: the one
  given, or one new one. The typed client's configuration has the policies' group and
  version, and a user agent.
\<close>

theorem clientset_shares_limiter:
  "((\<exists>cs. Clientset_NewForConfig rp c = (Some cs, None)) \<or> (\<exists>e. Clientset_NewForConfig rp c = (None, Some e))) \<and>
   (RateLimiter c = None \<and> QPS c > 0 \<and> sint (Burst c) \<le> 0 \<longrightarrow>
      Clientset_NewForConfig rp c = (None, Some burst_error)) \<and>
   (Clientset_NewForConfig rp c = (Some cs, None) \<longrightarrow>
      (\<exists>limiter cl typed. RESTClientFor rp typed = (cl, None) \<and> cs_placementpolicyV1alpha1 cs = Some \<lparr>restClient = cl\<rparr> \<and>
        NewDiscoveryClientForConfig rp (c\<lparr>RateLimiter := limiter\<rparr>) = (cs_discovery cs, None) \<and>
        RateLimiter typed = limiter \<and>
        limiter = (if RateLimiter c = None \<and> QPS c > 0
          then Some (NewTokenBucketRateLimiter rp (QPS c) (Burst c)) else RateLimiter c) \<and>
        ConfigGroupVersion typed = Some \<lparr>gvGroup = ''placement-policy.scheduling.x-k8s.io'', gvVersion = ''v1alpha1''\<rparr> \<and>
        (DefaultKubernetesUserAgent rp \<noteq> '''' \<longrightarrow> UserAgent typed \<noteq> '''')))"
proof (intro conjI impI)
  show "(\<exists>cs. Clientset_NewForConfig rp c = (Some cs, None)) \<or> (\<exists>e. Clientset_NewForConfig rp c = (None, Some e))"
    by (simp add: Clientset_NewForConfig_def Typed_NewForConfig_def Let_def split: option.split prod.split)
next
  assume "RateLimiter c = None \<and> QPS c > 0 \<and> sint (Burst c) \<le> 0"
  then show "Clientset_NewForConfig rp c = (None, Some burst_error)"
    by (simp add: Clientset_NewForConfig_def word_sle_eq)
next
  assume "Clientset_NewForConfig rp c = (Some cs, None)"
  then obtain cfg cl where cfg: "settled_config rp c = Some cfg"
    and cl: "RESTClientFor rp (setConfigDefaults rp cfg) = (cl, None)"
      "NewDiscoveryClientForConfig rp cfg = (cs_discovery cs, None)"
      "cs_placementpolicyV1alpha1 cs = Some \<lparr>restClient = cl\<rparr>"
    unfolding Clientset_NewForConfig_success by blast
  have lim: "cfg = c\<lparr>RateLimiter := RateLimiter cfg\<rparr>"
    "RateLimiter cfg = (if RateLimiter c = None \<and> QPS c > 0
       then Some (NewTokenBucketRateLimiter rp (QPS c) (Burst c)) else RateLimiter c)"
    using cfg by (auto simp: settled_config_def split: if_splits)
  have t: "RateLimiter (setConfigDefaults rp cfg) = RateLimiter cfg"
    "ConfigGroupVersion (setConfigDefaults rp cfg) =
       Some \<lparr>gvGroup = ''placement-policy.scheduling.x-k8s.io'', gvVersion = ''v1alpha1''\<rparr>"
    "DefaultKubernetesUserAgent rp \<noteq> '''' \<longrightarrow> UserAgent (setConfigDefaults rp cfg) \<noteq> ''''"
    by (simp_all add: setConfigDefaults_def SchemeGroupVersion_def GroupName_def Let_def)
  have d: "NewDiscoveryClientForConfig rp (c\<lparr>RateLimiter := RateLimiter cfg\<rparr>) = (cs_discovery cs, None)"
    using cl(2) lim(1) by metis
  show "\<exists>limiter cl typed. RESTClientFor rp typed = (cl, None) \<and>
      cs_placementpolicyV1alpha1 cs = Some \<lparr>restClient = cl\<rparr> \<and>
      NewDiscoveryClientForConfig rp (c\<lparr>RateLimiter := limiter\<rparr>) = (cs_discovery cs, None) \<and>
      RateLimiter typed = limiter \<and>
      limiter = (if RateLimiter c = None \<and> QPS c > 0
        then Some (NewTokenBucketRateLimiter rp (QPS c) (Burst c)) else RateLimiter c) \<and>
      ConfigGroupVersion typed = Some \<lparr>gvGroup = ''placement-policy.scheduling.x-k8s.io'', gvVersion = ''v1alpha1''\<rparr> \<and>
      (DefaultKubernetesUserAgent rp \<noteq> '''' \<longrightarrow> UserAgent typed \<noteq> '''')"
    by (intro exI conjI) (rule cl(1), rule cl(3), rule d, rule t(1), rule lim(2), rule t(2), rule t(3))
qed

definition ex_config :: Config where
  "ex_config = \<lparr>RateLimiter = None, QPS = 5, Burst = 10, ConfigGroupVersion = None, APIPath = '''',
     NegotiatedSerializer = None, UserAgent = '''', cfgOther = Handle 0\<rparr>"

theorem clientset_shares_limiter_witness:
  "Clientset_NewForConfig ex_rest_package (ex_config\<lparr>Burst := 0\<rparr>) = (None, Some burst_error) \<and>
   (\<exists>cs. Clientset_NewForConfig ex_rest_package ex_config = (Some cs, None) \<and> cs_discovery cs = Some (Handle 10))"
proof -
  obtain cs where cs: "Clientset_NewForConfig ex_rest_package ex_config = (Some cs, None)"
    by (simp add: Clientset_NewForConfig_def Typed_NewForConfig_def ex_rest_package_def ex_config_def
        word_sle_eq Let_def)
  have "cs_discovery cs = Some (Handle 10)"
    using clientset_shares_limiter [where c = ex_config and rp = ex_rest_package and cs = cs] cs
    by (auto simp: ex_config_def ex_rest_package_def)
  with cs show ?thesis
    using clientset_shares_limiter [where c = "ex_config\<lparr>Burst := 0\<rparr>" and rp = ex_rest_package and cs = cs]
    by (simp add: ex_config_def)
qed

end
