(* ===== verification/Workload_Turnover.thy ===== *)
theory Workload_Turnover
  imports Scheduling_Cycle
begin

section \<open>Workloads that change\<close>

text \<open>
  A controller adds, removes and replaces the pods of a workload while the scheduler works
  on them, nodes join and leave, and policies are edited. Between two such changes the steps
  are whole scheduling cycles; a change starts a new phase with other pods, nodes and
  policies, for which the listers and the scaled target answer.
\<close>

subsection \<open>A change of the workload and its surroundings\<close>

text \<open>
  \<open>gone\<close> leave and \<open>new\<close> arrive. What stays keeps its struct and its pending node, is still a
  pod of the policy, and its node keeps its side; what arrives is a fresh pod with a UID of
  its own.
\<close>

definition arrived :: "workload \<Rightarrow> 'w system \<Rightarrow> pod_ref \<Rightarrow> bool" where
  "arrived wl S r \<longleftrightarrow> pending S r = None \<and>
     (case mem (machine_of S) r of None \<Rightarrow> False | Some pod \<Rightarrow>
        workload_pod wl pod \<and> podNodeName pod = '''' \<and>
        pod_annotation pod PlacementPolicyPreferenceAnnotationKey = '''')"

definition stays :: "workload \<Rightarrow> workload \<Rightarrow> 'w system \<Rightarrow> pod_ref \<Rightarrow> bool" where
  "stays wl wl' S r \<longleftrightarrow>
     (case mem (machine_of S) r of None \<Rightarrow> False | Some pod \<Rightarrow>
        workload_pod wl' pod \<and>
        (podNodeName pod \<noteq> '''' \<longrightarrow> (podNodeName pod \<in> wl_names wl' \<longleftrightarrow> podNodeName pod \<in> wl_names wl)) \<and>
        (\<forall>n. pending S r = Some n \<longrightarrow> n \<in> set (wlNodes wl') \<and> wl_matches wl' n = wl_matches wl n))"

definition turnover ::
    "workload \<Rightarrow> workload \<Rightarrow> pod_ref list \<Rightarrow> pod_ref list \<Rightarrow> 'w system \<Rightarrow> 'w system \<Rightarrow> bool" where
  "turnover wl wl' gone new S S' \<longleftrightarrow>
     mset (wlPods wl) + mset new = mset (wlPods wl') + mset gone \<and> mset gone \<subseteq># mset (wlPods wl) \<and>
     (\<forall>r \<in> set new. arrived wl' S' r) \<and>
     (\<forall>r \<in> set (wlPods wl') - set new. mem (machine_of S') r = mem (machine_of S) r \<and>
        pending S' r = pending S r \<and> stays wl wl' S r) \<and>
     (\<forall>r. r \<notin> set (wlPods wl') \<longrightarrow> pending S' r = None) \<and>
     distinct (map (\<lambda>r. podUID (the (mem (machine_of S') r))) (wlPods wl'))"

text \<open>
  The target moves with the pods: it falls by no more than the pods that leave the policy's
  nodes, and rises by no more than the pods that arrive and the pods that leave the others.
\<close>

definition target_follows :: "workload \<Rightarrow> workload \<Rightarrow> pod_ref list \<Rightarrow> pod_ref list \<Rightarrow> 'w machine \<Rightarrow> bool" where
  "target_follows wl wl' gone new \<sigma> \<longleftrightarrow>
     wl_target wl - int (length (filter (\<lambda>r. preference \<sigma> r = Some True) gone)) \<le> wl_target wl' \<and>
     wl_target wl' \<le> wl_target wl + int (length new) - int (length gone) +
       int (length (filter (\<lambda>r. preference \<sigma> r = Some False) gone))"

text \<open>
  Frequent cases: a replacement of pods under the same scaled target; a scale-up where the
  scaled target grows by at most the pods that arrive, as a fixed number does, or a
  percentage (below).
\<close>

lemma turnover_length:
  "turnover wl wl' gone new S S' \<Longrightarrow>
   length (wlPods wl) + length new = length (wlPods wl') + length gone"
proof -
  assume "turnover wl wl' gone new S S'"
  then have "mset (wlPods wl) + mset new = mset (wlPods wl') + mset gone" by (simp add: turnover_def)
  then have "size (mset (wlPods wl) + mset new) = size (mset (wlPods wl') + mset gone)" by simp
  then show ?thesis by simp
qed

lemma replacement_follows:
  assumes "turnover wl wl' gone new S S'" "length gone = length new" "wlRule wl' = wlRule wl"
    and "wlTarget wl' = wlTarget wl"
  shows "target_follows wl wl' gone new \<sigma>"
  using turnover_length [OF assms(1)] assms(2-4) by (simp add: target_follows_def wl_target_def)

lemma scale_up_follows:
  assumes "turnover wl wl' [] new S S'" "wlRule wl' = wlRule wl"
    and "sint (wlTarget wl) \<le> sint (wlTarget wl')" "sint (wlTarget wl') \<le> sint (wlTarget wl) + int (length new)"
  shows "target_follows wl wl' [] new \<sigma>"
  using turnover_length [OF assms(1)] assms(2-4) by (simp add: target_follows_def wl_target_def target_def)

text \<open>A percentage of up to 100, rounded down, grows by at most the growth of the whole.\<close>

lemma percentage_grows:
  fixes p n k :: int
  assumes "0 \<le> p" "p \<le> 100" "0 \<le> k"
  shows "p * n div 100 \<le> p * (n + k) div 100" "p * (n + k) div 100 \<le> p * n div 100 + k"
proof -
  have "p * n \<le> p * (n + k)" using assms(1,3) by (simp add: mult_left_mono)
  then show "p * n div 100 \<le> p * (n + k) div 100" by (rule zdiv_mono1) simp
  have "p * k \<le> 100 * k" using assms(2,3) by (rule mult_right_mono)
  then have "p * (n + k) \<le> p * n + 100 * k" by (simp add: distrib_left)
  then have "p * (n + k) div 100 \<le> (p * n + 100 * k) div 100" by (rule zdiv_mono1) simp
  also have "\<dots> = p * n div 100 + k" by simp
  finally show "p * (n + k) div 100 \<le> p * n div 100 + k" .
qed

lemma percentage_follows:
  assumes "turnover wl wl' [] new S S'" "wlRule wl' = wlRule wl" "0 \<le> p" "p \<le> 100"
    and "sint (wlTarget wl) = p * int (length (wlPods wl)) div 100"
      "sint (wlTarget wl') = p * int (length (wlPods wl')) div 100"
  shows "target_follows wl wl' [] new \<sigma>"
proof (rule scale_up_follows [OF assms(1,2)])
  have n: "int (length (wlPods wl')) = int (length (wlPods wl)) + int (length new)"
    using turnover_length [OF assms(1)] by simp
  show "sint (wlTarget wl) \<le> sint (wlTarget wl')"
    "sint (wlTarget wl') \<le> sint (wlTarget wl) + int (length new)"
    unfolding assms(5,6) n by (rule percentage_grows, use assms(3,4) in simp_all)+
qed

text \<open>Nodes may join and leave: what counts is that no pod is on, or on its way to, one of them.\<close>

lemma nodes_change_stays:
  assumes "pod_ok wl S r" "wl' = wl\<lparr>wlNodes := nodes\<rparr>" "\<forall>n. pending S r = Some n \<longrightarrow> n \<in> set nodes"
    and "\<forall>n. nodeName n = node_of S r \<longrightarrow> (n \<in> set nodes \<longleftrightarrow> n \<in> set (wlNodes wl))"
  shows "stays wl wl' S r"
proof -
  obtain pod where pod: "mem (machine_of S) r = Some pod" and w: "workload_pod wl pod"
    using assms(1) by (auto simp: pod_ok_def split: option.splits)
  have x: "podNodeName pod = node_of S r" using pod by (simp add: node_of_def)
  have names: "y \<in> wl_names w \<longleftrightarrow> (\<exists>n. nodeName n = y \<and> n \<in> set (wlNodes w) \<and> wl_matches w n)" for w y
    by (auto simp: wl_names_def matching_names_def wl_matches_def)
  have m: "wl_matches wl' n = wl_matches wl n" "set (wlNodes wl') = set nodes" for n
    using assms(2) by (simp_all add: wl_matches_def)
  have "podNodeName pod \<in> wl_names wl' \<longleftrightarrow> podNodeName pod \<in> wl_names wl"
    unfolding x names m using assms(4) by blast
  moreover have "workload_pod wl' pod"
    using w unfolding workload_pod_def assms(2) by simp
  ultimately show ?thesis
    using assms(3) unfolding stays_def pod option.case m by blast
qed

subsection \<open>The life of a workload\<close>

text \<open>
  A policy that is enforced: a Strict one, or a BestEffort one with a scheduler that follows
  its scores and leaves enough nodes.
\<close>

definition promising ::
    "'sel packages \<Rightarrow> ('w, 'sel) PlacementPolicyManager \<Rightarrow> 'w FrameworkHandle \<Rightarrow> 'w scheduler \<Rightarrow> workload \<Rightarrow> bool" where
  "promising pk m h sch wl \<longleftrightarrow>
     steady pk m h wl \<or> lenient pk m h wl \<and> follows_scores sch \<and> roomy wl sch"

lemma promising_ok: "promising pk m h sch wl \<Longrightarrow> wl_ok wl"
  by (auto simp: promising_def intro: steady_ok lenient_ok)

lemma promising_moves:
  assumes "promising pk m h sch wl" "cycle_contract cy" "enforced wl S" "cycle_step pk cy m h sch wl S S'"
  shows "moves wl S S'"
proof (cases "steady pk m h wl")
  case True
  show ?thesis by (rule sched_moves [OF strict_cycle_step [OF assms(4) True assms(3)] True assms(2,3)])
next
  case False
  with assms(1,2,4) have "lenient pk m h wl \<and> cycle_contract cy \<and> follows_scores sch \<and> roomy wl sch \<and>
      cycle_step pk cy m h sch wl S S'" by (simp add: promising_def)
  from scored.step_moves [OF this assms(3)] show ?thesis .
qed

interpretation promised: placement_system wl
  "\<lambda>S S'. promising pk m h sch wl \<and> cycle_contract cy \<and> cycle_step pk cy m h sch wl S S'" for wl pk m h cy sch
  by unfold_locales (blast intro: promising_moves promising_ok)+

text \<open>
  What it takes to complete a workload: updates are accepted, and the scheduler lets the
  plugin's choice through, for a Strict policy by leaving any single node.
\<close>

definition completable ::
    "'sel packages \<Rightarrow> 'c CycleOps \<Rightarrow> ('w, 'sel) PlacementPolicyManager \<Rightarrow> 'w FrameworkHandle \<Rightarrow> 'w scheduler
      \<Rightarrow> workload \<Rightarrow> bool" where
  "completable pk cy m h sch wl \<longleftrightarrow> accepting m \<and>
     (steady pk m h wl \<and> both_sides wl \<and> (\<forall>S r n. feasible sch S r [n]) \<or>
      lenient pk m h wl \<and> follows_scores sch \<and> roomy wl sch \<and> obliging cy (new_Plugin h pk m) sch wl)"

lemma completable_assign:
  assumes "completable pk cy m h sch wl" "cycle_contract cy" "enforced wl S" "schedulable wl S r"
  shows "\<exists>S'. cycle_step pk cy m h sch wl S S' \<and> pending S' r \<noteq> None \<and> node_of S' = node_of S"
proof (cases "steady pk m h wl \<and> both_sides wl \<and> (\<forall>S r n. feasible sch S r [n])")
  case True
  with assms(1) obtain S' where "sched_step pk cy m h wl S S'" "pending S' r \<noteq> None" "node_of S' = node_of S"
    using assign_step [OF _ assms(2-4), of pk m h] by (auto simp: completable_def)
  with True show ?thesis using sched_cycle_step [of pk cy m h wl S S' sch] by blast
next
  case False
  with assms show ?thesis by (intro scored_assign) (auto simp: completable_def)
qed

interpretation promised: completing_system wl
  "\<lambda>S S'. promising pk m h sch wl \<and> cycle_contract cy \<and> cycle_step pk cy m h sch wl S S'"
  "promising pk m h sch wl \<and> cycle_contract cy \<and> completable pk cy m h sch wl" for wl pk m h cy sch
proof unfold_locales
  fix S :: "'a system" and r
  assume a: "promising pk m h sch wl \<and> cycle_contract cy \<and> completable pk cy m h sch wl"
    and "enforced wl S" "schedulable wl S r"
  then obtain S' where "cycle_step pk cy m h sch wl S S' \<and> pending S' r \<noteq> None \<and> node_of S' = node_of S"
    using completable_assign by blast
  with a show "\<exists>S'. (promising pk m h sch wl \<and> cycle_contract cy \<and> cycle_step pk cy m h sch wl S S') \<and>
      pending S' r \<noteq> None \<and> node_of S' = node_of S" by blast
qed (simp add: bound_in_def CycleBind)

lemma promised_run:
  "promising pk m h sch wl \<Longrightarrow> cycle_contract cy \<Longrightarrow>
   (\<lambda>S S'. promising pk m h sch wl \<and> cycle_contract cy \<and> cycle_step pk cy m h sch wl S S') = cycle_step pk cy m h sch wl"
  by (simp add: fun_eq_iff)

text \<open>
  A phase begins with everything the workload sees, the scheduler included, renewed: the
  listers, the snapshot, the policy and its mode may all be other ones.
\<close>

inductive lives ::
    "'sel packages \<Rightarrow> 'c CycleOps \<Rightarrow> 'w FrameworkHandle \<Rightarrow> ('w, 'sel) PlacementPolicyManager \<Rightarrow> 'w scheduler
      \<Rightarrow> workload \<Rightarrow> 'w system \<Rightarrow> bool"
  for pk cy where
  Begins: "promising pk m h sch wl \<Longrightarrow> fresh_workload wl \<sigma> \<Longrightarrow> lives pk cy h m sch wl (starts \<sigma>)"
| Works: "lives pk cy h m sch wl S \<Longrightarrow> cycle_step pk cy m h sch wl S S' \<Longrightarrow> lives pk cy h m sch wl S'"
| Turns: "lives pk cy h m sch wl S \<Longrightarrow> turnover wl wl' gone new S S' \<Longrightarrow>
    target_follows wl wl' gone new (machine_of S) \<Longrightarrow> promising pk m' h' sch' wl' \<Longrightarrow>
    lives pk cy h' m' sch' wl' S'"

lemma lives_run:
  assumes "(cycle_step pk cy m h sch wl)\<^sup>*\<^sup>* S S'" "lives pk cy h m sch wl S"
  shows "lives pk cy h m sch wl S'"
  using assms by induction (blast intro: Works)+

text \<open>Counting pods by preference does not depend on the order of the lister.\<close>

lemma filter_mset_length: "length (filter P xs) = size (filter_mset P (mset xs))"
  by (metis mset_filter size_mset)

definition counts :: "bool \<Rightarrow> 'w machine \<Rightarrow> pod_ref list \<Rightarrow> nat" where
  "counts b \<sigma> rs = length (filter (\<lambda>r. preference \<sigma> r = Some b) rs)"

lemma counts_meant: "length (meant wl \<sigma>) = counts True \<sigma> (wlPods wl)"
  "length (averse wl \<sigma>) = counts False \<sigma> (wlPods wl)"
  by (simp_all add: counts_def meant_def averse_def)

lemma arrived_preference: "arrived wl S r \<Longrightarrow> preference (machine_of S) r = None"
  by (auto simp: arrived_def preference_def split: option.splits)

lemma distinct_mset_parts:
  assumes "distinct xs" "mset xs = A + B" "r \<in># A"
  shows "r \<notin># B"
proof
  assume "r \<in># B"
  with assms(3) have "0 < count A r" "0 < count B r" by (simp_all add: count_greater_zero_iff)
  then have "1 < count (mset xs) r" unfolding assms(2) by (simp only: count_union)
  with assms(1) show False by (simp add: distinct_count_atmost_1 split: if_splits)
qed

lemma turnover_counts:
  assumes t: "turnover wl wl' gone new S S'" and d: "distinct (wlPods wl')"
  shows "counts b (machine_of S) (wlPods wl) =
    counts b (machine_of S') (wlPods wl') + counts b (machine_of S) gone"
proof -
  let ?P = "\<lambda>\<sigma> r. preference \<sigma> r = Some b"
  obtain kept where kept: "mset (wlPods wl) = mset gone + kept"
    using t by (auto simp: turnover_def mset_subset_eq_exists_conv)
  with t have pods': "mset (wlPods wl') = kept + mset new"
    by (simp add: turnover_def)
  have "r \<in> set (wlPods wl') - set new" if "r \<in># kept" for r
  proof -
    have "r \<in># mset (wlPods wl')" using that by (simp add: pods')
    moreover have "r \<notin># mset new" by (rule distinct_mset_parts [OF d pods' that])
    ultimately show ?thesis by simp
  qed
  then have "preference (machine_of S') r = preference (machine_of S) r" if "r \<in># kept" for r
    using t that by (simp add: turnover_def preference_def)
  then have k: "filter_mset (?P (machine_of S')) kept = filter_mset (?P (machine_of S)) kept"
    by (intro filter_mset_cong) auto
  have n: "filter_mset (?P (machine_of S')) (mset new) = {#}"
  proof -
    have "filter (?P (machine_of S')) new = []"
      using t by (auto simp: turnover_def filter_empty_conv dest!: arrived_preference)
    then show ?thesis by (metis mset.simps(1) mset_filter)
  qed
  show ?thesis
    unfolding counts_def filter_mset_length kept pods' filter_union_mset k n by simp
qed

lemma pod_ok_stays:
  assumes "pod_ok wl S r" "stays wl wl' S r" "mem (machine_of S') r = mem (machine_of S) r" "pending S' r = pending S r"
  shows "pod_ok wl' S' r"
proof -
  have "pod_ok wl' S r" using assms(1,2) by (auto simp: pod_ok_def stays_def split: option.splits)
  then show ?thesis using pod_ok_cong [of S' r S wl'] assms(3,4) by simp
qed

lemma arrived_ok: "arrived wl S r \<Longrightarrow> pod_ok wl S r"
  by (auto simp: arrived_def pod_ok_def split: option.splits)

lemma counts_le: "counts b \<sigma> rs \<le> length rs"
  by (simp add: counts_def)

text \<open>The arithmetic of a turnover: what held of the counts before it holds after it.\<close>

lemma turnover_arith:
  fixes on on' off off' T T' n n' a g gon goff :: int
  assumes "on = on' + gon" "off = off' + goff" "n + a = n' + g"
    and "on \<le> max 0 T" "off \<le> n - max 0 (min T n)" "T - gon \<le> T'" "T' \<le> T + a - g + goff"
    and "0 \<le> on'" "0 \<le> gon" "0 \<le> goff" "goff \<le> g" "0 \<le> a" "off' \<le> n'" "0 \<le> n" "0 \<le> n'"
  shows "on' \<le> max 0 T'" "off' \<le> n' - max 0 (min T' n')"
  using assms by linarith+

lemma enforced_turnover:
  assumes e: "enforced wl S" and t: "turnover wl wl' gone new S S'"
    and f: "target_follows wl wl' gone new (machine_of S)" and s: "wl_ok wl'"
  shows "enforced wl' S'"
proof -
  have d: "distinct (wlPods wl')" using s by (simp add: wl_ok_def)
  have on: "int (counts True (machine_of S) (wlPods wl)) \<le> max 0 (wl_target wl)"
    and off: "int (counts False (machine_of S) (wlPods wl)) \<le>
      int (length (wlPods wl)) - max 0 (min (wl_target wl) (int (length (wlPods wl))))"
    using e by (simp_all add: enforced_def counts_meant wl_quota_def)
  note arith = turnover_arith [where on = "int (counts True (machine_of S) (wlPods wl))"
      and on' = "int (counts True (machine_of S') (wlPods wl'))"
      and off = "int (counts False (machine_of S) (wlPods wl))"
      and off' = "int (counts False (machine_of S') (wlPods wl'))"
      and gon = "int (counts True (machine_of S) gone)" and goff = "int (counts False (machine_of S) gone)"
      and n = "int (length (wlPods wl))" and n' = "int (length (wlPods wl'))"
      and a = "int (length new)" and g = "int (length gone)" and T = "wl_target wl" and T' = "wl_target wl'"]
  have "int (counts True (machine_of S') (wlPods wl')) \<le> max 0 (wl_target wl') \<and>
    int (counts False (machine_of S') (wlPods wl')) \<le>
      int (length (wlPods wl')) - max 0 (min (wl_target wl') (int (length (wlPods wl'))))"
    by (intro conjI arith)
      (use on off f turnover_counts [OF t d] turnover_length [OF t] counts_le in
        \<open>simp_all add: target_follows_def counts_def flip: of_nat_add\<close>)
  moreover have "pod_ok wl' S' r" if "r \<in> set (wlPods wl')" for r
  proof (cases "r \<in> set new")
    case True
    with t show ?thesis by (intro arrived_ok) (simp add: turnover_def)
  next
    case False
    have "set (wlPods wl') \<subseteq> set (wlPods wl) \<union> set new"
      using t by (metis turnover_def set_mset_mset set_mset_union Un_upper1)
    with False that have "r \<in> set (wlPods wl)" by auto
    with e have "pod_ok wl S r" by (simp add: enforced_def)
    with t False that show ?thesis by (intro pod_ok_stays [OF \<open>pod_ok wl S r\<close>]) (simp_all add: turnover_def)
  qed
  ultimately show ?thesis
    using t by (auto simp: enforced_def counts_meant wl_quota_def turnover_def)
qed

lemma lives_promising: "lives pk cy h m sch wl S \<Longrightarrow> promising pk m h sch wl"
  by (induction rule: lives.induct) simp_all

lemma turnover_unplaced:
  assumes t: "turnover wl wl' gone new S S'" and u: "pending_unplaced S"
  shows "pending_unplaced S'"
  unfolding pending_unplaced_def
proof (intro allI impI)
  fix r
  assume p: "pending S' r \<noteq> None"
  have "r \<in> set (wlPods wl')" using t p by (auto simp: turnover_def)
  moreover have "r \<notin> set new" using t p by (auto simp: turnover_def arrived_def)
  ultimately have "mem (machine_of S') r = mem (machine_of S) r" "pending S' r = pending S r"
    using t by (simp_all add: turnover_def)
  with u p show "node_of S' r = ''''" by (simp add: pending_unplaced_def node_of_def)
qed

lemma lives_invariant:
  assumes "cycle_contract cy"
  shows "lives pk cy h m sch wl S \<Longrightarrow> enforced wl S \<and> pending_unplaced S"
proof (induction rule: lives.induct)
  case (Begins m h sch wl \<sigma>)
  show ?case unfolding starts_def using enforced_start [OF Begins(2)] by (simp add: pending_unplaced_def)
next
  case (Works h m sch wl S S')
  have step: "promising pk m h sch wl \<and> cycle_contract cy \<and> cycle_step pk cy m h sch wl S S'"
    using lives_promising [OF Works(1)] assms Works(2) by blast
  from promised.step_enforced [OF step] promised.step_unplaced [OF step] Works(3) show ?case by blast
next
  case (Turns h m sch wl S wl' gone new S' m' h' sch')
  have e: "enforced wl S" and u: "pending_unplaced S" using Turns(5) by blast+
  from enforced_turnover [OF e Turns(2,3) promising_ok [OF Turns(4)]] turnover_unplaced [OF Turns(2) u]
  show ?case by blast
qed

lemma lives_enforced: "cycle_contract cy \<Longrightarrow> lives pk cy h m sch wl S \<Longrightarrow> enforced wl S"
  by (blast dest: lives_invariant)

end
