(* ===== verification/Workload_Properties.thy ===== *)
theory Workload_Properties
  imports Workload_Turnover Example_Cluster
begin

section \<open>Properties of the scheduler as a whole\<close>

text \<open>
  Refinement of the abstract quota, workloads whose pods change, and the end of placements.
\<close>

text \<open>
  C3: the scheduler refines the quota machine: the abstraction of every reachable state is
  one the machine reaches from its start, and every further step of the scheduler, a
  cycle that fails or succeeds, a binding, or anything outside, is matched by one step of
  the machine or by none.
\<close>

theorem scheduler_refines_quota:
  assumes "steady pk m h wl" "cycle_contract cy" "reachable pk cy m h wl S"
  shows "(quota_step (wl_target wl) (wlPods wl))\<^sup>*\<^sup>* quota_start (quota_of wl S) \<and>
    (\<forall>S'. sched_step pk cy m h wl S S' \<longrightarrow>
      (quota_step (wl_target wl) (wlPods wl))\<^sup>=\<^sup>= (quota_of wl S) (quota_of wl S'))"
proof (intro conjI allI impI)
  note inv = reachable_invariant [OF assms] and run = strict_run [OF assms(1,2)]
  from reachable_run [OF assms(3)] obtain \<sigma> where f: "fresh_workload wl \<sigma>"
    and steps: "(sched_step pk cy m h wl)\<^sup>*\<^sup>* \<lparr>machine_of = \<sigma>, pending = (\<lambda>_. None)\<rparr> S" by blast
  from strict.run_matched [of pk m h wl cy, unfolded run, OF steps enforced_start [OF f]]
  show "(quota_step (wl_target wl) (wlPods wl))\<^sup>*\<^sup>* quota_start (quota_of wl S)"
    by (simp add: quota_of_fresh [OF f] pending_unplaced_def)
  fix S'
  assume "sched_step pk cy m h wl S S'"
  with strict.step_matched [of pk m h wl cy S S'] inv assms(1,2)
  show "(quota_step (wl_target wl) (wlPods wl))\<^sup>=\<^sup>= (quota_of wl S) (quota_of wl S')" by simp
qed

lemma ex_names: "wl_names ex_workload = {''worker''}"
  by (simp add: wl_names_def matching_names_def ex_defs label_defs)

theorem scheduler_refines_quota_witness:
  "\<exists>a. (quota_step 1 [0, 1])\<^sup>*\<^sup>* quota_start a \<and> side a 0 = Some True \<and> side a 1 = Some False"
proof (rule exI, intro conjI)
  show "(quota_step 1 [0, 1])\<^sup>*\<^sup>* quota_start (quota_of ex_workload ex_placed)"
    using scheduler_refines_quota [OF ex_steady ex_cycle_contract ex_placed_reachable]
    by (simp add: ex_workload_target) (simp add: ex_workload_def)
  show "side (quota_of ex_workload ex_placed) 0 = Some True"
    "side (quota_of ex_workload ex_placed) 1 = Some False"
    by (simp_all add: quota_of_def ex_names ex_placed_nodes [unfolded One_nat_def])
      (simp_all add: ex_workload_def)
qed

text \<open>
  C2: pods may be added, removed and replaced while whole cycles run, nodes may join and
  leave, and policies and even the mode be edited, as long as no placed pod's node changes
  its side. For a Strict policy, or a BestEffort one with a scheduler that follows its
  scores and leaves enough nodes, and while the scaled target falls by no more than the pods
  that leave the policy's nodes and rises by no more than the pods that arrive or leave the
  other nodes (scale-ups under a number or a percentage, and replacements, do this), the
  target is never exceeded, the other nodes never get more than it leaves over, and it is met
  whenever all pods have a node.
\<close>

theorem turnover_keeps_quota:
  assumes "cycle_contract cy" "lives pk cy h m sch wl S"
  shows "int (length (filter (\<lambda>r. node_of S r \<in> wl_names wl) (wlPods wl))) \<le> max 0 (wl_target wl) \<and>
    int (length (filter (\<lambda>r. node_of S r \<noteq> '''' \<and> node_of S r \<notin> wl_names wl) (wlPods wl))) \<le>
      int (length (wlPods wl)) - max 0 (min (wl_target wl) (int (length (wlPods wl)))) \<and>
    ((\<forall>r \<in> set (wlPods wl). node_of S r \<noteq> '''') \<longrightarrow>
      int (length (filter (\<lambda>r. node_of S r \<in> wl_names wl) (wlPods wl))) =
        max 0 (min (wl_target wl) (int (length (wlPods wl)))))"
  using keeps_quota [OF lives_enforced [OF assms] promising_ok [OF lives_promising [OF assms(2)]]]
  by (simp add: wl_quota_def)

definition ex_listing :: "pod_ref list \<Rightarrow> (unit, strmap) PlacementPolicyManager" where
  "ex_listing rs = ex_manager\<lparr>podLister := (\<lambda>\<sigma> sel. (rs, None))\<rparr>"

definition ex_snapshot :: "Node list \<Rightarrow> unit FrameworkHandle" where
  "ex_snapshot ns = ex_handle\<lparr>NodeInfos_List := (\<lambda>w. (map Some ns, None))\<rparr>"

abbreviation ex_turned :: "pod_ref list \<Rightarrow> Node list \<Rightarrow> workload" where
  "ex_turned rs ns \<equiv> ex_workload\<lparr>wlPods := rs, wlNodes := ns\<rparr>"

abbreviation ex_joined :: "Node list" where
  "ex_joined \<equiv> [ex_node1, ex_node2, ex_node1\<lparr>nodeName := ''worker5''\<rparr>]"

definition ex_scaled_up :: "unit system" where
  "ex_scaled_up = ex_placed\<lparr>machine_of := (machine_of ex_placed)\<lparr>mem :=
     (mem (machine_of ex_placed))(2 \<mapsto> ex_pod ''nginx-2'')\<rparr>\<rparr>"

lemma ex_turned_steady:
  "rs \<in> {[0, 1, 2], [0]} \<Longrightarrow> ns \<in> {ex_joined, [ex_node1, ex_node2]} \<Longrightarrow>
   steady ex_packages (ex_listing rs) (ex_snapshot ns) (ex_turned rs ns)"
  by (auto simp: steady_defs ex_listing_def ex_snapshot_def ex_defs namespace_policies_def len64_def)

lemma ex_turned_promising:
  "rs \<in> {[0, 1, 2], [0]} \<Longrightarrow> ns \<in> {ex_joined, [ex_node1, ex_node2]} \<Longrightarrow>
   promising ex_packages (ex_listing rs) (ex_snapshot ns) sch (ex_turned rs ns)"
  unfolding promising_def by (rule disjI1) (rule ex_turned_steady)

lemma ex_turned_simps:
  "wl_target (ex_turned rs ns) = 1"
  "wl_names (ex_turned rs [ex_node1, ex_node2]) = {''worker''}"
  "wl_names (ex_turned rs ex_joined) = {''worker'', ''worker5''}"
  by (simp add: wl_target_def target_def ex_workload_def ex_rule_def api_constants)
    (auto simp: wl_names_def matching_names_def ex_defs label_defs)

lemma ex_lives: "lives ex_packages ex_cycle ex_handle ex_manager ex_any ex_workload ex_placed"
  by (rule lives_run [OF ex_placed_cycles Begins]) (simp_all add: promising_def ex_steady ex_fresh)

lemma ex_scaled_lives:
  "lives ex_packages ex_cycle (ex_snapshot ex_joined) (ex_listing [0, 1, 2]) ex_any (ex_turned [0, 1, 2] ex_joined) ex_scaled_up"
proof -
  have up: "turnover ex_workload (ex_turned [0, 1, 2] ex_joined) [] [2] ex_placed ex_scaled_up"
    by (simp add: turnover_def arrived_def stays_def ex_scaled_up_def ex_placed_def ex_state_defs ex_turned_simps ex_names)
      (auto simp: workload_pod_def selects_def ex_defs label_defs pod_annotation_def annotated_def)
  show ?thesis
    by (rule Turns [OF ex_lives up _ ex_turned_promising]) (rule scale_up_follows [OF up], simp_all add: ex_workload_def)
qed

text \<open>
  Both pods placed, then a third one is added with a third node; or the one on the other node
  is removed.
\<close>

theorem turnover_keeps_quota_witness:
  "length (filter (\<lambda>r. node_of ex_scaled_up r \<noteq> '''' \<and> node_of ex_scaled_up r \<notin> {''worker'', ''worker5''}) [0, 1, 2]) \<le> 2 \<and>
   length (filter (\<lambda>r. node_of ex_placed r \<in> {''worker''}) [0]) = 1"
proof
  from turnover_keeps_quota [OF ex_cycle_contract ex_scaled_lives]
  show "length (filter (\<lambda>r. node_of ex_scaled_up r \<noteq> '''' \<and> node_of ex_scaled_up r \<notin> {''worker'', ''worker5''}) [0, 1, 2]) \<le> 2"
    by (simp only: ex_turned_simps) simp
  have off: "preference (machine_of ex_placed) 1 = Some False"
  proof -
    have "preference (machine_of ex_placed) 1 = Some (node_of ex_placed 1 \<in> wl_names ex_workload)"
      by (rule node_preference [OF reachable_enforced [OF ex_steady ex_cycle_contract ex_placed_reachable]])
        (simp add: ex_workload_def, simp only: ex_placed_nodes, simp)
    then show ?thesis by (simp only: ex_names ex_placed_nodes) simp
  qed
  have down: "turnover ex_workload (ex_turned [0] [ex_node1, ex_node2]) [1] [] ex_placed ex_placed"
    by (simp add: turnover_def stays_def ex_placed_def ex_state_defs ex_turned_simps ex_names)
      (simp add: workload_pod_def selects_def ex_defs label_defs annotated_def)
  have "lives ex_packages ex_cycle (ex_snapshot [ex_node1, ex_node2]) (ex_listing [0]) ex_any (ex_turned [0] [ex_node1, ex_node2]) ex_placed"
    by (rule Turns [OF ex_lives down _ ex_turned_promising])
      (simp_all add: target_follows_def off [unfolded One_nat_def] ex_turned_simps ex_workload_target)
  from turnover_keeps_quota [OF ex_cycle_contract this]
  show "length (filter (\<lambda>r. node_of ex_placed r \<in> {''worker''}) [0]) = 1"
    by (simp only: ex_turned_simps) (simp add: ex_placed_nodes)
qed

text \<open>
  C7: at any moment of such a life the workload can be completed: if the API server accepts
  updates and the scheduler lets the plugin's choice through, by leaving any single node
  under a Strict policy, and by selecting one of the nodes it leaves under a BestEffort one,
  then a run of further cycles gives every pod a node, with the target met.
\<close>

theorem life_completes:
  assumes "cycle_contract cy" "lives pk cy h m sch wl S" "completable pk cy m h sch wl"
  shows "\<exists>S'. (cycle_step pk cy m h sch wl)\<^sup>*\<^sup>* S S' \<and> (\<forall>r \<in> set (wlPods wl). node_of S' r \<noteq> '''') \<and>
    int (length (filter (\<lambda>r. node_of S' r \<in> wl_names wl) (wlPods wl))) =
      max 0 (min (wl_target wl) (int (length (wlPods wl))))"
proof -
  note p = lives_promising [OF assms(2)]
  show ?thesis
    using promised.completes [of pk m h sch wl cy S, unfolded promised_run [OF p assms(1)]]
      lives_invariant [OF assms(1,2)] promising_ok [OF p] p assms(1,3)
    by (simp add: wl_quota_def)
qed

text \<open>The third pod of the scaled-up workload.\<close>

theorem life_completes_witness:
  "\<exists>S'. (cycle_step ex_packages ex_cycle (ex_listing [0, 1, 2]) (ex_snapshot ex_joined) ex_any
      (ex_turned [0, 1, 2] ex_joined))\<^sup>*\<^sup>* ex_scaled_up S' \<and> node_of S' 2 \<noteq> ''''"
proof -
  have "steady ex_packages (ex_listing [0, 1, 2]) (ex_snapshot ex_joined) (ex_turned [0, 1, 2] ex_joined)"
    by (rule ex_turned_steady) simp_all
  moreover have "both_sides (ex_turned [0, 1, 2] ex_joined)" "accepting (ex_listing [0, 1, 2])"
    by (simp_all add: both_sides_def wl_matches_def accepting_def ex_listing_def) (simp_all add: ex_defs label_defs)
  ultimately have "completable ex_packages ex_cycle (ex_listing [0, 1, 2]) (ex_snapshot ex_joined) ex_any
      (ex_turned [0, 1, 2] ex_joined)"
    by (simp add: completable_def ex_any_def)
  from life_completes [OF ex_cycle_contract ex_scaled_lives this] show ?thesis by auto
qed

text \<open>
  C8: placement terminates with the target met: from any moment of such a life on, in every
  infinite run that is fair to pods that can be assigned and to assigned pods, from some
  moment on all pods of the workload have a node, none of them changes it any more, and the
  target is met. That a waiting pod can be assigned, whatever the others have done, is what
  the hooks provide: a node that \<open>Filter\<close> accepts, or a score that selects one.
\<close>

theorem fair_runs_complete:
  assumes "cycle_contract cy" "completable pk cy m h sch wl" "lives pk cy h m sch wl (f 0)"
    and "\<forall>i. cycle_step pk cy m h sch wl (f i) (f (Suc i))" "fair (cycle_step pk cy m h sch wl) wl f"
  shows "\<exists>N. \<forall>i \<ge> N. node_of (f i) = node_of (f N) \<and> (\<forall>r \<in> set (wlPods wl). node_of (f i) r \<noteq> '''') \<and>
    int (length (filter (\<lambda>r. node_of (f i) r \<in> wl_names wl) (wlPods wl))) =
      max 0 (min (wl_target wl) (int (length (wlPods wl))))"
proof -
  note p = lives_promising [OF assms(3)]
  show ?thesis
    using promised.fair_run_completes [of pk m h sch wl cy f, unfolded promised_run [OF p assms(1)]]
      lives_invariant [OF assms(1,3)] promising_ok [OF p] p assms(1,2,4,5)
    by (simp add: wl_quota_def)
qed

text \<open>The second pod is assigned and bound, then nothing happens.\<close>

definition ex_run :: "nat \<Rightarrow> unit system" where
  "ex_run i = (if i = 0 then ex_half else if i = 1 then
      ex_state (ex_pod0 (Some True) ''worker'') (ex_pod1 (Some False) '''') [1 \<mapsto> ex_node2] else ex_placed)"

abbreviation ex_cycle_step :: "unit system \<Rightarrow> unit system \<Rightarrow> bool" where
  "ex_cycle_step \<equiv> cycle_step ex_packages ex_cycle ex_manager ex_handle ex_any ex_workload"

lemma ex_any_feasible: "feasible ex_any S r [n]"
  by (simp add: ex_any_def)

lemma ex_run_steps: "ex_cycle_step (ex_run i) (ex_run (Suc i))"
proof -
  have "ex_step ex_placed (ex_placed\<lparr>machine_of := (machine_of ex_placed)\<lparr>world := ()\<rparr>\<rparr>)" by (rule Outside)
  moreover have "ex_placed\<lparr>machine_of := (machine_of ex_placed)\<lparr>world := ()\<rparr>\<rparr> = ex_placed"
    by (simp add: ex_placed_def ex_state_def)
  ultimately have stay: "ex_step ex_placed ex_placed" by (simp only:)
  have "ex_step (ex_run i) (ex_run (Suc i))"
    using stay ex_step3 ex_step4 unfolding ex_run_def ex_half_def ex_placed_def by (cases i) simp_all
  then show ?thesis by (rule sched_cycle_step) (simp add: ex_any_feasible)
qed

lemma ex_run_lives: "lives ex_packages ex_cycle ex_handle ex_manager ex_any ex_workload (ex_run 0)"
proof -
  from reachable_run [OF ex_half_reachable] obtain \<sigma> where "fresh_workload ex_workload \<sigma>" "ex_step\<^sup>*\<^sup>* (starts \<sigma>) ex_half"
    unfolding starts_def by blast
  then show ?thesis
    using lives_run [OF sched_cycles Begins, of ex_packages ex_cycle ex_manager ex_handle ex_workload \<sigma> ex_half ex_any]
    by (simp add: ex_run_def promising_def ex_steady ex_any_feasible)
qed

lemma ex_run_fair: "fair ex_cycle_step ex_workload ex_run"
proof -
  have "pending (ex_run j) r = None \<and> \<not> schedulable ex_workload (ex_run j) r" if "j \<ge> 2" for j r
  proof -
    have "ex_run j = ex_placed" using that by (simp add: ex_run_def)
    then show ?thesis by (auto simp: schedulable_def ex_placed_def ex_state_defs ex_workload_def)
  qed
  then have late: "\<forall>j \<ge> 2. pending (ex_run j) r = None \<and> \<not> assignable ex_cycle_step ex_workload (ex_run j) r" for r
    by (simp add: assignable_def)
  have "\<not> (\<forall>i. \<exists>j \<ge> i. P j)" if "\<forall>j \<ge> 2. \<not> P j" for P :: "nat \<Rightarrow> bool" using that by blast
  with late have "\<not> (\<forall>i. \<exists>j \<ge> i. assignable ex_cycle_step ex_workload (ex_run j) r) \<and>
      \<not> (\<forall>i. \<exists>j \<ge> i. pending (ex_run j) r \<noteq> None)" for r
    by (meson order_refl)
  then show ?thesis unfolding fair_def by blast
qed

theorem fair_runs_complete_witness:
  "\<exists>N. \<forall>i \<ge> N. length (filter (\<lambda>r. node_of (ex_run i) r \<in> {''worker''}) [0, 1]) = 1"
proof -
  have "both_sides ex_workload" "accepting ex_manager"
    by (simp_all add: both_sides_def wl_matches_def accepting_def) (simp_all add: ex_defs label_defs)
  then have "completable ex_packages ex_cycle ex_manager ex_handle ex_any ex_workload"
    by (simp add: completable_def ex_steady ex_any_feasible)
  from fair_runs_complete [OF ex_cycle_contract this ex_run_lives _ ex_run_fair] ex_run_steps
  obtain N where "\<forall>i \<ge> N. int (length (filter (\<lambda>r. node_of (ex_run i) r \<in> wl_names ex_workload) (wlPods ex_workload))) =
      max 0 (min (wl_target ex_workload) (int (length (wlPods ex_workload))))" by blast
  moreover have "wlPods ex_workload = [0, 1]" "max 0 (min (wl_target ex_workload) (int (length (wlPods ex_workload)))) = 1"
    by (simp_all add: ex_workload_target) (simp_all add: ex_workload_def)
  ultimately have "\<forall>i \<ge> N. int (length (filter (\<lambda>r. node_of (ex_run i) r \<in> {''worker''}) [0, 1])) = 1"
    by (simp only: ex_names)
  then show ?thesis by (simp only: of_nat_eq_1_iff) blast
qed

end
