(* ===== verification/Cycle_Properties.thy ===== *)
theory Cycle_Properties
  imports Scheduling_Cycle Example_Cluster
begin

section \<open>Properties of whole scheduling cycles\<close>

text \<open>
  What all hooks together do to a workload, per enforcement mode, with a cluster of four
  nodes for the instances.
\<close>

subsection \<open>A cluster with two nodes on either side\<close>

definition ex_nodes :: "Node list" where
  "ex_nodes =
     [ex_node1, ex_node1\<lparr>nodeName := ''worker2''\<rparr>, ex_node2, ex_node2\<lparr>nodeName := ''worker4''\<rparr>]"

definition ex_handle4 :: "unit FrameworkHandle" where
  "ex_handle4 =
     \<lparr>NodeInfos_List = (\<lambda>w. (map Some ex_nodes, None)),
      NodeInfos_Get = (\<lambda>w name. case filter (\<lambda>n. nodeName n = name) ex_nodes of
        [] \<Rightarrow> (None, Some (External ''node not found'')) | n # _ \<Rightarrow> (Some n, None)),
      MinNodeScore = 0, MaxNodeScore = 100\<rparr>"

definition ex_workload4 :: "PlacementPolicy \<Rightarrow> workload" where
  "ex_workload4 pp = ex_workload\<lparr>wlPolicies := [pp], wlPolicy := pp, wlNodes := ex_nodes\<rparr>"

text \<open>A scheduler that leaves the nodes of a given view and takes one of the best score.\<close>

definition ex_scheduler :: "(unit system \<Rightarrow> Node \<Rightarrow> bool) \<Rightarrow> unit scheduler" where
  "ex_scheduler fits =
     \<lparr>feasible = (\<lambda>S r ns. ns = filter (fits S) ex_nodes),
      selected = (\<lambda>scores x. \<exists>s \<in> set scores. scoreName s = x \<and>
        (\<forall>s' \<in> set scores. sint (scoreValue s') \<le> sint (scoreValue s)))\<rparr>"

abbreviation ex_cycles :: "PlacementPolicy \<Rightarrow> (unit system \<Rightarrow> Node \<Rightarrow> bool) \<Rightarrow> unit system \<Rightarrow> unit system \<Rightarrow> bool" where
  "ex_cycles pp fits \<equiv>
     cycle_step ex_packages ex_cycle (ex_manager_of [pp]) ex_handle4 (ex_scheduler fits) (ex_workload4 pp)"

lemmas ex4_defs = ex_handle4_def ex_workload4_def ex_nodes_def ex_scheduler_def

lemma ex_surroundings4:
  "surroundings ex_packages (ex_manager_of [ex_policy_of x w mode]) ex_handle4 (ex_workload4 (ex_policy_of x w mode))"
  by (simp add: surroundings_def wl_ok_def ex4_defs)
    (simp add: ex_defs namespace_policies_def len64_def)

lemma ex_lenient4: "lenient ex_packages (ex_manager_of [ex_soft]) ex_handle4 (ex_workload4 ex_soft)"
  unfolding lenient_def
proof (intro conjI)
  show "surroundings ex_packages (ex_manager_of [ex_soft]) ex_handle4 (ex_workload4 ex_soft)"
    unfolding ex_soft_def by (rule ex_surroundings4)
  show "EnforcementModeOf (Spec (wlPolicy (ex_workload4 ex_soft))) = EnforcementModeBestEffort"
    by (simp add: ex_workload4_def ex_policy_mode)
  show "\<forall>w. \<forall>n \<in> set (wlNodes (ex_workload4 ex_soft)). NodeInfos_Get ex_handle4 w (nodeName n) = (Some n, None)"
    by (simp add: ex4_defs) (simp add: ex_node1_def ex_node2_def)
qed (simp_all add: ex_handle4_def)

lemma ex_follows: "follows_scores (ex_scheduler fits)"
  by (simp add: follows_scores_def ex_scheduler_def)

lemma ex_fresh4: "fresh_workload (ex_workload4 (ex_policy_of x w mode)) ex_machine"
  by (simp add: fresh_workload_def ex_workload4_def)
    (simp add: ex_defs label_defs pod_annotation_def workload_pod_def selects_def)

lemma ex_matches4:
  "wl_matches (ex_workload4 pp) ex_node1" "\<not> wl_matches (ex_workload4 pp) ex_node2"
  "wl_matches (ex_workload4 pp) (ex_node1\<lparr>nodeName := x\<rparr>)" "\<not> wl_matches (ex_workload4 pp) (ex_node2\<lparr>nodeName := x\<rparr>)"
  by (simp_all add: wl_matches_def ex_workload4_def) (simp_all add: ex_defs label_defs)

lemma ex_target4: "wl_target (ex_workload4 pp) = 1" "wlPods (ex_workload4 pp) = [0, 1]"
  by (simp_all add: wl_target_def target_def ex_workload4_def ex_workload_def ex_rule_def api_constants)

lemma ex_names4: "wl_names (ex_workload4 pp) = {''worker'', ''worker2''}"
  by (simp add: wl_names_def matching_names_def ex_workload4_def ex_nodes_def)
    (auto simp: ex_defs label_defs)

subsection \<open>Strict policies\<close>

text \<open>
  C5: for a Strict policy the scoring half of a cycle is without effect: every step of whole
  cycles, from any state that is reached, is a step of the filtering half alone; and if the
  other plugins may leave any single node, the two relations have the same steps.
\<close>

theorem strict_cycles_only_filter:
  assumes "steady pk m h wl" "cycle_contract cy" "reachable pk cy m h wl S"
  shows "(\<forall>S'. cycle_step pk cy m h sch wl S S' \<longrightarrow> sched_step pk cy m h wl S S') \<and>
    ((\<forall>r n. feasible sch S r [n]) \<longrightarrow> cycle_step pk cy m h sch wl S = sched_step pk cy m h wl S)"
  using strict_cycle_step [OF _ assms(1) reachable_enforced [OF assms]] sched_cycle_step [of pk cy m h wl S _ sch]
  by (auto simp: fun_eq_iff)

theorem strict_cycles_only_filter_witness:
  "cycle_step ex_packages ex_cycle ex_manager ex_handle ex_any ex_workload ex_half = ex_step ex_half"
  using strict_cycles_only_filter [OF ex_steady ex_cycle_contract ex_half_reachable, of ex_any]
  by (simp add: ex_any_def)

subsection \<open>BestEffort policies\<close>

text \<open>
  C4: a BestEffort policy places its pods as a Strict one would, over whole cycles in any
  order, if the scheduler takes a node of the highest score and the nodes left for a pod
  always include the policy's nodes that the workload is on and nodes of both kinds. Then
  the target is never exceeded, the other nodes never get more than it leaves over, it is
  met when all pods have a node, and the runs refine the quota machine.
\<close>

theorem best_effort_meets_target:
  assumes "lenient pk m h wl" "cycle_contract cy" "follows_scores sch" "roomy wl sch"
    and "fresh_workload wl \<sigma>" "(cycle_step pk cy m h sch wl)\<^sup>*\<^sup>* (starts \<sigma>) S"
  shows "int (length (filter (\<lambda>r. node_of S r \<in> wl_names wl) (wlPods wl))) \<le> max 0 (wl_target wl) \<and>
    int (length (filter (\<lambda>r. node_of S r \<noteq> '''' \<and> node_of S r \<notin> wl_names wl) (wlPods wl))) \<le>
      int (length (wlPods wl)) - max 0 (min (wl_target wl) (int (length (wlPods wl)))) \<and>
    ((\<forall>r \<in> set (wlPods wl). node_of S r \<noteq> '''') \<longrightarrow>
      int (length (filter (\<lambda>r. node_of S r \<in> wl_names wl) (wlPods wl))) =
        max 0 (min (wl_target wl) (int (length (wlPods wl))))) \<and>
    (quota_step (wl_target wl) (wlPods wl))\<^sup>*\<^sup>* quota_start (quota_of wl S)"
proof -
  note run = scored_run [OF assms(1-4)]
  have inv: "enforced wl S"
    using scored.fresh_run [of wl \<sigma> pk m h cy sch S, unfolded run] assms(5,6) by (simp add: starts_def)
  have "(quota_step (wl_target wl) (wlPods wl))\<^sup>*\<^sup>* (quota_of wl (starts \<sigma>)) (quota_of wl S)"
    using scored.run_matched [of pk m h wl cy sch, unfolded run, OF assms(6)] enforced_start [OF assms(5)]
    by (simp add: starts_def pending_unplaced_def)
  then show ?thesis
    using keeps_quota [OF inv lenient_ok [OF assms(1)]] by (simp add: wl_quota_def starts_def quota_of_fresh [OF assms(5)])
qed

text \<open>Two pods under a target of one, every node left for each of them.\<close>

definition ex_soft_pod :: "string \<Rightarrow> bool \<Rightarrow> string \<Rightarrow> Pod" where
  "ex_soft_pod name b node = (annotated ex_soft b (ex_pod name))\<lparr>podNodeName := node\<rparr>"

definition ex_bound0 :: "unit system" where
  "ex_bound0 = ex_state (ex_soft_pod ''nginx-0'' True ''worker'') (ex_pod ''nginx-1'') (\<lambda>_. None)"

definition ex_bound1 :: "bool \<Rightarrow> string \<Rightarrow> unit system" where
  "ex_bound1 b node =
     ex_state (ex_soft_pod ''nginx-0'' True ''worker'') (ex_soft_pod ''nginx-1'' b node) (\<lambda>_. None)"

lemma ex_soft_enforced: "enforced (ex_workload4 ex_soft) (starts ex_machine)"
  unfolding starts_def ex_soft_def by (rule enforced_start [OF ex_fresh4])

lemma ex_first_pod:
  assumes "filter (fits (starts ex_machine)) ex_nodes = ex_nodes"
  shows "(ex_cycles ex_soft fits)\<^sup>*\<^sup>* (starts ex_machine) ex_bound0"
proof -
  let ?S = "starts ex_machine" and ?wl = "ex_workload4 ex_soft"
  let ?v = "workload_view ?wl (ex_pod ''nginx-0'')"
  let ?S1 = "?S\<lparr>machine_of := decided_machine (ex_manager_of [ex_soft]) 0 (machine_of ?S) ex_nodes ?v,
      pending := (pending ?S)(0 \<mapsto> ex_node1)\<rparr>"
  have d: "decision (machine_of ?S) ex_nodes ?v"
    by (simp add: decision_defs starts_def ex_workload4_def) (simp add: ex_defs label_defs)
  have "ex_cycles ex_soft fits ?S ?S1"
  proof (rule Cycle_decided [OF ex_lenient4 ex_cycle_contract ex_soft_enforced _ _ ex_new_cycle_read _ _ _ _ ex_accepts])
    show "selected (ex_scheduler fits) (side_scores ?wl (decision (machine_of ?S) ex_nodes ?v) ex_nodes) (nodeName ex_node1)"
      using d by (simp add: ex_scheduler_def side_scores_def ex_nodes_def ex_matches4)
  qed (use assms in \<open>simp_all add: starts_def schedulable_def ex_target4 ex_scheduler_def\<close>,
       simp_all add: ex_machine_def ex_workload4_def ex_nodes_def ex_matches4 [unfolded ex_workload4_def ex_nodes_def], simp_all add: ex_pod_def)
  moreover have "decided_pod (machine_of ?S) ex_nodes ?v = ex_soft_pod ''nginx-0'' True ''''"
    using d by (simp add: decided_pod_def ex_workload4_def ex_soft_pod_def annotated_def ex_pod_def)
  then have S1: "?S1 = ex_state (ex_soft_pod ''nginx-0'' True '''') (ex_pod ''nginx-1'') [0 \<mapsto> ex_node1]"
    by (simp add: starts_def ex_state_def ex_machine_def decided_machine_def fun_upd_twist)
  moreover have "ex_cycles ex_soft fits ?S1 ex_bound0"
  proof -
    have "ex_cycles ex_soft fits ?S1 (?S1\<lparr>machine_of := (machine_of ?S1)\<lparr>mem := (mem (machine_of ?S1))(0 \<mapsto>
        (ex_soft_pod ''nginx-0'' True '''')\<lparr>podNodeName := nodeName ex_node1\<rparr>)\<rparr>, pending := (pending ?S1)(0 := None)\<rparr>)"
      unfolding S1 by (rule CycleBind) (simp_all add: ex_state_def)
    then show ?thesis
      unfolding S1 by (simp add: ex_bound0_def ex_state_def ex_soft_pod_def ex_node1_def fun_upd_twist)
  qed
  ultimately show ?thesis by (meson r_into_rtranclp rtranclp_trans)
qed

lemma ex_roomy: "roomy (ex_workload4 ex_soft) (ex_scheduler (\<lambda>_ _. True))"
  by (auto simp: roomy_def visible_def ex_scheduler_def ex_nodes_def ex_workload4_def
      ex_matches4 [unfolded ex_workload4_def ex_nodes_def])

lemma ex_bound0_enforced: "enforced (ex_workload4 ex_soft) ex_bound0"
  using scored.fresh_run [of "ex_workload4 ex_soft" ex_machine ex_packages "ex_manager_of [ex_soft]" ex_handle4 ex_cycle
      "ex_scheduler (\<lambda>_ _. True)" ex_bound0, unfolded scored_run [OF ex_lenient4 ex_cycle_contract ex_follows ex_roomy]]
    ex_first_pod [of "\<lambda>_ _. True"] ex_fresh4
  by (simp add: starts_def ex_soft_def)

lemma ex_second_cycle:
  assumes ns: "filter (fits ex_bound0) ex_nodes = ns" "\<exists>n \<in> set ns. wl_matches (ex_workload4 ex_soft) n"
      "\<exists>n \<in> set ns. \<not> wl_matches (ex_workload4 ex_soft) n"
    and b: "decision (machine_of ex_bound0) ns (workload_view (ex_workload4 ex_soft) (ex_pod ''nginx-1'')) = b"
    and n: "n \<in> set ns" "selected (ex_scheduler fits) (side_scores (ex_workload4 ex_soft) b ns) (nodeName n)"
  shows "\<exists>S1. ex_cycles ex_soft fits ex_bound0 S1 \<and> pending S1 1 = Some n \<and>
    S1 = ex_state (ex_soft_pod ''nginx-0'' True ''worker'') (ex_soft_pod ''nginx-1'' b '''') [1 \<mapsto> n]"
proof -
  let ?v = "workload_view (ex_workload4 ex_soft) (ex_pod ''nginx-1'')"
  let ?S1 = "ex_bound0\<lparr>machine_of := decided_machine (ex_manager_of [ex_soft]) 1 (machine_of ex_bound0) ns ?v,
      pending := (pending ex_bound0)(1 \<mapsto> n)\<rparr>"
  have one: "ex_cycles ex_soft fits ex_bound0 ?S1"
  proof (rule Cycle_decided [OF ex_lenient4 ex_cycle_contract ex_bound0_enforced _ _ ex_new_cycle_read _ _ ns(2,3) ex_accepts n(1)])
    show "schedulable (ex_workload4 ex_soft) ex_bound0 1"
      by (simp add: schedulable_def ex_target4 ex_bound0_def ex_state_def ex_pod_def)
    show "mem (machine_of ex_bound0) 1 = Some (ex_pod ''nginx-1'')" by (simp add: ex_bound0_def ex_state_def)
    show "set ns \<subseteq> set (wlNodes (ex_workload4 ex_soft))" using ns(1) by (auto simp: ex_workload4_def)
    show "feasible (ex_scheduler fits) ex_bound0 1 ns" by (simp add: ex_scheduler_def ns(1))
    show "selected (ex_scheduler fits) (side_scores (ex_workload4 ex_soft)
        (decision (machine_of ex_bound0) ns ?v) ns) (nodeName n)" unfolding b by (rule n(2))
  qed
  have "decided_pod (machine_of ex_bound0) ns ?v = ex_soft_pod ''nginx-1'' b ''''"
    unfolding decided_pod_def b by (simp add: ex_workload4_def ex_soft_pod_def annotated_def ex_pod_def)
  then have S1: "?S1 = ex_state (ex_soft_pod ''nginx-0'' True ''worker'') (ex_soft_pod ''nginx-1'' b '''') [1 \<mapsto> n]"
    by (simp add: ex_bound0_def ex_state_def decided_machine_def)
  from one S1 show ?thesis by (intro exI [of _ ?S1]) (simp add: ex_state_def)
qed

lemma ex_second_pod:
  assumes ns: "filter (fits ex_bound0) ex_nodes = ns" "\<exists>n \<in> set ns. wl_matches (ex_workload4 ex_soft) n"
      "\<exists>n \<in> set ns. \<not> wl_matches (ex_workload4 ex_soft) n"
    and b: "decision (machine_of ex_bound0) ns (workload_view (ex_workload4 ex_soft) (ex_pod ''nginx-1'')) = b"
    and n: "n \<in> set ns" "selected (ex_scheduler fits) (side_scores (ex_workload4 ex_soft) b ns) (nodeName n)"
  shows "(ex_cycles ex_soft fits)\<^sup>*\<^sup>* ex_bound0 (ex_bound1 b (nodeName n))"
proof -
  obtain S1 where one: "ex_cycles ex_soft fits ex_bound0 S1"
    and S1: "S1 = ex_state (ex_soft_pod ''nginx-0'' True ''worker'') (ex_soft_pod ''nginx-1'' b '''') [1 \<mapsto> n]"
    using ex_second_cycle [of fits, OF assms] by blast
  have "ex_cycles ex_soft fits S1 (S1\<lparr>machine_of := (machine_of S1)\<lparr>mem := (mem (machine_of S1))(1 \<mapsto>
      (ex_soft_pod ''nginx-1'' b '''')\<lparr>podNodeName := nodeName n\<rparr>)\<rparr>, pending := (pending S1)(1 := None)\<rparr>)"
    unfolding S1 by (rule CycleBind) (simp_all add: ex_state_def)
  moreover have "S1\<lparr>machine_of := (machine_of S1)\<lparr>mem := (mem (machine_of S1))(1 \<mapsto>
      (ex_soft_pod ''nginx-1'' b '''')\<lparr>podNodeName := nodeName n\<rparr>)\<rparr>, pending := (pending S1)(1 := None)\<rparr> = ex_bound1 b (nodeName n)"
    unfolding S1 by (simp add: ex_bound1_def ex_state_def ex_soft_pod_def)
  ultimately have two: "ex_cycles ex_soft fits S1 (ex_bound1 b (nodeName n))" by (simp only:)
  from one have "(ex_cycles ex_soft fits)\<^sup>*\<^sup>* ex_bound0 S1" by (rule r_into_rtranclp)
  then show ?thesis using two by (rule rtranclp.rtrancl_into_rtrancl)
qed

theorem best_effort_meets_target_witness:
  "int (length (filter (\<lambda>r. node_of (ex_bound1 False ''worker3'') r \<in> wl_names (ex_workload4 ex_soft)) [0, 1])) = 1"
proof -
  let ?fits = "\<lambda>(_ :: unit system) (_ :: Node). True"
  have "decision (machine_of ex_bound0) ex_nodes (workload_view (ex_workload4 ex_soft) (ex_pod ''nginx-1'')) = False"
    by (simp add: decision_defs ex_bound0_def ex_state_def ex_soft_pod_def ex_workload4_def ex_nodes_def)
      (simp add: ex_defs label_defs)
  then have "(ex_cycles ex_soft ?fits)\<^sup>*\<^sup>* ex_bound0 (ex_bound1 False (nodeName ex_node2))"
    by (intro ex_second_pod [where ns = ex_nodes])
      (simp_all add: ex_nodes_def ex_matches4 side_scores_def ex_scheduler_def)
  with ex_first_pod [of ?fits] have "(ex_cycles ex_soft ?fits)\<^sup>*\<^sup>* (starts ex_machine) (ex_bound1 False ''worker3'')"
    by (simp add: ex_node2_def)
  from best_effort_meets_target [OF ex_lenient4 ex_cycle_contract ex_follows ex_roomy ex_fresh4 [of "''besteffort-must''" 100
      EnforcementModeBestEffort, folded ex_soft_def] this]
  show ?thesis
    by (simp only: ex_target4) (simp add: ex_bound1_def ex_state_def node_of_def ex_soft_pod_def)
qed

text \<open>
  C9: \<open>PreScore\<close> counts the policy's placed pods on the nodes left for the pod only, and not on
  nodes that are full. Let a workload under a BestEffort policy have reached its target under
  a scheduler that keeps the nodes in use feasible, and let a cycle find a node for one more
  pod. If the policy's nodes in use are among the nodes left for the pod, it goes to another
  node. If the workload has no pod on any node left for it, the pod goes to the policy's
  nodes, although other nodes are left as well, and its binding exceeds the target.
\<close>

theorem full_nodes_are_not_counted:
  assumes "lenient pk m h wl" "cycle_contract cy" "fresh_workload wl \<sigma>"
    and "follows_scores sch0" "roomy wl sch0" "(cycle_step pk cy m h sch0 wl)\<^sup>*\<^sup>* (starts \<sigma>) S"
    and "0 < wl_target wl" "int (length (filter (\<lambda>q. node_of S q \<in> wl_names wl) (wlPods wl))) = wl_target wl"
    and "follows_scores sch"
      "\<forall>ns. feasible sch S r ns \<longrightarrow> (\<exists>n \<in> set ns. wl_matches wl n) \<and> (\<exists>n \<in> set ns. \<not> wl_matches wl n)"
    and "schedulable wl S r" "cycle_step pk cy m h sch wl S S1" "pending S1 r = Some n"
  shows "((\<forall>ns. feasible sch S r ns \<longrightarrow> visible wl S ns) \<longrightarrow> nodeName n \<notin> wl_names wl) \<and>
    ((\<forall>ns. feasible sch S r ns \<longrightarrow> (\<forall>q \<in> set (wlPods wl). node_of S q \<notin> nodeName ` set ns)) \<longrightarrow>
      nodeName n \<in> wl_names wl \<and>
      (\<exists>S2. cycle_step pk cy m h sch wl S1 S2 \<and>
        int (length (filter (\<lambda>q. node_of S2 q \<in> wl_names wl) (wlPods wl))) = wl_target wl + 1))"
proof -
  note ok = lenient_ok [OF assms(1)] and met = assms(8)
  have e: "enforced wl S"
    using scored.fresh_run [of wl \<sigma> pk m h cy sch0 S, unfolded scored_run [OF assms(1,2,4,5)]] assms(3,6)
    by (simp add: starts_def)
  obtain \<sigma>' where cyc: "cycle_ends pk cy (new_Plugin h pk m) sch (wlNodes wl) S r \<sigma>' (Some n)"
    and S1: "S1 = S\<lparr>machine_of := \<sigma>', pending := (pending S)(r \<mapsto> n)\<rparr>"
    by (rule chosen_in_cycle [OF assms(12,11,13)])
  obtain ns pod b where ns: "feasible sch S r ns" "set ns \<subseteq> set (wlNodes wl)" "n \<in> set ns" and n: "wl_matches wl n = b"
    and r: "mem (machine_of S) r = Some pod" "r \<in> set (wlPods wl)"
    and m: "mem \<sigma>' = (mem (machine_of S))(r \<mapsto> annotated (wlPolicy wl) b pod)"
    and b: "b = decision (machine_of S) ns (workload_view wl pod)"
    by (rule lenient_choice [OF assms(1,2,9,10) e assms(11) cyc])
  have "n \<in> set (wlNodes wl)" using ns(2,3) by blast
  then have on: "nodeName n \<in> wl_names wl \<longleftrightarrow> b" using ok n by (simp add: wl_names_node wl_ok_def)
  have free: "node_of S r = ''''" by (rule schedulable_unplaced [OF assms(11)])
  show ?thesis
  proof (intro conjI impI)
    assume "\<forall>ns. feasible sch S r ns \<longrightarrow> visible wl S ns"
    then have "visible wl S ns" using ns(1) by blast
    from decision_visible [OF ok e r(2,1) ns(2) this] count_placed [OF ok e, of r] met
    show "nodeName n \<notin> wl_names wl" by (simp add: on b on_others [OF ok free])
  next
    assume full: "\<forall>ns. feasible sch S r ns \<longrightarrow> (\<forall>q \<in> set (wlPods wl). node_of S q \<notin> nodeName ` set ns)"
    have "decision (machine_of S) ns (workload_view wl pod)"
    proof (rule hidden_decision [OF ok e r(1) assms(7)])
      show "\<forall>q \<in> set (wlPods wl). q \<noteq> r \<and> node_of S q = '''' \<longrightarrow> preference (machine_of S) q \<noteq> Some True"
        using met_promises_no_more [OF ok e _ _ _ assms(7)] met by simp
      show "\<forall>q \<in> set (wlPods wl). node_of S q \<noteq> '''' \<longrightarrow> node_of S q \<notin> matching_names (wlNodeSelector wl) ns"
        using full ns(1) by (auto simp: matching_names_def)
    qed
    then show top: "nodeName n \<in> wl_names wl" by (simp add: on b)
    let ?S2 = "S1\<lparr>machine_of := (machine_of S1)\<lparr>mem := (mem (machine_of S1))(r \<mapsto>
        (annotated (wlPolicy wl) b pod)\<lparr>podNodeName := nodeName n\<rparr>)\<rparr>, pending := (pending S1)(r := None)\<rparr>"
    have "cycle_step pk cy m h sch wl S1 ?S2" by (rule CycleBind) (simp_all add: S1 m)
    moreover have "node_of ?S2 = (node_of S)(r := nodeName n)"
      by (rule ext) (simp add: S1 m node_of_def)
    moreover have "int (length (filter (\<lambda>q. ((node_of S)(r := nodeName n)) q \<in> wl_names wl) (wlPods wl))) = wl_target wl + 1"
      using met one_more_on [OF ok free r(2) top] by simp
    ultimately show "\<exists>S2. cycle_step pk cy m h sch wl S1 S2 \<and>
        int (length (filter (\<lambda>q. node_of S2 q \<in> wl_names wl) (wlPods wl))) = wl_target wl + 1"
      by (intro exI [of _ ?S2]) (simp only: simp_thms)
  qed
qed

text \<open>
  On four nodes that take one pod each, two pods under a \<open>Must\<close> rule with a target of one both
  end on the policy's nodes.
\<close>

definition one_per_node :: "unit system \<Rightarrow> Node \<Rightarrow> bool" where
  "one_per_node S n \<longleftrightarrow> node_of S 0 \<noteq> nodeName n \<and> node_of S 1 \<noteq> nodeName n"

theorem full_nodes_are_not_counted_witness:
  "\<exists>S. (ex_cycles ex_soft one_per_node)\<^sup>*\<^sup>* ex_bound0 S \<and> wl_target (ex_workload4 ex_soft) = 1 \<and>
     length (filter (\<lambda>r. node_of S r \<in> wl_names (ex_workload4 ex_soft)) (wlPods (ex_workload4 ex_soft))) = 2"
proof -
  let ?wl = "ex_workload4 ex_soft" and ?n = "ex_node1\<lparr>nodeName := ''worker2''\<rparr>"
  have half: "node_of ex_bound0 0 = ''worker''" "node_of ex_bound0 1 = ''''"
    by (simp_all add: node_of_def ex_bound0_def ex_state_def ex_soft_pod_def ex_pod_def)
  have left: "filter (one_per_node ex_bound0) ex_nodes = tl ex_nodes"
    by (simp add: one_per_node_def half [unfolded One_nat_def] ex_nodes_def ex_node1_def ex_node2_def)
  have d: "decision (machine_of ex_bound0) (tl ex_nodes) (workload_view ?wl (ex_pod ''nginx-1'')) = True"
    by (simp add: decision_defs ex_bound0_def ex_state_def ex_soft_pod_def ex_workload4_def ex_nodes_def)
      (simp add: ex_defs label_defs)
  have sides: "\<exists>n \<in> set (tl ex_nodes). wl_matches ?wl n" "\<exists>n \<in> set (tl ex_nodes). \<not> wl_matches ?wl n"
    by (simp_all add: ex_nodes_def ex_matches4)
  have best: "?n \<in> set (tl ex_nodes)" "selected (ex_scheduler one_per_node) (side_scores ?wl True (tl ex_nodes)) (nodeName ?n)"
    by (simp_all add: ex_nodes_def ex_matches4 side_scores_def ex_scheduler_def)
  obtain S1 where S1: "ex_cycles ex_soft one_per_node ex_bound0 S1" "pending S1 1 = Some ?n"
    using ex_second_cycle [of one_per_node, OF left sides d best] by blast
  have reached: "(ex_cycles ex_soft (\<lambda>_ _. True))\<^sup>*\<^sup>* (starts ex_machine) ex_bound0" by (rule ex_first_pod) simp
  have met: "int (length (filter (\<lambda>q. node_of ex_bound0 q \<in> wl_names ?wl) (wlPods ?wl))) = wl_target ?wl"
    by (simp add: ex_target4 ex_names4 half [unfolded One_nat_def])
  have free: "schedulable ?wl ex_bound0 1"
    by (simp add: schedulable_def ex_target4 ex_bound0_def ex_state_def ex_pod_def)
  have feas: "feasible (ex_scheduler one_per_node) ex_bound0 1 ns \<longleftrightarrow> ns = tl ex_nodes" for ns
    by (simp add: ex_scheduler_def left)
  have both: "\<forall>ns. feasible (ex_scheduler one_per_node) ex_bound0 1 ns \<longrightarrow>
      (\<exists>n \<in> set ns. wl_matches ?wl n) \<and> (\<exists>n \<in> set ns. \<not> wl_matches ?wl n)" using sides by (simp only: feas) blast
  have "\<forall>q \<in> set (wlPods ?wl). node_of ex_bound0 q \<notin> nodeName ` set (tl ex_nodes)"
    by (simp add: ex_target4 half [unfolded One_nat_def] ex_nodes_def ex_node2_def)
  then have hidden: "\<forall>ns. feasible (ex_scheduler one_per_node) ex_bound0 1 ns \<longrightarrow>
      (\<forall>q \<in> set (wlPods ?wl). node_of ex_bound0 q \<notin> nodeName ` set ns)" by (simp only: feas) blast
  have fresh: "fresh_workload ?wl ex_machine" unfolding ex_soft_def by (rule ex_fresh4)
  from full_nodes_are_not_counted [OF ex_lenient4 ex_cycle_contract fresh ex_follows ex_roomy reached _ met ex_follows both free S1] hidden
  obtain S2 where "ex_cycles ex_soft one_per_node S1 S2"
    "int (length (filter (\<lambda>q. node_of S2 q \<in> wl_names ?wl) (wlPods ?wl))) = wl_target ?wl + 1"
    by (simp only: ex_target4) auto
  moreover have "(ex_cycles ex_soft one_per_node)\<^sup>*\<^sup>* ex_bound0 S2"
    using r_into_rtranclp [of "ex_cycles ex_soft one_per_node", OF S1(1)] calculation(1)
    by (rule rtranclp.rtrancl_into_rtrancl)
  ultimately show ?thesis by (intro exI [of _ S2]) (simp add: ex_target4)
qed

text \<open>
  Under the same conditions a BestEffort policy can always be completed: if updates are
  accepted and the scheduler always selects one of the nodes it leaves, a run of further
  cycles gives every pod a node, with the target met.
\<close>

theorem best_effort_completes:
  assumes "lenient pk m h wl" "cycle_contract cy" "follows_scores sch" "roomy wl sch"
    and "obliging cy (new_Plugin h pk m) sch wl" "accepting m"
    and "fresh_workload wl \<sigma>" "(cycle_step pk cy m h sch wl)\<^sup>*\<^sup>* (starts \<sigma>) S"
  shows "\<exists>S'. (cycle_step pk cy m h sch wl)\<^sup>*\<^sup>* S S' \<and> (\<forall>r \<in> set (wlPods wl). node_of S' r \<noteq> '''') \<and>
    int (length (filter (\<lambda>r. node_of S' r \<in> wl_names wl) (wlPods wl))) =
      max 0 (min (wl_target wl) (int (length (wlPods wl))))"
  using scored.completes [of pk m h wl cy sch S, unfolded scored_run [OF assms(1-4)]]
    scored.fresh_run [of wl \<sigma> pk m h cy sch S, unfolded scored_run [OF assms(1-4)]]
    lenient_ok [OF assms(1)] assms
  by (simp add: starts_def wl_quota_def)

lemma best_score_exists:
  assumes "scores \<noteq> []"
  shows "\<exists>s \<in> set scores. \<forall>s' \<in> set scores. sint (scoreValue s') \<le> sint (scoreValue s)"
proof -
  let ?v = "(\<lambda>s. sint (scoreValue s)) ` set scores"
  have "Max ?v \<in> ?v" using assms by (intro Max_in) auto
  then obtain s where "s \<in> set scores" "Max ?v = sint (scoreValue s)" by auto
  moreover have "\<forall>s' \<in> set scores. sint (scoreValue s') \<le> Max ?v" by simp
  ultimately show ?thesis by auto
qed

lemma ex_obliging: "obliging ex_cycle p (ex_scheduler fits) (ex_workload4 pp)"
  unfolding obliging_def
proof (intro conjI allI impI)
  show "\<exists>st d. csRead ex_cycle st (getPreFilterStateKey p) = (d, Some FrameworkErrNotFound)"
    using ex_new_cycle_read by blast
  show "\<exists>ns. set ns \<subseteq> set (wlNodes (ex_workload4 pp)) \<and> feasible (ex_scheduler fits) S r ns" for S r
    by (rule exI [of _ "filter (fits S) ex_nodes"]) (auto simp: ex_scheduler_def ex_workload4_def)
  show "\<exists>s \<in> set scores. selected (ex_scheduler fits) scores (scoreName s)" if "scores \<noteq> []" for scores
    using best_score_exists [OF that] by (auto simp: ex_scheduler_def)
qed

theorem best_effort_completes_witness:
  "\<exists>S'. (ex_cycles ex_soft (\<lambda>_ _. True))\<^sup>*\<^sup>* ex_bound0 S' \<and> node_of S' 0 \<noteq> '''' \<and> node_of S' 1 \<noteq> ''''"
proof -
  have "accepting (ex_manager_of [ex_soft])" by (simp add: accepting_def ex_defs)
  from best_effort_completes [OF ex_lenient4 ex_cycle_contract ex_follows ex_roomy ex_obliging this
      ex_fresh4 [of "''besteffort-must''" 100 EnforcementModeBestEffort, folded ex_soft_def] ex_first_pod]
  show ?thesis by (auto simp: ex_target4)
qed

subsection \<open>Policies without a mode\<close>

text \<open>
  C10: under a policy without a mode the halves of a cycle contradict each other: when the
  policy's nodes hold the target and no other pod is on its way to them, \<open>PreFilter\<close> turns
  the pod away from the policy's nodes, and \<open>PreScore\<close>, which groups only the nodes left by
  that, annotates it as preferring them. The pod goes to another node and counts as one of
  the policy's until it is bound.
\<close>

theorem modeless_cycle_contradicts_itself:
  assumes "surroundings pk m h wl" "cycle_contract cy"
    and "EnforcementModeOf (Spec (wlPolicy wl)) \<notin> {EnforcementModeBestEffort, EnforcementModeStrict}"
    and "enforced wl S" "schedulable wl S r" "0 < wl_target wl"
    and "wl_target wl \<le> int (length (filter (\<lambda>q. q \<noteq> r \<and> node_of S q \<in> wl_names wl) (wlPods wl)))"
    and "\<forall>q \<in> set (wlPods wl). q \<noteq> r \<and> node_of S q = '''' \<longrightarrow> preference (machine_of S) q \<noteq> Some True"
    and "\<forall>n. \<not> feasible sch S r [n]"
    and "cycle_ends pk cy (new_Plugin h pk m) sch (wlNodes wl) S r \<sigma>' (Some n)"
  shows "\<not> wl_matches wl n \<and> preference \<sigma>' r = Some True"
  by (rule modeless_cycle [OF assms])

definition ex_free :: PlacementPolicy where
  "ex_free = ex_policy_of ''default-mode'' 100 ''''"

text \<open>The first pod is bound to a node of the policy; the other nodes are left for the second.\<close>

definition ex_met :: "unit system" where
  "ex_met = ex_state ((annotated ex_free True (ex_pod ''nginx-0''))\<lparr>podNodeName := ''worker''\<rparr>)
     (ex_pod ''nginx-1'') (\<lambda>_. None)"

definition ex_others :: "Node list" where
  "ex_others = [ex_node2, ex_node2\<lparr>nodeName := ''worker4''\<rparr>]"

abbreviation ex_free_view :: "Pod \<Rightarrow> hook_view" where
  "ex_free_view \<equiv> workload_view (ex_workload4 ex_free)"

definition ex_filtered :: "unit machine" where
  "ex_filtered = decided_machine (ex_manager_of [ex_free]) 1 (machine_of ex_met) ex_nodes (ex_free_view (ex_pod ''nginx-1''))"

definition ex_scored :: "unit machine" where
  "ex_scored = decided_machine (ex_manager_of [ex_free]) 1 ex_filtered ex_others
     (ex_free_view (annotated ex_free False (ex_pod ''nginx-1'')))"

abbreviation ex_free_plugin :: "unit Plugin" where
  "ex_free_plugin \<equiv> new_Plugin ex_handle4 ex_packages (ex_manager_of [ex_free])"

lemma ex_free_surroundings: "surroundings ex_packages (ex_manager_of [ex_free]) ex_handle4 (ex_workload4 ex_free)"
  unfolding ex_free_def by (rule ex_surroundings4)

lemma ex_free_pods: "workload_pod (ex_workload4 ex_free) (ex_pod name)"
  by (simp add: ex_workload4_def ex_free_def)
    (simp add: ex_defs label_defs workload_pod_def selects_def)

lemma ex_met_enforced: "enforced (ex_workload4 ex_free) ex_met"
proof -
  have p: "preference (machine_of ex_met) 0 = Some True" "preference (machine_of ex_met) 1 = None"
    by (simp_all add: preference_def ex_met_def ex_state_def, simp add: ex_pod_def pod_annotation_def)
  have "pod_ok (ex_workload4 ex_free) ex_met q" if "q \<in> {0, 1}" for q
    using that p ex_free_pods
    by (auto simp: pod_ok_def ex_names4) (auto simp: ex_met_def ex_state_def ex_pod_def ex_names4)
  moreover have "distinct (map (\<lambda>r. podUID (the (mem (machine_of ex_met) r))) [0, 1])"
    by (simp add: ex_met_def ex_state_def ex_pod_def annotated_def)
  ultimately show ?thesis
    using p by (simp add: enforced_def ex_target4 meant_def averse_def wl_quota_def)
      (simp add: ex_met_def ex_state_def)
qed

lemma ex_filtered_mem: "mem ex_filtered 1 = Some (annotated ex_free False (ex_pod ''nginx-1''))"
  "mem ex_filtered 0 = mem (machine_of ex_met) 0"
proof -
  have "\<not> decision (machine_of ex_met) ex_nodes (ex_free_view (ex_pod ''nginx-1''))"
    by (simp add: decision_defs ex_met_def ex_state_def ex_workload4_def ex_nodes_def)
      (simp add: ex_defs label_defs ex_free_def annotated_def)
  then show "mem ex_filtered 1 = Some (annotated ex_free False (ex_pod ''nginx-1''))"
    "mem ex_filtered 0 = mem (machine_of ex_met) 0"
    by (simp_all add: ex_filtered_def decided_pod_def) (simp_all add: ex_workload4_def)
qed

lemma ex_scored_mem: "mem ex_scored 1 = Some (annotated ex_free True (annotated ex_free False (ex_pod ''nginx-1'')))"
proof -
  have "matching_names (wlNodeSelector (ex_workload4 ex_free)) ex_others = {}"
    by (simp add: matching_names_def ex_others_def ex_workload4_def) (simp add: ex_defs label_defs)
  then have "decision ex_filtered ex_others (ex_free_view (annotated ex_free False (ex_pod ''nginx-1'')))"
    using ex_filtered_mem
    by (simp add: decision_def prefers_def placed_def counted_def ex_target4 ex_met_def ex_state_def)
      (simp add: ex_workload4_def ex_defs len64_def word_sless_alt)
  then show ?thesis
    by (simp add: ex_scored_def decided_pod_def) (simp add: ex_workload4_def)
qed

lemma ex_free_alloc: "\<forall>q \<in> set (wlPods (ex_workload4 ex_free)). mem ex_filtered q \<noteq> None"
  using ex_filtered_mem by (simp add: ex_target4 ex_met_def ex_state_def)

lemma ex_free_mode: "EnforcementModeOf (Spec (wlPolicy (ex_workload4 ex_free))) = ''''"
  by (simp add: ex_workload4_def ex_free_def ex_policy_of_def)

theorem modeless_cycle_contradicts_itself_witness:
  "\<not> wl_matches (ex_workload4 ex_free) ex_node2 \<and> preference ex_scored 1 = Some True"
proof -
  let ?p = ex_free_plugin and ?wl = "ex_workload4 ex_free"
  let ?st1 = "csWrite ex_cycle ex_new_cycle (getPreFilterStateKey ?p) (NewStateData ''nginx-1'' (Some ex_free))"
  let ?st2 = "csWrite ex_cycle ?st1 (getPreScoreStateKey ?p) (NewStateData ''nginx-1'' (Some ex_free))"
  have mgr: "ppMgr ?p = as_Manager ex_packages (ex_manager_of [ex_free])" by (simp add: new_Plugin_def)
  have mode: "EnforcementModeOf (Spec (wlPolicy ?wl)) \<noteq> EnforcementModeBestEffort"
    "EnforcementModeOf (Spec (wlPolicy ?wl)) \<noteq> EnforcementModeStrict"
    by (simp_all add: ex_free_mode api_constants)
  have sel: "NodeSelector (Spec ex_free) = Some (wlNodeSelector ?wl)" "wlPolicy ?wl = ex_free"
    using ex_free_surroundings by (simp_all add: surroundings_def) (simp_all add: ex_workload4_def)
  have r: "mem (machine_of ex_met) 1 = Some (ex_pod ''nginx-1'')" "1 \<in> set (wlPods ?wl)"
    by (simp_all add: ex_met_def ex_state_def ex_target4)
  have pre: "PreFilter ex_packages ex_cycle ?p ex_new_cycle 1 (machine_of ex_met) = (Return ok_status, ?st1, ex_filtered)"
    using core_pre_filter [OF mgr enforced_sees [OF ex_free_surroundings ex_met_enforced r(2,1)], of ex_nodes ex_cycle ex_new_cycle] mode(1)
    by (simp add: ex_accepts finish_stage_def sel) (simp add: ex_filtered_def decided_pod_def new_Plugin_def ex_handle4_def ex_pod_def)
  have read: "csRead ex_cycle ?st1 (getPreFilterStateKey ?p) = (Some (NewStateData ''nginx-1'' (Some ex_free)), None)"
    "csRead ex_cycle ?st2 (getPreScoreStateKey ?p) = (Some (NewStateData ''nginx-1'' (Some ex_free)), None)"
    by (simp_all add: cycle_contract_read [OF ex_cycle_contract])
  have off: "\<not> checkHasLabels (nodeLabels n) (MatchLabels (wlNodeSelector ?wl))" if "n \<in> set ex_others" for n
    using that ex_matches4(2,4) by (auto simp: ex_others_def wl_matches_def)
  have acc: "\<forall>n \<in> set ex_others. accepts ex_cycle ?p ?st1 1 ex_filtered n"
    using off Filter_reads [OF read(1) sel(1) ex_filtered_mem(1)] by (simp add: accepts_def)
  have score: "PreScore ex_packages ex_cycle ?p ?st1 1 (map Some ex_others) ex_filtered = (Return ok_status, ?st2, ex_scored)"
    using core_pre_score [OF mgr sees_workload [OF ex_free_surroundings ex_filtered_mem(1) _ ex_free_alloc], of ex_cycle ?st1 ex_others]
      mode(2) ex_free_pods
    by (simp add: ex_accepts finish_stage_def sel) (simp add: ex_scored_def decided_pod_def ex_pod_def)
  have zero: "Score ex_cycle ?p ?st2 1 (nodeName n) ex_scored = Return (0, None)" if n: "n \<in> set ex_others" for n
  proof -
    have "NodeInfos_Get (frameworkHandler ?p) (world ex_scored) (nodeName n) = (Some n, None)"
      using n by (auto simp: ex_others_def new_Plugin_def ex_handle4_def ex_nodes_def ex_node1_def ex_node2_def)
    from Score_reads [OF read(2) this sel(1) ex_scored_mem] off [OF n] show ?thesis by simp
  qed
  let ?scores = "[\<lparr>scoreName = ''worker3'', scoreValue = 0\<rparr>, \<lparr>scoreName = ''worker4'', scoreValue = 0\<rparr>]"
  have vals: "node_scores ex_cycle ?p ?st2 1 ex_scored ex_others = Some ?scores"
    using zero [of ex_node2] zero [of "ex_node2\<lparr>nodeName := ''worker4''\<rparr>"]
    by (simp add: ex_others_def ex_node2_def status_ok_def)
  have norm: "NormalizeScore ?p 1 ?scores ex_scored = (Return ok_status, ?scores)"
    using normalize_of_hook_scores [OF ex_scored_mem, of ?scores ?p] by (simp add: new_Plugin_def ex_handle4_def)
  let ?fits = "\<lambda>(_ :: unit system) n. n \<in> set ex_others"
  have left: "filter (\<lambda>n. n \<in> set ex_others) ex_nodes = ex_others"
    by (simp add: ex_others_def ex_nodes_def ex_node1_def ex_node2_def)
  have "cycle_ends ex_packages ex_cycle ?p (ex_scheduler ?fits) (wlNodes ?wl) ex_met 1 ex_scored (Some ex_node2)"
    by (rule Chooses [OF pre _ _ _ acc _ score _ vals norm])
      (simp_all add: left ex_scheduler_def ex_workload4_def, simp_all add: ex_others_def ex_nodes_def ex_node2_def)
  from modeless_cycle_contradicts_itself [OF ex_free_surroundings ex_cycle_contract _ ex_met_enforced _ _ _ _ _ this]
  show ?thesis
    by (simp add: ex_free_mode ex_target4 ex_names4 ex_scheduler_def left schedulable_def api_constants)
      (simp add: ex_met_def ex_state_def node_of_def preference_def ex_pod_def ex_others_def)
qed

end
