(* ===== verification/Scheme_Registration.thy ===== *)
theory Scheme_Registration
  imports Api_Types
begin

section \<open>Registering the API types\<close>

text \<open>
  \<open>apis/v1alpha1/zz_generated.register.go\<close>, \<open>versioned/scheme/register.go\<close> and
  \<open>versioned/fake/register.go\<close>: the package variables and what the \<open>init\<close> functions do to
  them when the program starts. \<open>runtime.Scheme\<close>, \<open>runtime.SchemeBuilder\<close>'s methods and
  \<open>utilruntime.Must\<close> are apimachinery's and parameters; a scheme is a value of a type left
  open. A method value such as \<open>localSchemeBuilder.AddToScheme\<close> is bound to the address of
  the variable, so it works on what the variable holds when it is called.
\<close>

subsection \<open>What apimachinery provides\<close>

text \<open>The types that are registered, by a pointer to an empty object of each.\<close>

datatype api_type = TypePlacementPolicy | TypePlacementPolicyList

type_synonym 's scheme_func = "'s \<Rightarrow> goerror option \<times> 's"
type_synonym 's SchemeBuilder = "'s scheme_func list"

record 's runtime_package =
  NewScheme :: 's
  AddKnownTypes :: "'s \<Rightarrow> GroupVersion \<Rightarrow> api_type list \<Rightarrow> 's"
  AddToGroupVersion :: "'s \<Rightarrow> GroupVersion \<Rightarrow> 's"
  Builder_Register :: "'s SchemeBuilder \<Rightarrow> 's scheme_func list \<Rightarrow> 's SchemeBuilder"
  Builder_AddToScheme :: "'s SchemeBuilder \<Rightarrow> 's scheme_func"
  Must :: "goerror option \<Rightarrow> unit go"

subsection \<open>Package v1alpha1\<close>

definition addKnownTypes :: "'s runtime_package \<Rightarrow> 's scheme_func" where
  "addKnownTypes rt scheme =
     (let scheme = AddKnownTypes rt scheme SchemeGroupVersion [TypePlacementPolicy, TypePlacementPolicyList];
          scheme = AddToGroupVersion rt scheme SchemeGroupVersion
      in (None, scheme))"

record 's v1alpha1_vars =
  SchemeBuilderVar :: "'s SchemeBuilder"

text \<open>\<open>localSchemeBuilder\<close> is the address of \<open>SchemeBuilder\<close>; \<open>Install\<close> is another name.\<close>

definition v1alpha1_declared :: "'s v1alpha1_vars" where
  "v1alpha1_declared = \<lparr>SchemeBuilderVar = []\<rparr>"

definition v1alpha1_AddToScheme :: "'s runtime_package \<Rightarrow> 's v1alpha1_vars \<Rightarrow> 's scheme_func" where
  "v1alpha1_AddToScheme rt v = Builder_AddToScheme rt (SchemeBuilderVar v)"

definition v1alpha1_Install :: "'s runtime_package \<Rightarrow> 's v1alpha1_vars \<Rightarrow> 's scheme_func" where
  "v1alpha1_Install rt v = Builder_AddToScheme rt (SchemeBuilderVar v)"

definition v1alpha1_init :: "'s runtime_package \<Rightarrow> 's v1alpha1_vars \<Rightarrow> 's v1alpha1_vars" where
  "v1alpha1_init rt v =
     v\<lparr>SchemeBuilderVar := Builder_Register rt (SchemeBuilderVar v) [addKnownTypes rt]\<rparr>"

subsection \<open>Packages scheme and fake\<close>

text \<open>
  The two packages have the same variables and the same \<open>init\<close>; the codecs, which only keep
  the scheme's address, are left out. A package is initialised after those it imports.
\<close>

record 's clientset_vars =
  SchemeVar :: 's
  localSchemeBuilder :: "'s SchemeBuilder"

definition scheme_declared :: "'s runtime_package \<Rightarrow> 's v1alpha1_vars \<Rightarrow> 's clientset_vars" where
  "scheme_declared rt api = \<lparr>SchemeVar = NewScheme rt, localSchemeBuilder = [v1alpha1_AddToScheme rt api]\<rparr>"

definition scheme_AddToScheme :: "'s runtime_package \<Rightarrow> 's clientset_vars \<Rightarrow> 's scheme_func" where
  "scheme_AddToScheme rt v = Builder_AddToScheme rt (localSchemeBuilder v)"

definition scheme_init :: "'s runtime_package \<Rightarrow> 's clientset_vars \<Rightarrow> unit go \<times> 's clientset_vars" where
  "scheme_init rt v =
     (let v = v\<lparr>SchemeVar := AddToGroupVersion rt (SchemeVar v) \<lparr>gvGroup = '''', gvVersion = ''v1''\<rparr>\<rparr>
      in case scheme_AddToScheme rt v (SchemeVar v) of (err, s) \<Rightarrow> (Must rt err, v\<lparr>SchemeVar := s\<rparr>))"

definition fake_declared :: "'s runtime_package \<Rightarrow> 's v1alpha1_vars \<Rightarrow> 's clientset_vars" where
  "fake_declared rt api = \<lparr>SchemeVar = NewScheme rt, localSchemeBuilder = [v1alpha1_AddToScheme rt api]\<rparr>"

definition fake_AddToScheme :: "'s runtime_package \<Rightarrow> 's clientset_vars \<Rightarrow> 's scheme_func" where
  "fake_AddToScheme rt v = Builder_AddToScheme rt (localSchemeBuilder v)"

definition fake_init :: "'s runtime_package \<Rightarrow> 's clientset_vars \<Rightarrow> unit go \<times> 's clientset_vars" where
  "fake_init rt v =
     (let v = v\<lparr>SchemeVar := AddToGroupVersion rt (SchemeVar v) \<lparr>gvGroup = '''', gvVersion = ''v1''\<rparr>\<rparr>
      in case fake_AddToScheme rt v (SchemeVar v) of (err, s) \<Rightarrow> (Must rt err, v\<lparr>SchemeVar := s\<rparr>))"

subsection \<open>What the program starts with\<close>

text \<open>
  \<open>recognizes\<close> tells what a scheme knows. What apimachinery documents: a new scheme is
  empty; \<open>AddKnownTypes\<close> registers the given types under the given version and forgets none;
  \<open>metav1.AddToGroupVersion\<close> registers metadata types only; a builder keeps its functions in
  order and applies them until one fails; \<open>Must\<close> panics on an error only.
\<close>

definition runtime_contract ::
    "'s runtime_package \<Rightarrow> ('s \<Rightarrow> GroupVersion \<Rightarrow> api_type \<Rightarrow> bool) \<Rightarrow> bool" where
  "runtime_contract rt recognizes \<longleftrightarrow>
     (\<forall>gv t. \<not> recognizes (NewScheme rt) gv t) \<and>
     (\<forall>s gv ts gv' t. recognizes (AddKnownTypes rt s gv ts) gv' t \<longleftrightarrow>
        recognizes s gv' t \<or> gv' = gv \<and> t \<in> set ts) \<and>
     (\<forall>s gv gv' t. recognizes (AddToGroupVersion rt s gv) gv' t \<longleftrightarrow> recognizes s gv' t) \<and>
     (\<forall>b fs. Builder_Register rt b fs = b @ fs) \<and>
     (\<forall>s. Builder_AddToScheme rt [] s = (None, s)) \<and>
     (\<forall>f fs s. Builder_AddToScheme rt (f # fs) s =
        (case f s of (Some e, s') \<Rightarrow> (Some e, s') | (None, s') \<Rightarrow> Builder_AddToScheme rt fs s')) \<and>
     Must rt None = Return () \<and> (\<forall>e. \<exists>p. Must rt (Some e) = Panic p)"

text \<open>The program's start: \<open>v1alpha1\<close> first, then the package that imports it.\<close>

definition scheme_started :: "'s runtime_package \<Rightarrow> unit go \<times> 's clientset_vars" where
  "scheme_started rt = scheme_init rt (scheme_declared rt (v1alpha1_init rt v1alpha1_declared))"

definition fake_started :: "'s runtime_package \<Rightarrow> unit go \<times> 's clientset_vars" where
  "fake_started rt = fake_init rt (fake_declared rt (v1alpha1_init rt v1alpha1_declared))"

lemma fake_started_eq: "fake_started rt = scheme_started rt"
  by (simp add: fake_started_def scheme_started_def fake_init_def scheme_init_def fake_declared_def
      scheme_declared_def fake_AddToScheme_def scheme_AddToScheme_def)

lemma runtime_laws:
  assumes "runtime_contract rt recognizes"
  shows "Builder_Register rt b fs = b @ fs" "Builder_AddToScheme rt [] s = (None, s)"
    "Builder_AddToScheme rt (f # fs) s =
       (case f s of (Some e, s') \<Rightarrow> (Some e, s') | (None, s') \<Rightarrow> Builder_AddToScheme rt fs s')"
    "Must rt None = Return ()" "\<not> recognizes (NewScheme rt) gv t"
    "recognizes (AddKnownTypes rt s gv ts) gv' t \<longleftrightarrow> recognizes s gv' t \<or> gv' = gv \<and> t \<in> set ts"
    "recognizes (AddToGroupVersion rt s gv) gv' t \<longleftrightarrow> recognizes s gv' t"
  using assms by (simp_all add: runtime_contract_def)

lemma all_api_types: "t = TypePlacementPolicy \<or> t = TypePlacementPolicyList"
  by (cases t) simp_all

lemmas start_defs =
  scheme_started_def scheme_init_def scheme_declared_def scheme_AddToScheme_def v1alpha1_init_def
  v1alpha1_declared_def v1alpha1_AddToScheme_def v1alpha1_Install_def addKnownTypes_def Let_def

lemma started_knows:
  assumes "runtime_contract rt recognizes"
  shows "\<exists>v. scheme_started rt = (Return (), v) \<and>
    (\<forall>gv t. recognizes (SchemeVar v) gv t \<longleftrightarrow> gv = SchemeGroupVersion)"
  using all_api_types by (simp add: start_defs runtime_laws [OF assms])

text \<open>A caller may add the types to a scheme of its own, by any of the names.\<close>

lemma AddToScheme_adds:
  assumes "runtime_contract rt recognizes"
  shows "\<exists>s'. scheme_AddToScheme rt (scheme_declared rt (v1alpha1_init rt v1alpha1_declared)) s = (None, s') \<and>
    v1alpha1_Install rt (v1alpha1_init rt v1alpha1_declared) s = (None, s') \<and>
    (\<forall>gv t. recognizes s' gv t \<longleftrightarrow> recognizes s gv t \<or> gv = SchemeGroupVersion)"
  using all_api_types by (simp add: start_defs runtime_laws [OF assms])

end
