(* ===== verification/Fake_Client.thy ===== *)
theory Fake_Client
  imports Rest_Client Scheme_Registration
begin

section \<open>The fake clientset\<close>

text \<open>
  \<open>versioned/fake/clientset_generated.go\<close> and \<open>versioned/typed/apis/v1alpha1/fake\<close>: a clientset
  for tests that answers from memory. \<open>testing.Fake\<close> (a chain of reactors that is asked for
  an answer to an action) and the object tracker are client-go's and parameters. The
  clientset owns one \<open>Fake\<close> and one tracker; what points to its \<open>Fake\<close> is \<open>OwnFake\<close>, and every
  call takes the clientset's state and returns the one it leaves.
\<close>

subsection \<open>Actions and objects\<close>

text \<open>A non-nil \<open>runtime.Object\<close>, and the zero values the methods pass as defaults.\<close>

datatype runtime_object =
  PolicyObject PlacementPolicy
| PolicyListObject PlacementPolicyList
| OtherObject string

definition zero_PlacementPolicy :: PlacementPolicy where
  "zero_PlacementPolicy = \<lparr>ppName = '''', ppNamespace = '''', ppLabels = [],
     Spec = \<lparr>Weight = 0, EnforcementModeOf = '''', PodSelector = None, NodeSelector = None, PolicyOf = None\<rparr>\<rparr>"

definition zero_PlacementPolicyList :: PlacementPolicyList where
  "zero_PlacementPolicyList = \<lparr>ListResourceVersion = '''', Items = []\<rparr>"

record GroupVersionKind =
  gvkGroup :: string
  gvkVersion :: string
  gvkKind :: string

definition placementpoliciesResource :: GroupVersionResource where
  "placementpoliciesResource = \<lparr>gvrGroup = ''placement-policy.scheduling.x-k8s.io'',
     gvrVersion = ''v1alpha1'', gvrResource = ''placementpolicies''\<rparr>"

definition placementpoliciesKind :: GroupVersionKind where
  "placementpoliciesKind = \<lparr>gvkGroup = ''placement-policy.scheduling.x-k8s.io'',
     gvkVersion = ''v1alpha1'', gvkKind = ''PlacementPolicy''\<rparr>"

text \<open>An action is the call of the constructor in \<open>testing\<close> that makes it.\<close>

datatype action =
  NewGetAction GroupVersionResource string string
| NewListAction GroupVersionResource GroupVersionKind string ListOptions
| NewWatchAction GroupVersionResource string ListOptions
| NewCreateAction GroupVersionResource string runtime_object
| NewUpdateAction GroupVersionResource string runtime_object
| NewUpdateSubresourceAction GroupVersionResource string string runtime_object
| NewDeleteAction GroupVersionResource string string
| NewDeleteCollectionAction GroupVersionResource string ListOptions
| NewPatchSubresourceAction GroupVersionResource string string string string "string list"

primrec GetResource :: "action \<Rightarrow> GroupVersionResource" where
  "GetResource (NewGetAction gvr ns name) = gvr"
| "GetResource (NewListAction gvr kind ns opts) = gvr"
| "GetResource (NewWatchAction gvr ns opts) = gvr"
| "GetResource (NewCreateAction gvr ns ob) = gvr"
| "GetResource (NewUpdateAction gvr ns ob) = gvr"
| "GetResource (NewUpdateSubresourceAction gvr sub ns ob) = gvr"
| "GetResource (NewDeleteAction gvr ns name) = gvr"
| "GetResource (NewDeleteCollectionAction gvr ns opts) = gvr"
| "GetResource (NewPatchSubresourceAction gvr ns name pt data subs) = gvr"

primrec GetNamespace :: "action \<Rightarrow> string" where
  "GetNamespace (NewGetAction gvr ns name) = ns"
| "GetNamespace (NewListAction gvr kind ns opts) = ns"
| "GetNamespace (NewWatchAction gvr ns opts) = ns"
| "GetNamespace (NewCreateAction gvr ns ob) = ns"
| "GetNamespace (NewUpdateAction gvr ns ob) = ns"
| "GetNamespace (NewUpdateSubresourceAction gvr sub ns ob) = ns"
| "GetNamespace (NewDeleteAction gvr ns name) = ns"
| "GetNamespace (NewDeleteCollectionAction gvr ns opts) = ns"
| "GetNamespace (NewPatchSubresourceAction gvr ns name pt data subs) = ns"

subsection \<open>Package testing\<close>

text \<open>
  A reactor says whether it handled the action, and what it returns. \<open>ExtractLabel\<close> is the
  first result of \<open>ExtractFromListOptions\<close>.
\<close>

type_synonym 't reaction = "action \<Rightarrow> 't \<Rightarrow> (bool \<times> runtime_object option \<times> goerror option) \<times> 't"
type_synonym 't watch_reaction = "action \<Rightarrow> 't \<Rightarrow> (bool \<times> handle option \<times> goerror option) \<times> 't"

record ('f, 't, 's, 'sel) testing_package =
  zero_Fake :: 'f
  NewObjectTracker :: "'s \<Rightarrow> 't"
  Tracker_Add :: "runtime_object \<Rightarrow> 't \<Rightarrow> goerror option \<times> 't"
  Tracker_Watch :: "GroupVersionResource \<Rightarrow> string \<Rightarrow> 't \<Rightarrow> (handle option \<times> goerror option) \<times> 't"
  ObjectReaction :: "'t reaction"
  AddReactor :: "'f \<Rightarrow> string \<Rightarrow> string \<Rightarrow> 't reaction \<Rightarrow> 'f"
  AddWatchReactor :: "'f \<Rightarrow> string \<Rightarrow> 't watch_reaction \<Rightarrow> 'f"
  Invokes :: "action \<Rightarrow> runtime_object \<Rightarrow> 'f \<Rightarrow> 't \<Rightarrow> (runtime_object option \<times> goerror option) \<times> 'f \<times> 't"
  InvokesWatch :: "action \<Rightarrow> 'f \<Rightarrow> 't \<Rightarrow> (handle option \<times> goerror option) \<times> 'f \<times> 't"
  ExtractLabel :: "ListOptions \<Rightarrow> 'sel option"
  Everything :: 'sel
  Matches :: "'sel \<Rightarrow> strmap \<Rightarrow> bool"

subsection \<open>The clientset\<close>

datatype fake_ref = OwnFake

record FakeDiscovery =
  fdFake :: fake_ref

record ('f, 't) fake_Clientset =
  fcFake :: 'f
  fcDiscovery :: FakeDiscovery
  fcTracker :: 't

text \<open>The loop that adds the given objects to the tracker.\<close>

primrec add_objects ::
    "('f, 't, 's, 'sel) testing_package \<Rightarrow> runtime_object list \<Rightarrow> 't \<Rightarrow> 't go" where
  "add_objects tp [] tr = Return tr"
| "add_objects tp (ob # obs) tr =
     (case Tracker_Add tp ob tr of (err, tr') \<Rightarrow>
      case err of Some e \<Rightarrow> Panic (PanicWith ''err'') | None \<Rightarrow> add_objects tp obs tr')"

definition watch_reactor :: "('f, 't, 's, 'sel) testing_package \<Rightarrow> 't watch_reaction" where
  "watch_reactor tp action tr =
     (let gvr = GetResource action; ns = GetNamespace action in
      case Tracker_Watch tp gvr ns tr of ((watch, err), tr') \<Rightarrow>
      case err of Some e \<Rightarrow> ((False, None, Some e), tr') | None \<Rightarrow> ((True, watch, None), tr'))"

definition NewSimpleClientset ::
    "('f, 't, 's, 'sel) testing_package \<Rightarrow> 's clientset_vars \<Rightarrow> runtime_object list \<Rightarrow> ('f, 't) fake_Clientset go" where
  "NewSimpleClientset tp vars objects =
     go_bind (add_objects tp objects (NewObjectTracker tp (SchemeVar vars))) (\<lambda>tr.
       let cs = \<lparr>fcFake = zero_Fake tp, fcDiscovery = \<lparr>fdFake = OwnFake\<rparr>, fcTracker = tr\<rparr>;
           cs = cs\<lparr>fcFake := AddReactor tp (fcFake cs) ''*'' ''*'' (ObjectReaction tp)\<rparr>;
           cs = cs\<lparr>fcFake := AddWatchReactor tp (fcFake cs) ''*'' (watch_reactor tp)\<rparr>
       in Return cs)"

definition fake_Discovery :: "('f, 't) fake_Clientset \<Rightarrow> FakeDiscovery" where
  "fake_Discovery c = fcDiscovery c"

definition fake_Tracker :: "('f, 't) fake_Clientset \<Rightarrow> 't" where
  "fake_Tracker c = fcTracker c"

record FakePlacementpolicyV1alpha1 =
  fpcFake :: fake_ref

record FakePlacementPolicies =
  fppFake :: FakePlacementpolicyV1alpha1
  fppNs :: string

definition fake_PlacementpolicyV1alpha1 :: "('f, 't) fake_Clientset \<Rightarrow> FakePlacementpolicyV1alpha1" where
  "fake_PlacementpolicyV1alpha1 c = \<lparr>fpcFake = OwnFake\<rparr>"

definition fake_PlacementPolicies :: "FakePlacementpolicyV1alpha1 \<Rightarrow> string \<Rightarrow> FakePlacementPolicies" where
  "fake_PlacementPolicies c namespace = \<lparr>fppFake = c, fppNs = namespace\<rparr>"

text \<open>\<open>RESTClient\<close> returns a nil pointer in an interface: there is no REST client behind it.\<close>

definition fake_RESTClient :: "FakePlacementpolicyV1alpha1 \<Rightarrow> 'w RESTClient option" where
  "fake_RESTClient c = None"

subsection \<open>The methods\<close>

text \<open>\<open>c.Fake.Invokes\<close> through the pointer: the clientset's own \<open>Fake\<close> is asked and changed.\<close>

definition invoke ::
    "('f, 't, 's, 'sel) testing_package \<Rightarrow> FakePlacementPolicies \<Rightarrow> action \<Rightarrow> runtime_object
      \<Rightarrow> ('f, 't) fake_Clientset \<Rightarrow> (runtime_object option \<times> goerror option) \<times> ('f, 't) fake_Clientset" where
  "invoke tp c action dflt cs =
     (case fpcFake (fppFake c) of OwnFake \<Rightarrow>
        (case Invokes tp action dflt (fcFake cs) (fcTracker cs) of
           (res, f, t) \<Rightarrow> (res, cs\<lparr>fcFake := f, fcTracker := t\<rparr>)))"

text \<open>The type assertions \<open>obj.(*PlacementPolicy)\<close> and \<open>obj.(*PlacementPolicyList)\<close>.\<close>

primrec assert_policy :: "runtime_object \<Rightarrow> PlacementPolicy go" where
  "assert_policy (PolicyObject p) = Return p"
| "assert_policy (PolicyListObject l) = Panic TypeAssertion"
| "assert_policy (OtherObject t) = Panic TypeAssertion"

primrec assert_policy_list :: "runtime_object \<Rightarrow> PlacementPolicyList go" where
  "assert_policy_list (PolicyObject p) = Panic TypeAssertion"
| "assert_policy_list (PolicyListObject l) = Return l"
| "assert_policy_list (OtherObject t) = Panic TypeAssertion"

text \<open>The end the methods share: nil with the error, or the object as a policy with it.\<close>

definition policy_result ::
    "(runtime_object option \<times> goerror option) \<times> 'x \<Rightarrow> (PlacementPolicy option \<times> goerror option) go \<times> 'x" where
  "policy_result res =
     (case res of ((obj, err), cs) \<Rightarrow>
      case obj of
        None \<Rightarrow> (Return (None, err), cs)
      | Some ob \<Rightarrow> (go_bind (assert_policy ob) (\<lambda>p. Return (Some p, err)), cs))"

definition Fake_Get ::
    "('f, 't, 's, 'sel) testing_package \<Rightarrow> FakePlacementPolicies \<Rightarrow> string \<Rightarrow> handle
      \<Rightarrow> ('f, 't) fake_Clientset \<Rightarrow> (PlacementPolicy option \<times> goerror option) go \<times> ('f, 't) fake_Clientset" where
  "Fake_Get tp c name options cs =
     policy_result (invoke tp c (NewGetAction placementpoliciesResource (fppNs c) name)
       (PolicyObject zero_PlacementPolicy) cs)"

definition Fake_List ::
    "('f, 't, 's, 'sel) testing_package \<Rightarrow> FakePlacementPolicies \<Rightarrow> ListOptions \<Rightarrow> ('f, 't) fake_Clientset
      \<Rightarrow> (PlacementPolicyList option \<times> goerror option) go \<times> ('f, 't) fake_Clientset" where
  "Fake_List tp c opts cs =
     (case invoke tp c (NewListAction placementpoliciesResource placementpoliciesKind (fppNs c) opts)
        (PolicyListObject zero_PlacementPolicyList) cs of ((obj, err), cs') \<Rightarrow>
      case obj of
        None \<Rightarrow> (Return (None, err), cs')
      | Some ob \<Rightarrow>
          let label = (case ExtractLabel tp opts of None \<Rightarrow> Everything tp | Some l \<Rightarrow> l) in
          (go_bind (assert_policy_list ob) (\<lambda>l.
             let list = \<lparr>ListResourceVersion = ListResourceVersion l, Items = []\<rparr> in
             Return (Some (fold (\<lambda>item list. if Matches tp label (ppLabels item)
                 then list\<lparr>Items := Items list @ [item]\<rparr> else list) (Items l) list), err)), cs'))"

definition Fake_Watch ::
    "('f, 't, 's, 'sel) testing_package \<Rightarrow> FakePlacementPolicies \<Rightarrow> ListOptions \<Rightarrow> ('f, 't) fake_Clientset
      \<Rightarrow> (handle option \<times> goerror option) \<times> ('f, 't) fake_Clientset" where
  "Fake_Watch tp c opts cs =
     (case fpcFake (fppFake c) of OwnFake \<Rightarrow>
        (case InvokesWatch tp (NewWatchAction placementpoliciesResource (fppNs c) opts) (fcFake cs) (fcTracker cs) of
           (res, f, t) \<Rightarrow> (res, cs\<lparr>fcFake := f, fcTracker := t\<rparr>)))"

definition Fake_Create ::
    "('f, 't, 's, 'sel) testing_package \<Rightarrow> FakePlacementPolicies \<Rightarrow> PlacementPolicy \<Rightarrow> handle
      \<Rightarrow> ('f, 't) fake_Clientset \<Rightarrow> (PlacementPolicy option \<times> goerror option) go \<times> ('f, 't) fake_Clientset" where
  "Fake_Create tp c placementPolicy opts cs =
     policy_result (invoke tp c (NewCreateAction placementpoliciesResource (fppNs c) (PolicyObject placementPolicy))
       (PolicyObject zero_PlacementPolicy) cs)"

definition Fake_Update ::
    "('f, 't, 's, 'sel) testing_package \<Rightarrow> FakePlacementPolicies \<Rightarrow> PlacementPolicy \<Rightarrow> handle
      \<Rightarrow> ('f, 't) fake_Clientset \<Rightarrow> (PlacementPolicy option \<times> goerror option) go \<times> ('f, 't) fake_Clientset" where
  "Fake_Update tp c placementPolicy opts cs =
     policy_result (invoke tp c (NewUpdateAction placementpoliciesResource (fppNs c) (PolicyObject placementPolicy))
       (PolicyObject zero_PlacementPolicy) cs)"

definition Fake_UpdateStatus ::
    "('f, 't, 's, 'sel) testing_package \<Rightarrow> FakePlacementPolicies \<Rightarrow> PlacementPolicy \<Rightarrow> handle
      \<Rightarrow> ('f, 't) fake_Clientset \<Rightarrow> (PlacementPolicy option \<times> goerror option) go \<times> ('f, 't) fake_Clientset" where
  "Fake_UpdateStatus tp c placementPolicy opts cs =
     policy_result (invoke tp c (NewUpdateSubresourceAction placementpoliciesResource ''status'' (fppNs c)
       (PolicyObject placementPolicy))
       (PolicyObject zero_PlacementPolicy) cs)"

text \<open>The two deletions return the error only.\<close>

definition Fake_Delete ::
    "('f, 't, 's, 'sel) testing_package \<Rightarrow> FakePlacementPolicies \<Rightarrow> string \<Rightarrow> handle
      \<Rightarrow> ('f, 't) fake_Clientset \<Rightarrow> goerror option \<times> ('f, 't) fake_Clientset" where
  "Fake_Delete tp c name opts cs =
     (case invoke tp c (NewDeleteAction placementpoliciesResource (fppNs c) name)
        (PolicyObject zero_PlacementPolicy) cs of ((obj, err), cs') \<Rightarrow> (err, cs'))"

definition Fake_DeleteCollection ::
    "('f, 't, 's, 'sel) testing_package \<Rightarrow> FakePlacementPolicies \<Rightarrow> handle \<Rightarrow> ListOptions
      \<Rightarrow> ('f, 't) fake_Clientset \<Rightarrow> goerror option \<times> ('f, 't) fake_Clientset" where
  "Fake_DeleteCollection tp c opts listOpts cs =
     (let action = NewDeleteCollectionAction placementpoliciesResource (fppNs c) listOpts in
      case invoke tp c action (PolicyListObject zero_PlacementPolicyList) cs of ((obj, err), cs') \<Rightarrow> (err, cs'))"

definition Fake_Patch ::
    "('f, 't, 's, 'sel) testing_package \<Rightarrow> FakePlacementPolicies \<Rightarrow> string \<Rightarrow> string \<Rightarrow> string \<Rightarrow> handle \<Rightarrow> string list
      \<Rightarrow> ('f, 't) fake_Clientset \<Rightarrow> (PlacementPolicy option \<times> goerror option) go \<times> ('f, 't) fake_Clientset" where
  "Fake_Patch tp c name pt data opts subresources cs =
     policy_result (invoke tp c (NewPatchSubresourceAction placementpoliciesResource (fppNs c) name pt data subresources)
       (PolicyObject zero_PlacementPolicy) cs)"

subsection \<open>What the methods make of an answer\<close>

lemma policy_result_simps [simp]:
  "policy_result ((None, err), cs) = (Return (None, err), cs)"
  "policy_result ((Some (PolicyObject p), err), cs) = (Return (Some p, err), cs)"
  "policy_result ((Some (PolicyListObject l), err), cs) = (Panic TypeAssertion, cs)"
  "policy_result ((Some (OtherObject t), err), cs) = (Panic TypeAssertion, cs)"
  by (simp_all add: policy_result_def)

text \<open>A policy is expected, or nothing; a list is expected, or nothing.\<close>

definition policy_or_nil :: "runtime_object option \<Rightarrow> bool" where
  "policy_or_nil obj \<longleftrightarrow> (\<forall>ob. obj = Some ob \<longrightarrow> (\<exists>p. ob = PolicyObject p))"

definition list_or_nil :: "runtime_object option \<Rightarrow> bool" where
  "list_or_nil obj \<longleftrightarrow> (\<forall>ob. obj = Some ob \<longrightarrow> (\<exists>l. ob = PolicyListObject l))"

lemma policy_result_returns:
  "(\<exists>r. fst (policy_result res) = Return r) \<longleftrightarrow> policy_or_nil (fst (fst res))"
proof -
  obtain obj err cs where res: "res = ((obj, err), cs)" by (metis surj_pair)
  show ?thesis
  proof (cases obj)
    case (Some ob)
    then show ?thesis by (cases ob) (simp_all add: res policy_or_nil_def)
  qed (simp add: res policy_or_nil_def)
qed

lemma policy_result_panics:
  "fst (policy_result res) = Panic TypeAssertion \<longleftrightarrow> \<not> policy_or_nil (fst (fst res))"
proof -
  obtain obj err cs where res: "res = ((obj, err), cs)" by (metis surj_pair)
  show ?thesis
  proof (cases obj)
    case (Some ob)
    then show ?thesis by (cases ob) (simp_all add: res policy_or_nil_def)
  qed (simp add: res policy_or_nil_def)
qed

lemma invoke_fst: "fst (invoke tp c action dflt cs) = fst (Invokes tp action dflt (fcFake cs) (fcTracker cs))"
  by (simp add: invoke_def split: fake_ref.split prod.split)

lemma Fake_List_returns:
  assumes "\<And>action. list_or_nil (fst (fst (invoke tp c action (PolicyListObject zero_PlacementPolicyList) cs)))"
  shows "\<exists>r. fst (Fake_List tp c opts cs) = Return r"
proof -
  let ?a = "NewListAction placementpoliciesResource placementpoliciesKind (fppNs c) opts"
  obtain obj err cs' where i: "invoke tp c ?a (PolicyListObject zero_PlacementPolicyList) cs = ((obj, err), cs')"
    by (metis surj_pair)
  with assms [of ?a] have "obj = None \<or> (\<exists>l. obj = Some (PolicyListObject l))"
    by (cases obj) (auto simp: list_or_nil_def)
  with i show ?thesis by (auto simp: Fake_List_def Let_def)
qed

text \<open>The loop of \<open>List\<close> keeps what the selector matches.\<close>

lemma list_loop:
  "fold (\<lambda>item list. if P item then list\<lparr>Items := Items list @ [item]\<rparr> else list) xs l =
   l\<lparr>Items := Items l @ filter P xs\<rparr>"
  by (induction xs arbitrary: l) simp_all

lemma Fake_List_eq:
  assumes "invoke tp c (NewListAction placementpoliciesResource placementpoliciesKind (fppNs c) opts)
      (PolicyListObject zero_PlacementPolicyList) cs = ((Some (PolicyListObject l), err), cs')"
  shows "Fake_List tp c opts cs =
    (Return (Some \<lparr>ListResourceVersion = ListResourceVersion l,
       Items = filter (\<lambda>p. Matches tp (case ExtractLabel tp opts of None \<Rightarrow> Everything tp | Some s \<Rightarrow> s) (ppLabels p))
         (Items l)\<rparr>, err), cs')"
  by (simp add: Fake_List_def assms list_loop Let_def)

subsection \<open>A clientset made by NewSimpleClientset\<close>

text \<open>
  What client-go documents of \<open>testing.Fake\<close>: reactors are asked in the order they were
  added; the first that handles the action gives the answer; an action no reactor handles
  gets the default object and no error. \<open>chain\<close> tells which reactors a \<open>Fake\<close> has.
\<close>

definition fake_contract ::
    "('f, 't, 's, 'sel) testing_package \<Rightarrow> ('f \<Rightarrow> (string \<times> string \<times> 't reaction) list) \<Rightarrow> bool" where
  "fake_contract tp chain \<longleftrightarrow>
     chain (zero_Fake tp) = [] \<and>
     (\<forall>f v r react. chain (AddReactor tp f v r react) = chain f @ [(v, r, react)]) \<and>
     (\<forall>f r react. chain (AddWatchReactor tp f r react) = chain f) \<and>
     (\<forall>f react action dflt t. chain f = [(''*'', ''*'', react)] \<longrightarrow>
        (\<exists>f'. chain f' = chain f \<and>
           Invokes tp action dflt f t =
             (case react action t of ((handled, obj, err), t') \<Rightarrow>
                (if handled then (obj, err) else (Some dflt, None), f', t'))))"

definition simple :: "('f, 't, 's, 'sel) testing_package \<Rightarrow> ('f \<Rightarrow> (string \<times> string \<times> 't reaction) list)
    \<Rightarrow> ('f, 't) fake_Clientset \<Rightarrow> bool" where
  "simple tp chain cs \<longleftrightarrow> fake_contract tp chain \<and> chain (fcFake cs) = [(''*'', ''*'', ObjectReaction tp)]"

lemma invoke_simple:
  assumes "simple tp chain cs" "ObjectReaction tp action (fcTracker cs) = ((True, obj, err), t)"
  shows "\<exists>cs'. invoke tp c action dflt cs = ((obj, err), cs') \<and> simple tp chain cs' \<and> fcTracker cs' = t"
proof -
  from assms(1) have c: "fake_contract tp chain" "chain (fcFake cs) = [(''*'', ''*'', ObjectReaction tp)]"
    by (simp_all add: simple_def)
  from c(1) have laws: "\<And>f react action dflt t. chain f = [(''*'', ''*'', react)] \<Longrightarrow>
      (\<exists>f'. chain f' = chain f \<and> Invokes tp action dflt f t =
         (case react action t of ((handled, obj, err), t') \<Rightarrow>
            (if handled then (obj, err) else (Some dflt, None), f', t')))"
    unfolding fake_contract_def by blast
  from laws [OF c(2), of action dflt "fcTracker cs"] obtain f' where
    f': "chain f' = [(''*'', ''*'', ObjectReaction tp)]"
    "Invokes tp action dflt (fcFake cs) (fcTracker cs) = ((obj, err), f', t)"
    unfolding assms(2) c(2) by auto
  have "invoke tp c action dflt cs = ((obj, err), cs\<lparr>fcFake := f', fcTracker := t\<rparr>)"
    by (cases "fpcFake (fppFake c)") (simp add: invoke_def f'(2))
  moreover have "simple tp chain (cs\<lparr>fcFake := f', fcTracker := t\<rparr>)"
    using c(1) f'(1) by (simp add: simple_def)
  ultimately show ?thesis by auto
qed

lemma NewSimpleClientset_simple:
  assumes "fake_contract tp chain" "NewSimpleClientset tp vars objects = Return cs"
  shows "simple tp chain cs \<and> add_objects tp objects (NewObjectTracker tp (SchemeVar vars)) = Return (fcTracker cs)"
proof -
  have "chain (fcFake cs) = [(''*'', ''*'', ObjectReaction tp)]"
    using assms by (auto simp: NewSimpleClientset_def go_bind_Return_iff fake_contract_def Let_def)
  with assms show ?thesis by (auto simp: NewSimpleClientset_def go_bind_Return_iff simple_def Let_def)
qed

end
