(* ===== verification/Policy_Interface.thy ===== *)
theory Policy_Interface
  imports Fake_Client
begin

section \<open>The interfaces of the clients\<close>

text \<open>
  \<open>PlacementPolicyInterface\<close>, \<open>PlacementPoliciesGetter\<close> and \<open>PlacementpolicyV1alpha1Interface\<close>
  of \<open>versioned/typed/apis/v1alpha1\<close> and \<open>Interface\<close> of \<open>versioned/clientset.go\<close>, as records of
  methods, and the values of these interfaces: the typed client and the fake one. A method
  returns what the Go method returns with the state it leaves.
\<close>

subsection \<open>The interfaces\<close>

type_synonym 'x policy_outcome = "(PlacementPolicy option \<times> goerror option) go \<times> 'x"

record 'x PlacementPolicyInterface =
  pi_Create :: "PlacementPolicy \<Rightarrow> handle \<Rightarrow> 'x \<Rightarrow> 'x policy_outcome"
  pi_Update :: "PlacementPolicy \<Rightarrow> handle \<Rightarrow> 'x \<Rightarrow> 'x policy_outcome"
  pi_UpdateStatus :: "PlacementPolicy \<Rightarrow> handle \<Rightarrow> 'x \<Rightarrow> 'x policy_outcome"
  pi_Delete :: "string \<Rightarrow> handle \<Rightarrow> 'x \<Rightarrow> goerror option go \<times> 'x"
  pi_DeleteCollection :: "handle \<Rightarrow> ListOptions \<Rightarrow> 'x \<Rightarrow> goerror option go \<times> 'x"
  pi_Get :: "string \<Rightarrow> handle \<Rightarrow> 'x \<Rightarrow> 'x policy_outcome"
  pi_List :: "ListOptions \<Rightarrow> 'x \<Rightarrow> (PlacementPolicyList option \<times> goerror option) go \<times> 'x"
  pi_Watch :: "ListOptions \<Rightarrow> 'x \<Rightarrow> (handle option \<times> goerror option) go \<times> 'x"
  pi_Patch :: "string \<Rightarrow> string \<Rightarrow> string \<Rightarrow> handle \<Rightarrow> string list \<Rightarrow> 'x \<Rightarrow> 'x policy_outcome"

record 'x PlacementPoliciesGetter =
  pg_PlacementPolicies :: "string \<Rightarrow> 'x PlacementPolicyInterface"

text \<open>The embedded getter comes first; \<open>RESTClient\<close> is a method of no arguments.\<close>

record ('x, 'w) PlacementpolicyV1alpha1Interface = "'x PlacementPoliciesGetter" +
  vi_RESTClient :: "'w RESTClient option"

record ('x, 'w, 'd) versioned_Interface =
  ci_Discovery :: 'd
  ci_PlacementpolicyV1alpha1 :: "('x, 'w) PlacementpolicyV1alpha1Interface"

subsection \<open>The typed client\<close>

text \<open>A call that sends a request returns the pointer to its result; a panic sends nothing.\<close>

definition pointer_result :: "(('a \<times> goerror option) \<times> 'w) go \<Rightarrow> 'w \<Rightarrow> ('a option \<times> goerror option) go \<times> 'w" where
  "pointer_result res w =
     (case res of Return ((p, err), w') \<Rightarrow> (Return (Some p, err), w') | Panic e \<Rightarrow> (Panic e, w))"

definition plain_result :: "('a \<times> 'w) go \<Rightarrow> 'w \<Rightarrow> 'a go \<times> 'w" where
  "plain_result res w = (case res of Return (x, w') \<Rightarrow> (Return x, w') | Panic e \<Rightarrow> (Panic e, w))"

definition placementPolicies_Interface :: "'w placementPolicies \<Rightarrow> 'w PlacementPolicyInterface" where
  "placementPolicies_Interface c =
     \<lparr>pi_Create = (\<lambda>pp opts w. pointer_result (Client_Create c pp opts w) w),
      pi_Update = (\<lambda>pp opts w. pointer_result (Client_Update c pp opts w) w),
      pi_UpdateStatus = (\<lambda>pp opts w. pointer_result (Client_UpdateStatus c pp opts w) w),
      pi_Delete = (\<lambda>name opts w. plain_result (Client_Delete c name opts w) w),
      pi_DeleteCollection = (\<lambda>opts listOpts w. plain_result (Client_DeleteCollection c opts listOpts w) w),
      pi_Get = (\<lambda>name opts w. pointer_result (Client_Get c name opts w) w),
      pi_List = (\<lambda>opts w. pointer_result (Client_List c opts w) w),
      pi_Watch = (\<lambda>opts w. plain_result (Client_Watch c opts w) w),
      pi_Patch = (\<lambda>name pt data opts subs w. pointer_result (Client_Patch c name pt data opts subs w) w)\<rparr>"

definition Typed_Interface ::
    "'w PlacementpolicyV1alpha1Client option \<Rightarrow> ('w, 'w) PlacementpolicyV1alpha1Interface" where
  "Typed_Interface c =
     \<lparr>pg_PlacementPolicies = (\<lambda>namespace. placementPolicies_Interface (Typed_PlacementPolicies c namespace)),
      vi_RESTClient = Typed_RESTClient c\<rparr>"

definition Clientset_Interface :: "'w Clientset \<Rightarrow> ('w, 'w, handle option) versioned_Interface" where
  "Clientset_Interface cs =
     \<lparr>ci_Discovery = Clientset_Discovery (Some cs),
      ci_PlacementpolicyV1alpha1 = Typed_Interface (Clientset_PlacementpolicyV1alpha1 cs)\<rparr>"

subsection \<open>The fake client\<close>

text \<open>The fake methods that return an error or a watch have no type assertion to panic.\<close>

definition no_panic :: "'a \<times> 'x \<Rightarrow> 'a go \<times> 'x" where
  "no_panic res = (case res of (x, s) \<Rightarrow> (Return x, s))"

definition FakePlacementPolicies_Interface ::
    "('f, 't, 's, 'sel) testing_package \<Rightarrow> FakePlacementPolicies \<Rightarrow> ('f, 't) fake_Clientset PlacementPolicyInterface" where
  "FakePlacementPolicies_Interface tp c =
     \<lparr>pi_Create = Fake_Create tp c,
      pi_Update = Fake_Update tp c,
      pi_UpdateStatus = Fake_UpdateStatus tp c,
      pi_Delete = (\<lambda>name opts cs. no_panic (Fake_Delete tp c name opts cs)),
      pi_DeleteCollection = (\<lambda>opts listOpts cs. no_panic (Fake_DeleteCollection tp c opts listOpts cs)),
      pi_Get = Fake_Get tp c,
      pi_List = Fake_List tp c,
      pi_Watch = (\<lambda>opts cs. no_panic (Fake_Watch tp c opts cs)),
      pi_Patch = Fake_Patch tp c\<rparr>"

definition FakeV1alpha1_Interface ::
    "('f, 't, 's, 'sel) testing_package \<Rightarrow> FakePlacementpolicyV1alpha1
      \<Rightarrow> (('f, 't) fake_Clientset, 'w) PlacementpolicyV1alpha1Interface" where
  "FakeV1alpha1_Interface tp c =
     \<lparr>pg_PlacementPolicies = (\<lambda>namespace. FakePlacementPolicies_Interface tp (fake_PlacementPolicies c namespace)),
      vi_RESTClient = fake_RESTClient c\<rparr>"

definition fake_Clientset_Interface ::
    "('f, 't, 's, 'sel) testing_package \<Rightarrow> ('f, 't) fake_Clientset
      \<Rightarrow> (('f, 't) fake_Clientset, 'w, FakeDiscovery) versioned_Interface" where
  "fake_Clientset_Interface tp cs =
     \<lparr>ci_Discovery = fake_Discovery cs,
      ci_PlacementpolicyV1alpha1 = FakeV1alpha1_Interface tp (fake_PlacementpolicyV1alpha1 cs)\<rparr>"

subsection \<open>What goes through the interfaces\<close>

lemma pointer_result_simps [simp]:
  "pointer_result (Return ((p, err), w')) w = (Return (Some p, err), w')"
  "pointer_result (Panic e) w = (Panic e, w)"
  "plain_result (Return (x, w')) w = (Return x, w')" "plain_result (Panic e) w = (Panic e, w)"
  "no_panic (x, s) = (Return x, s)"
  by (simp_all add: pointer_result_def plain_result_def no_panic_def)

text \<open>The policies of a fake clientset do not depend on which of its states is asked for them.\<close>

lemma fake_getter:
  "ci_PlacementpolicyV1alpha1 (fake_Clientset_Interface tp cs) =
   ci_PlacementpolicyV1alpha1 (fake_Clientset_Interface tp cs')"
  by (simp add: fake_Clientset_Interface_def fake_PlacementpolicyV1alpha1_def)

end
