(* ===== verification/Policy_Store.thy ===== *)
theory Policy_Store
  imports Policy_Interface
begin

section \<open>Clients as a store of policies\<close>

text \<open>
  The interface \<open>PlacementPolicyInterface\<close> has two implementations: the typed REST client
  and the fake one (\<open>Policy_Interface\<close>). What a caller relies on is the same: a map from namespace and name to
  policies. The locale \<open>policy_store\<close> states this contract against that map; both clients
  are interpreted, each under what its surroundings document (the API server, or client-go's
  object tracker).
\<close>

subsection \<open>The map\<close>

type_synonym policy_map = "string \<times> string \<Rightarrow> PlacementPolicy option"

datatype store_op =
  OpGet string string
| OpCreate string PlacementPolicy
| OpUpdate string PlacementPolicy
| OpDelete string string
| OpList string ListOptions

text \<open>A list is the set of its items: the order is left to the server.\<close>

datatype store_result = Found PlacementPolicy | Deleted | Listed "PlacementPolicy set" | Failed goerror

definition not_found :: "string \<Rightarrow> goerror" where
  "not_found name = ApiNotFound (Resource ''placementpolicies'') name"

text \<open>
  What the server decides: the error for a name in use, and which policies the options of a
  list ask for.
\<close>

record api_rules =
  in_use :: "string \<Rightarrow> goerror"
  asked_for :: "ListOptions \<Rightarrow> PlacementPolicy \<Rightarrow> bool"

primrec spec_op :: "api_rules \<Rightarrow> store_op \<Rightarrow> policy_map \<Rightarrow> store_result \<times> policy_map" where
  "spec_op api (OpGet ns name) m =
     (case m (ns, name) of None \<Rightarrow> (Failed (not_found name), m) | Some p \<Rightarrow> (Found p, m))"
| "spec_op api (OpCreate ns p) m =
     (case m (ns, ppName p) of None \<Rightarrow> (Found p, m((ns, ppName p) \<mapsto> p)) | Some q \<Rightarrow> (Failed (in_use api (ppName p)), m))"
| "spec_op api (OpUpdate ns p) m =
     (case m (ns, ppName p) of None \<Rightarrow> (Failed (not_found (ppName p)), m) | Some q \<Rightarrow> (Found p, m((ns, ppName p) \<mapsto> p)))"
| "spec_op api (OpDelete ns name) m =
     (case m (ns, name) of None \<Rightarrow> (Failed (not_found name), m) | Some p \<Rightarrow> (Deleted, m((ns, name) := None)))"
| "spec_op api (OpList ns opts) m = (Listed {p. (\<exists>name. m (ns, name) = Some p) \<and> asked_for api opts p}, m)"

primrec spec_run :: "api_rules \<Rightarrow> store_op list \<Rightarrow> policy_map \<Rightarrow> store_result list \<times> policy_map" where
  "spec_run api [] m = ([], m)"
| "spec_run api (op # ops) m =
     (case spec_op api op m of (r, m') \<Rightarrow> case spec_run api ops m' of (rs, m'') \<Rightarrow> (r # rs, m''))"

text \<open>
  A policy is sent to the namespace it names. Names and namespaces are not empty: client-go
  refuses such requests before they are sent, and the fake client does not. Lists are of one
  namespace; field selectors, which the fake client drops, are left out.
\<close>

primrec op_ok :: "store_op \<Rightarrow> bool" where
  "op_ok (OpGet ns name) = (ns \<noteq> '''' \<and> name \<noteq> '''')"
| "op_ok (OpCreate ns p) = (ppNamespace p = ns \<and> ns \<noteq> '''' \<and> ppName p \<noteq> '''')"
| "op_ok (OpUpdate ns p) = (ppNamespace p = ns \<and> ns \<noteq> '''' \<and> ppName p \<noteq> '''')"
| "op_ok (OpDelete ns name) = (ns \<noteq> '''' \<and> name \<noteq> '''')"
| "op_ok (OpList ns opts) = (ns \<noteq> '''' \<and> loFieldSelector opts = '''')"

subsection \<open>The interface\<close>

record 'x store_client =
  scGet :: "string \<Rightarrow> string \<Rightarrow> 'x \<Rightarrow> store_result go \<times> 'x"
  scCreate :: "string \<Rightarrow> PlacementPolicy \<Rightarrow> 'x \<Rightarrow> store_result go \<times> 'x"
  scUpdate :: "string \<Rightarrow> PlacementPolicy \<Rightarrow> 'x \<Rightarrow> store_result go \<times> 'x"
  scDelete :: "string \<Rightarrow> string \<Rightarrow> 'x \<Rightarrow> store_result go \<times> 'x"
  scList :: "string \<Rightarrow> ListOptions \<Rightarrow> 'x \<Rightarrow> store_result go \<times> 'x"

primrec exec_op :: "'x store_client \<Rightarrow> store_op \<Rightarrow> 'x \<Rightarrow> store_result go \<times> 'x" where
  "exec_op cl (OpGet ns name) s = scGet cl ns name s"
| "exec_op cl (OpCreate ns p) s = scCreate cl ns p s"
| "exec_op cl (OpUpdate ns p) s = scUpdate cl ns p s"
| "exec_op cl (OpDelete ns name) s = scDelete cl ns name s"
| "exec_op cl (OpList ns opts) s = scList cl ns opts s"

primrec exec_run :: "'x store_client \<Rightarrow> store_op list \<Rightarrow> 'x \<Rightarrow> store_result go list \<times> 'x" where
  "exec_run cl [] s = ([], s)"
| "exec_run cl (op # ops) s =
     (case exec_op cl op s of (r, s') \<Rightarrow> case exec_run cl ops s' of (rs, s'') \<Rightarrow> (r # rs, s''))"

text \<open>
  What a caller reads off a policy and an error: the error if there is one; a caller that
  finds neither dereferences nil.
\<close>

definition observe ::
    "(PlacementPolicy option \<times> goerror option) go \<times> 'x \<Rightarrow> store_result go \<times> 'x" where
  "observe res =
     (case res of (out, s) \<Rightarrow>
       (go_bind out (\<lambda>(p, err). case err of Some e \<Rightarrow> Return (Failed e) | None \<Rightarrow> go_bind (deref p) (\<lambda>p. Return (Found p))), s))"

definition observe_error :: "goerror option go \<times> 'x \<Rightarrow> store_result go \<times> 'x" where
  "observe_error res =
     (case res of (out, s) \<Rightarrow>
       (go_bind out (\<lambda>err. Return (case err of None \<Rightarrow> Deleted | Some e \<Rightarrow> Failed e)), s))"

definition observe_list ::
    "(PlacementPolicyList option \<times> goerror option) go \<times> 'x \<Rightarrow> store_result go \<times> 'x" where
  "observe_list res =
     (case res of (out, s) \<Rightarrow>
       (go_bind out (\<lambda>(l, err). case err of Some e \<Rightarrow> Return (Failed e)
          | None \<Rightarrow> go_bind (deref l) (\<lambda>l. Return (Listed (set (Items l))))), s))"

text \<open>The store behind the interface of each namespace.\<close>

definition store_of :: "(string \<Rightarrow> 'x PlacementPolicyInterface) \<Rightarrow> handle \<Rightarrow> 'x store_client" where
  "store_of pol opts =
     \<lparr>scGet = (\<lambda>ns name s. observe (pi_Get (pol ns) name opts s)),
      scCreate = (\<lambda>ns p s. observe (pi_Create (pol ns) p opts s)),
      scUpdate = (\<lambda>ns p s. observe (pi_Update (pol ns) p opts s)),
      scDelete = (\<lambda>ns name s. observe_error (pi_Delete (pol ns) name opts s)),
      scList = (\<lambda>ns lopts s. observe_list (pi_List (pol ns) lopts s))\<rparr>"

subsection \<open>The contract\<close>

locale policy_store =
  fixes cl :: "'x store_client"
    and lookup :: "'x \<Rightarrow> policy_map"
    and api :: api_rules
    and invar :: "'x \<Rightarrow> bool"
  assumes step: "invar s \<Longrightarrow> op_ok op \<Longrightarrow>
    \<exists>s'. exec_op cl op s = (Return (fst (spec_op api op (lookup s))), s') \<and>
      lookup s' = snd (spec_op api op (lookup s)) \<and> invar s'"
begin

lemma run:
  "invar s \<Longrightarrow> list_all op_ok ops \<Longrightarrow>
   \<exists>s'. exec_run cl ops s = (map Return (fst (spec_run api ops (lookup s))), s') \<and>
     lookup s' = snd (spec_run api ops (lookup s)) \<and> invar s'"
proof (induction ops arbitrary: s)
  case Nil
  then show ?case by simp
next
  case (Cons op ops)
  from step [OF Cons.prems(1), of op] Cons.prems(2) obtain s1 where
    s1: "exec_op cl op s = (Return (fst (spec_op api op (lookup s))), s1)"
    "lookup s1 = snd (spec_op api op (lookup s))" "invar s1" by auto
  from Cons.IH [OF s1(3)] Cons.prems(2) obtain s2 where
    "exec_run cl ops s1 = (map Return (fst (spec_run api ops (lookup s1))), s2)"
    "lookup s2 = snd (spec_run api ops (lookup s1))" "invar s2" by auto
  with s1 show ?case by (auto split: prod.splits)
qed

end

text \<open>Two stores with the same policies answer alike.\<close>

lemma stores_agree:
  assumes "policy_store cl lookup api invar" "policy_store cl' lookup' api invar'"
    and "invar s" "invar' s'" "lookup s = lookup' s'" "list_all op_ok ops"
  shows "fst (exec_run cl ops s) = fst (exec_run cl' ops s')"
  using policy_store.run [OF assms(1,3,6)] policy_store.run [OF assms(2,4,6)] assms(5) by auto

lemma observe_simps [simp]:
  "observe (Return (p, Some e), s) = (Return (Failed e), s)"
  "observe (Return (Some p', None), s) = (Return (Found p'), s)"
  by (simp_all add: observe_def)

lemma observe_error_simps [simp]:
  "observe_error (Return None, s) = (Return Deleted, s)" "observe_error (Return (Some e), s) = (Return (Failed e), s)"
  by (simp_all add: observe_error_def)

lemma observe_list_simps [simp]:
  "observe_list (Return (Some l, None), s) = (Return (Listed (set (Items l))), s)"
  by (simp add: observe_list_def)

subsection \<open>The fake clientset\<close>

definition fake_store ::
    "('f, 't, 's, 'sel) testing_package \<Rightarrow> handle \<Rightarrow> ('f, 't) fake_Clientset store_client" where
  "fake_store tp opts =
     store_of (\<lambda>ns. FakePlacementPolicies_Interface tp (fake_PlacementPolicies \<lparr>fpcFake = OwnFake\<rparr> ns)) opts"

text \<open>
  What client-go documents of the reaction over an object tracker, for actions on policies:
  the tracker holds objects by resource, namespace and name; creating fails on a name in
  use, reading, updating and deleting fail on a name not there; a created or updated object
  is returned as it is then found. \<open>held\<close> tells what a tracker holds.
\<close>

definition tracker_contract ::
    "('f, 't, 's, 'sel) testing_package \<Rightarrow> ('t \<Rightarrow> policy_map) \<Rightarrow> api_rules \<Rightarrow> bool" where
  "tracker_contract tp held api \<longleftrightarrow>
     (\<forall>ns name t. \<exists>t'. held t' = held t \<and>
        ObjectReaction tp (NewGetAction placementpoliciesResource ns name) t =
          ((True, case held t (ns, name) of None \<Rightarrow> (None, Some (not_found name)) | Some p \<Rightarrow> (Some (PolicyObject p), None)), t')) \<and>
     (\<forall>p t. \<exists>t'. ObjectReaction tp (NewCreateAction placementpoliciesResource (ppNamespace p) (PolicyObject p)) t =
        (case held t (ppNamespace p, ppName p) of
           None \<Rightarrow> ((True, Some (PolicyObject p), None), t') | Some q \<Rightarrow> ((True, None, Some (in_use api (ppName p))), t')) \<and>
        held t' = (if held t (ppNamespace p, ppName p) = None
          then (held t)((ppNamespace p, ppName p) \<mapsto> p) else held t)) \<and>
     (\<forall>p t. \<exists>t'. ObjectReaction tp (NewUpdateAction placementpoliciesResource (ppNamespace p) (PolicyObject p)) t =
        (case held t (ppNamespace p, ppName p) of
           None \<Rightarrow> ((True, None, Some (not_found (ppName p))), t') | Some q \<Rightarrow> ((True, Some (PolicyObject p), None), t')) \<and>
        held t' = (if held t (ppNamespace p, ppName p) = None then held t
          else (held t)((ppNamespace p, ppName p) \<mapsto> p))) \<and>
     (\<forall>ns name t. \<exists>t'. ObjectReaction tp (NewDeleteAction placementpoliciesResource ns name) t =
        ((True, None, if held t (ns, name) = None then Some (not_found name) else None), t') \<and>
        held t' = (held t)((ns, name) := None)) \<and>
     (\<forall>ns opts t. ns \<noteq> '''' \<longrightarrow> (\<exists>l t'. held t' = held t \<and>
        set (Items l) = {p. \<exists>name. held t (ns, name) = Some p} \<and>
        ObjectReaction tp (NewListAction placementpoliciesResource placementpoliciesKind ns opts) t =
          ((True, Some (PolicyListObject l), None), t'))) \<and>
     (\<forall>opts p. loFieldSelector opts = '''' \<longrightarrow>
        Matches tp (case ExtractLabel tp opts of None \<Rightarrow> Everything tp | Some l \<Rightarrow> l) (ppLabels p) = asked_for api opts p)"

lemma tracker_laws:
  assumes "tracker_contract tp held api"
  shows "\<exists>t'. held t' = held t \<and>
      ObjectReaction tp (NewGetAction placementpoliciesResource ns name) t =
        ((True, case held t (ns, name) of None \<Rightarrow> (None, Some (not_found name)) | Some p \<Rightarrow> (Some (PolicyObject p), None)), t')"
    and "\<exists>t'. ObjectReaction tp (NewCreateAction placementpoliciesResource (ppNamespace p) (PolicyObject p)) t =
        (case held t (ppNamespace p, ppName p) of
           None \<Rightarrow> ((True, Some (PolicyObject p), None), t') | Some q \<Rightarrow> ((True, None, Some (in_use api (ppName p))), t')) \<and>
        held t' = (if held t (ppNamespace p, ppName p) = None
          then (held t)((ppNamespace p, ppName p) \<mapsto> p) else held t)"
    and "\<exists>t'. ObjectReaction tp (NewUpdateAction placementpoliciesResource (ppNamespace p) (PolicyObject p)) t =
        (case held t (ppNamespace p, ppName p) of
           None \<Rightarrow> ((True, None, Some (not_found (ppName p))), t') | Some q \<Rightarrow> ((True, Some (PolicyObject p), None), t')) \<and>
        held t' = (if held t (ppNamespace p, ppName p) = None then held t
          else (held t)((ppNamespace p, ppName p) \<mapsto> p))"
    and "\<exists>t'. ObjectReaction tp (NewDeleteAction placementpoliciesResource ns name) t =
        ((True, None, if held t (ns, name) = None then Some (not_found name) else None), t') \<and>
        held t' = (held t)((ns, name) := None)"
    and "ns \<noteq> '''' \<Longrightarrow> \<exists>l t'. held t' = held t \<and>
        set (Items l) = {p. \<exists>name. held t (ns, name) = Some p} \<and>
        ObjectReaction tp (NewListAction placementpoliciesResource placementpoliciesKind ns lopts) t =
          ((True, Some (PolicyListObject l), None), t')"
    and "loFieldSelector lopts = '''' \<Longrightarrow>
        Matches tp (case ExtractLabel tp lopts of None \<Rightarrow> Everything tp | Some l \<Rightarrow> l) (ppLabels p) = asked_for api lopts p"
  by (rule assms [unfolded tracker_contract_def, THEN conjunct1, rule_format],
      rule assms [unfolded tracker_contract_def, THEN conjunct2, THEN conjunct1, rule_format],
      rule assms [unfolded tracker_contract_def, THEN conjunct2, THEN conjunct2, THEN conjunct1, rule_format],
      rule assms [unfolded tracker_contract_def, THEN conjunct2, THEN conjunct2, THEN conjunct2, THEN conjunct1, rule_format],
      rule assms [unfolded tracker_contract_def, THEN conjunct2, THEN conjunct2, THEN conjunct2, THEN conjunct2, THEN conjunct1, rule_format], assumption,
      rule assms [unfolded tracker_contract_def, THEN conjunct2, THEN conjunct2, THEN conjunct2, THEN conjunct2, THEN conjunct2, rule_format], assumption)

definition fake_invar ::
    "('f, 't, 's, 'sel) testing_package \<Rightarrow> ('f \<Rightarrow> (string \<times> string \<times> 't reaction) list)
      \<Rightarrow> ('t \<Rightarrow> policy_map) \<Rightarrow> api_rules \<Rightarrow> ('f, 't) fake_Clientset \<Rightarrow> bool" where
  "fake_invar tp chain held api cs \<longleftrightarrow> simple tp chain cs \<and> tracker_contract tp held api"

lemma fake_ns [simp]: "fppNs (fake_PlacementPolicies c ns) = ns"
  by (simp add: fake_PlacementPolicies_def)

lemmas fake_store_defs =
  fake_store_def store_of_def FakePlacementPolicies_Interface_def
  Fake_Get_def Fake_Create_def Fake_Update_def Fake_Delete_def Let_def

lemma fake_get:
  assumes "simple tp chain cs" "tracker_contract tp held api"
  shows "\<exists>cs'. exec_op (fake_store tp opts) (OpGet ns name) cs =
      (Return (fst (spec_op api (OpGet ns name) (held (fcTracker cs)))), cs') \<and>
    held (fcTracker cs') = held (fcTracker cs) \<and> simple tp chain cs'"
proof -
  from tracker_laws(1) [OF assms(2), where ns = ns and name = name and t = "fcTracker cs"] obtain t where t: "held t = held (fcTracker cs)"
    "ObjectReaction tp (NewGetAction placementpoliciesResource ns name) (fcTracker cs) =
      ((True, case held (fcTracker cs) (ns, name) of None \<Rightarrow> (None, Some (not_found name))
         | Some p \<Rightarrow> (Some (PolicyObject p), None)), t)"
    by (elim exE conjE) (rule that)
  show ?thesis
    using t invoke_simple [OF assms(1), of "NewGetAction placementpoliciesResource ns name" _ _ t
        "fake_PlacementPolicies \<lparr>fpcFake = OwnFake\<rparr> ns" "PolicyObject zero_PlacementPolicy"]
    by (cases "held (fcTracker cs) (ns, name)") (auto simp: fake_store_defs)
qed

lemma fake_create:
  assumes "simple tp chain cs" "tracker_contract tp held api"
  shows "\<exists>cs'. exec_op (fake_store tp opts) (OpCreate (ppNamespace p) p) cs =
      (Return (fst (spec_op api (OpCreate (ppNamespace p) p) (held (fcTracker cs)))), cs') \<and>
    held (fcTracker cs') = snd (spec_op api (OpCreate (ppNamespace p) p) (held (fcTracker cs))) \<and> simple tp chain cs'"
proof -
  let ?act = "NewCreateAction placementpoliciesResource (ppNamespace p) (PolicyObject p)"
  from tracker_laws(2) [OF assms(2), where p = p and t = "fcTracker cs"] obtain t where t: "ObjectReaction tp ?act (fcTracker cs) =
      (case held (fcTracker cs) (ppNamespace p, ppName p) of
         None \<Rightarrow> ((True, Some (PolicyObject p), None), t) | Some q \<Rightarrow> ((True, None, Some (in_use api (ppName p))), t))"
    "held t = (if held (fcTracker cs) (ppNamespace p, ppName p) = None
       then (held (fcTracker cs))((ppNamespace p, ppName p) \<mapsto> p) else held (fcTracker cs))"
    by (elim exE conjE) (rule that)
  show ?thesis
    using t invoke_simple [OF assms(1), of ?act _ _ t
        "fake_PlacementPolicies \<lparr>fpcFake = OwnFake\<rparr> (ppNamespace p)" "PolicyObject zero_PlacementPolicy"]
    by (cases "held (fcTracker cs) (ppNamespace p, ppName p)") (auto simp: fake_store_defs)
qed

lemma fake_update:
  assumes "simple tp chain cs" "tracker_contract tp held api"
  shows "\<exists>cs'. exec_op (fake_store tp opts) (OpUpdate (ppNamespace p) p) cs =
      (Return (fst (spec_op api (OpUpdate (ppNamespace p) p) (held (fcTracker cs)))), cs') \<and>
    held (fcTracker cs') = snd (spec_op api (OpUpdate (ppNamespace p) p) (held (fcTracker cs))) \<and> simple tp chain cs'"
proof -
  let ?act = "NewUpdateAction placementpoliciesResource (ppNamespace p) (PolicyObject p)"
  from tracker_laws(3) [OF assms(2), where p = p and t = "fcTracker cs"] obtain t where t: "ObjectReaction tp ?act (fcTracker cs) =
      (case held (fcTracker cs) (ppNamespace p, ppName p) of
         None \<Rightarrow> ((True, None, Some (not_found (ppName p))), t) | Some q \<Rightarrow> ((True, Some (PolicyObject p), None), t))"
    "held t = (if held (fcTracker cs) (ppNamespace p, ppName p) = None then held (fcTracker cs)
       else (held (fcTracker cs))((ppNamespace p, ppName p) \<mapsto> p))"
    by (elim exE conjE) (rule that)
  show ?thesis
    using t invoke_simple [OF assms(1), of ?act _ _ t
        "fake_PlacementPolicies \<lparr>fpcFake = OwnFake\<rparr> (ppNamespace p)" "PolicyObject zero_PlacementPolicy"]
    by (cases "held (fcTracker cs) (ppNamespace p, ppName p)") (auto simp: fake_store_defs)
qed

lemma fake_delete:
  assumes "simple tp chain cs" "tracker_contract tp held api"
  shows "\<exists>cs'. exec_op (fake_store tp opts) (OpDelete ns name) cs =
      (Return (fst (spec_op api (OpDelete ns name) (held (fcTracker cs)))), cs') \<and>
    held (fcTracker cs') = snd (spec_op api (OpDelete ns name) (held (fcTracker cs))) \<and> simple tp chain cs'"
proof -
  let ?act = "NewDeleteAction placementpoliciesResource ns name"
  from tracker_laws(4) [OF assms(2), where ns = ns and name = name and t = "fcTracker cs"] obtain t where t: "ObjectReaction tp ?act (fcTracker cs) =
      ((True, None, if held (fcTracker cs) (ns, name) = None then Some (not_found name) else None), t)"
    "held t = (held (fcTracker cs))((ns, name) := None)"
    by (elim exE conjE) (rule that)
  show ?thesis
    using t invoke_simple [OF assms(1), of ?act _ _ t
        "fake_PlacementPolicies \<lparr>fpcFake = OwnFake\<rparr> ns" "PolicyObject zero_PlacementPolicy"]
    by (cases "held (fcTracker cs) (ns, name)") (auto simp: fake_store_defs fun_upd_idem)
qed

text \<open>The list of a namespace: the tracker's policies there whose labels the selector of the options matches.\<close>

lemma fake_list_selects:
  assumes "simple tp chain cs" "tracker_contract tp held api" "ns \<noteq> ''''"
  shows "\<exists>l cs'. Fake_List tp (fake_PlacementPolicies \<lparr>fpcFake = OwnFake\<rparr> ns) opts cs = (Return (Some l, None), cs') \<and>
    held (fcTracker cs') = held (fcTracker cs) \<and> simple tp chain cs' \<and>
    set (Items l) = {p. (\<exists>name. held (fcTracker cs) (ns, name) = Some p) \<and>
      Matches tp (case ExtractLabel tp opts of None \<Rightarrow> Everything tp | Some s \<Rightarrow> s) (ppLabels p)}"
proof -
  let ?act = "NewListAction placementpoliciesResource placementpoliciesKind ns opts"
  let ?c = "fake_PlacementPolicies \<lparr>fpcFake = OwnFake\<rparr> ns"
  from tracker_laws(5) [OF assms(2,3), where t = "fcTracker cs" and lopts = opts] obtain l t where l: "held t = held (fcTracker cs)"
    "set (Items l) = {p. \<exists>name. held (fcTracker cs) (ns, name) = Some p}"
    "ObjectReaction tp ?act (fcTracker cs) = ((True, Some (PolicyListObject l), None), t)"
    by (elim exE conjE) (rule that)
  obtain cs' where cs': "invoke tp ?c ?act (PolicyListObject zero_PlacementPolicyList) cs =
      ((Some (PolicyListObject l), None), cs')" "simple tp chain cs'" "fcTracker cs' = t"
    using invoke_simple [OF assms(1) l(3)] by blast
  show ?thesis
    using l(1,2) cs'(2,3) Fake_List_eq [of tp ?c opts cs l None cs'] cs'(1) by (auto simp: conj_commute)
qed

lemma fake_list:
  assumes "simple tp chain cs" "tracker_contract tp held api" "ns \<noteq> ''''" "loFieldSelector lopts = ''''"
  shows "\<exists>cs'. exec_op (fake_store tp opts) (OpList ns lopts) cs =
      (Return (fst (spec_op api (OpList ns lopts) (held (fcTracker cs)))), cs') \<and>
    held (fcTracker cs') = held (fcTracker cs) \<and> simple tp chain cs'"
  using fake_list_selects [OF assms(1-3), of lopts] tracker_laws(6) [OF assms(2,4)]
  by (auto simp: fake_store_def store_of_def FakePlacementPolicies_Interface_def)

interpretation fake: policy_store "fake_store tp opts" "\<lambda>cs. held (fcTracker cs)" api "fake_invar tp chain held api"
  for tp :: "('f, 't, 's, 'sel) testing_package" and opts held api chain
proof unfold_locales
  fix cs :: "('f, 't) fake_Clientset" and op
  assume inv: "fake_invar tp chain held api cs" and ok: "op_ok op"
  then have s: "simple tp chain cs" "tracker_contract tp held api" by (simp_all add: fake_invar_def)
  show "\<exists>cs'. exec_op (fake_store tp opts) op cs = (Return (fst (spec_op api op (held (fcTracker cs)))), cs') \<and>
      held (fcTracker cs') = snd (spec_op api op (held (fcTracker cs))) \<and> fake_invar tp chain held api cs'"
  proof (cases op)
    case (OpGet ns name)
    with fake_get [OF s, of opts ns name] s(2) show ?thesis
      by (auto simp: fake_invar_def split: option.splits)
  next
    case (OpCreate ns p)
    with ok fake_create [OF s, of opts p] s(2) show ?thesis by (auto simp: fake_invar_def)
  next
    case (OpUpdate ns p)
    with ok fake_update [OF s, of opts p] s(2) show ?thesis by (auto simp: fake_invar_def)
  next
    case (OpDelete ns name)
    with fake_delete [OF s, of opts ns name] s(2) show ?thesis by (auto simp: fake_invar_def)
  next
    case (OpList ns lopts)
    with ok fake_list [OF s, of ns lopts opts] s(2) show ?thesis by (auto simp: fake_invar_def)
  qed
qed

subsection \<open>The REST client\<close>

definition rest_store :: "'w RESTClient \<Rightarrow> handle \<Rightarrow> 'w store_client" where
  "rest_store rc opts = store_of (pg_PlacementPolicies (Typed_Interface (Some (Typed_New rc)))) opts"

text \<open>What a request asks for: each builder call sets its part.\<close>

record address =
  adNamespace :: "string option"
  adResource :: "string option"
  adName :: "string option"
  adSubresource :: "string list"
  adBody :: "body option"

primrec apply_call :: "request_call \<Rightarrow> address \<Rightarrow> address" where
  "apply_call (CallNamespace ns) a = a\<lparr>adNamespace := Some ns\<rparr>"
| "apply_call (CallResource r) a = a\<lparr>adResource := Some r\<rparr>"
| "apply_call (CallName n) a = a\<lparr>adName := Some n\<rparr>"
| "apply_call (CallSubResource rs) a = a\<lparr>adSubresource := rs\<rparr>"
| "apply_call (CallVersionedParams ps) a = a"
| "apply_call (CallTimeout d) a = a"
| "apply_call (CallBody b) a = a\<lparr>adBody := Some b\<rparr>"

definition addressed :: "rest_request \<Rightarrow> address" where
  "addressed rq = fold apply_call (rqCalls rq)
     \<lparr>adNamespace = None, adResource = None, adName = None, adSubresource = [], adBody = None\<rparr>"

text \<open>A request of the verb for a policy of the namespace.\<close>

definition asks :: "rest_request \<Rightarrow> verb \<Rightarrow> string \<Rightarrow> string option \<Rightarrow> body option \<Rightarrow> bool" where
  "asks rq v ns name b \<longleftrightarrow> rqVerb rq = v \<and> addressed rq = \<lparr>adNamespace = Some ns,
     adResource = Some ''placementpolicies'', adName = name, adSubresource = [], adBody = b\<rparr>"

text \<open>A request for the policies of the namespace that the options ask for.\<close>

definition params_of :: "rest_request \<Rightarrow> versioned_options list" where
  "params_of rq = List.map_filter (\<lambda>c. case c of CallVersionedParams ps \<Rightarrow> Some ps | _ \<Rightarrow> None) (rqCalls rq)"

definition asks_list :: "rest_request \<Rightarrow> string \<Rightarrow> ListOptions \<Rightarrow> bool" where
  "asks_list rq ns opts \<longleftrightarrow> asks rq VerbGet ns None None \<and> params_of rq = [ListParams opts]"

text \<open>
  What the API documents for a namespaced resource: GET, POST to the collection, PUT and
  DELETE on a name, GET of the collection, in a namespace and under a name that are not empty. \<open>stored\<close> tells what the server stores; between two requests of this
  client nothing else changes it.
\<close>

definition server_contract ::
    "'w RESTClient \<Rightarrow> ('w \<Rightarrow> policy_map) \<Rightarrow> api_rules \<Rightarrow> bool" where
  "server_contract rc stored api \<longleftrightarrow>
     (\<forall>rq ns name w. ns \<noteq> '''' \<longrightarrow> name \<noteq> '''' \<longrightarrow> asks rq VerbGet ns (Some name) None \<longrightarrow>
        (\<exists>p w'. Do_Into_policy rc rq w =
            ((p, if stored w (ns, name) = None then Some (not_found name) else None), w') \<and>
          (\<forall>q. stored w (ns, name) = Some q \<longrightarrow> p = q) \<and> stored w' = stored w)) \<and>
     (\<forall>rq p w. ppNamespace p \<noteq> '''' \<longrightarrow> ppName p \<noteq> '''' \<longrightarrow> asks rq VerbPost (ppNamespace p) None (Some (BodyPolicy p)) \<longrightarrow>
        (\<exists>r w'. Do_Into_policy rc rq w =
            ((r, if stored w (ppNamespace p, ppName p) = None then None else Some (in_use api (ppName p))), w') \<and>
          (stored w (ppNamespace p, ppName p) = None \<longrightarrow> r = p) \<and>
          stored w' = (if stored w (ppNamespace p, ppName p) = None
            then (stored w)((ppNamespace p, ppName p) \<mapsto> p) else stored w))) \<and>
     (\<forall>rq p w. ppNamespace p \<noteq> '''' \<longrightarrow> ppName p \<noteq> '''' \<longrightarrow> asks rq VerbPut (ppNamespace p) (Some (ppName p)) (Some (BodyPolicy p)) \<longrightarrow>
        (\<exists>r w'. Do_Into_policy rc rq w =
            ((r, if stored w (ppNamespace p, ppName p) = None then Some (not_found (ppName p)) else None), w') \<and>
          (stored w (ppNamespace p, ppName p) \<noteq> None \<longrightarrow> r = p) \<and>
          stored w' = (if stored w (ppNamespace p, ppName p) = None then stored w
            else (stored w)((ppNamespace p, ppName p) \<mapsto> p)))) \<and>
     (\<forall>rq ns name opts w. ns \<noteq> '''' \<longrightarrow> name \<noteq> '''' \<longrightarrow> asks rq VerbDelete ns (Some name) (Some (BodyOptions opts)) \<longrightarrow>
        (\<exists>w'. Do_Error rc rq w =
            (if stored w (ns, name) = None then Some (not_found name) else None, w') \<and>
          stored w' = (stored w)((ns, name) := None))) \<and>
     (\<forall>rq ns opts w. ns \<noteq> '''' \<longrightarrow> asks_list rq ns opts \<longrightarrow>
        (\<exists>l w'. Do_Into_list rc rq w = ((l, None), w') \<and>
          set (Items l) = {p. (\<exists>name. stored w (ns, name) = Some p) \<and> asked_for api opts p} \<and> stored w' = stored w))"

lemma server_laws:
  assumes "server_contract rc stored api"
  shows "ns \<noteq> '''' \<Longrightarrow> name \<noteq> '''' \<Longrightarrow> asks rq VerbGet ns (Some name) None \<Longrightarrow>
      \<exists>p w'. Do_Into_policy rc rq w =
          ((p, if stored w (ns, name) = None then Some (not_found name) else None), w') \<and>
        (\<forall>q. stored w (ns, name) = Some q \<longrightarrow> p = q) \<and> stored w' = stored w"
    and "ppNamespace pp \<noteq> '''' \<Longrightarrow> ppName pp \<noteq> '''' \<Longrightarrow> asks rq VerbPost (ppNamespace pp) None (Some (BodyPolicy pp)) \<Longrightarrow>
      \<exists>r w'. Do_Into_policy rc rq w =
          ((r, if stored w (ppNamespace pp, ppName pp) = None then None else Some (in_use api (ppName pp))), w') \<and>
        (stored w (ppNamespace pp, ppName pp) = None \<longrightarrow> r = pp) \<and>
        stored w' = (if stored w (ppNamespace pp, ppName pp) = None
          then (stored w)((ppNamespace pp, ppName pp) \<mapsto> pp) else stored w)"
    and "ppNamespace pp \<noteq> '''' \<Longrightarrow> ppName pp \<noteq> '''' \<Longrightarrow> asks rq VerbPut (ppNamespace pp) (Some (ppName pp)) (Some (BodyPolicy pp)) \<Longrightarrow>
      \<exists>r w'. Do_Into_policy rc rq w =
          ((r, if stored w (ppNamespace pp, ppName pp) = None then Some (not_found (ppName pp)) else None), w') \<and>
        (stored w (ppNamespace pp, ppName pp) \<noteq> None \<longrightarrow> r = pp) \<and>
        stored w' = (if stored w (ppNamespace pp, ppName pp) = None then stored w
          else (stored w)((ppNamespace pp, ppName pp) \<mapsto> pp))"
    and "ns \<noteq> '''' \<Longrightarrow> name \<noteq> '''' \<Longrightarrow> asks rq VerbDelete ns (Some name) (Some (BodyOptions opts)) \<Longrightarrow>
      \<exists>w'. Do_Error rc rq w =
          (if stored w (ns, name) = None then Some (not_found name) else None, w') \<and>
        stored w' = (stored w)((ns, name) := None)"
    and "ns \<noteq> '''' \<Longrightarrow> asks_list rq ns lopts \<Longrightarrow>
      \<exists>l w'. Do_Into_list rc rq w = ((l, None), w') \<and>
        set (Items l) = {p. (\<exists>name. stored w (ns, name) = Some p) \<and> asked_for api lopts p} \<and> stored w' = stored w"
  by (rule assms [unfolded server_contract_def, THEN conjunct1, rule_format], assumption, assumption, assumption,
      rule assms [unfolded server_contract_def, THEN conjunct2, THEN conjunct1, rule_format], assumption, assumption, assumption,
      rule assms [unfolded server_contract_def, THEN conjunct2, THEN conjunct2, THEN conjunct1, rule_format], assumption, assumption, assumption,
      rule assms [unfolded server_contract_def, THEN conjunct2, THEN conjunct2, THEN conjunct2, THEN conjunct1, rule_format], assumption, assumption, assumption,
      rule assms [unfolded server_contract_def, THEN conjunct2, THEN conjunct2, THEN conjunct2, THEN conjunct2, rule_format], assumption, assumption)

lemmas rest_store_defs =
  rest_store_def store_of_def Typed_Interface_def placementPolicies_Interface_def Typed_PlacementPolicies_def newPlacementPolicies_def Typed_RESTClient_def
  Typed_New_def send_def Let_def Client_Get_def Client_Create_def Client_Update_def Client_Delete_def Client_List_def

lemmas asks_defs = asks_def addressed_def

lemma rest_get:
  assumes "server_contract rc stored api" "ns \<noteq> ''''" "name \<noteq> ''''"
  shows "\<exists>w'. exec_op (rest_store rc opts) (OpGet ns name) w =
      (Return (fst (spec_op api (OpGet ns name) (stored w))), w') \<and> stored w' = stored w"
proof -
  let ?rq = "\<lparr>rqVerb = VerbGet, rqCalls = [CallNamespace ns, CallResource ''placementpolicies'', CallName name,
    CallVersionedParams (OtherParams opts)]\<rparr>"
  have "asks ?rq VerbGet ns (Some name) None" by (simp add: asks_defs)
  from server_laws(1) [OF assms this, of w] obtain p w' where "Do_Into_policy rc ?rq w =
      ((p, if stored w (ns, name) = None then Some (not_found name) else None), w')"
    "\<forall>q. stored w (ns, name) = Some q \<longrightarrow> p = q" "stored w' = stored w"
    by (elim exE conjE) (rule that)
  then show ?thesis by (cases "stored w (ns, name)") (simp_all add: rest_store_defs)
qed

lemma rest_create:
  assumes "server_contract rc stored api" "ppNamespace p \<noteq> ''''" "ppName p \<noteq> ''''"
  shows "\<exists>w'. exec_op (rest_store rc opts) (OpCreate (ppNamespace p) p) w =
      (Return (fst (spec_op api (OpCreate (ppNamespace p) p) (stored w))), w') \<and>
    stored w' = snd (spec_op api (OpCreate (ppNamespace p) p) (stored w))"
proof -
  let ?rq = "\<lparr>rqVerb = VerbPost, rqCalls = [CallNamespace (ppNamespace p), CallResource ''placementpolicies'',
    CallVersionedParams (OtherParams opts), CallBody (BodyPolicy p)]\<rparr>"
  have "asks ?rq VerbPost (ppNamespace p) None (Some (BodyPolicy p))" by (simp add: asks_defs)
  from server_laws(2) [OF assms this, of w] obtain r w' where "Do_Into_policy rc ?rq w =
      ((r, if stored w (ppNamespace p, ppName p) = None then None else Some (in_use api (ppName p))), w')"
    "stored w (ppNamespace p, ppName p) = None \<longrightarrow> r = p"
    "stored w' = (if stored w (ppNamespace p, ppName p) = None
            then (stored w)((ppNamespace p, ppName p) \<mapsto> p) else stored w)"
    by (elim exE conjE) (rule that)
  then show ?thesis by (cases "stored w (ppNamespace p, ppName p)") (simp_all add: rest_store_defs)
qed

lemma rest_update:
  assumes "server_contract rc stored api" "ppNamespace p \<noteq> ''''" "ppName p \<noteq> ''''"
  shows "\<exists>w'. exec_op (rest_store rc opts) (OpUpdate (ppNamespace p) p) w =
      (Return (fst (spec_op api (OpUpdate (ppNamespace p) p) (stored w))), w') \<and>
    stored w' = snd (spec_op api (OpUpdate (ppNamespace p) p) (stored w))"
proof -
  let ?rq = "\<lparr>rqVerb = VerbPut, rqCalls = [CallNamespace (ppNamespace p), CallResource ''placementpolicies'',
    CallName (ppName p), CallVersionedParams (OtherParams opts), CallBody (BodyPolicy p)]\<rparr>"
  have "asks ?rq VerbPut (ppNamespace p) (Some (ppName p)) (Some (BodyPolicy p))" by (simp add: asks_defs)
  from server_laws(3) [OF assms this, of w] obtain r w' where "Do_Into_policy rc ?rq w =
      ((r, if stored w (ppNamespace p, ppName p) = None then Some (not_found (ppName p)) else None), w')"
    "stored w (ppNamespace p, ppName p) \<noteq> None \<longrightarrow> r = p"
    "stored w' = (if stored w (ppNamespace p, ppName p) = None then stored w
            else (stored w)((ppNamespace p, ppName p) \<mapsto> p))"
    by (elim exE conjE) (rule that)
  then show ?thesis by (cases "stored w (ppNamespace p, ppName p)") (simp_all add: rest_store_defs)
qed

lemma rest_delete:
  assumes "server_contract rc stored api" "ns \<noteq> ''''" "name \<noteq> ''''"
  shows "\<exists>w'. exec_op (rest_store rc opts) (OpDelete ns name) w =
      (Return (fst (spec_op api (OpDelete ns name) (stored w))), w') \<and>
    stored w' = snd (spec_op api (OpDelete ns name) (stored w))"
proof -
  let ?rq = "\<lparr>rqVerb = VerbDelete, rqCalls = [CallNamespace ns, CallResource ''placementpolicies'', CallName name,
    CallBody (BodyOptions opts)]\<rparr>"
  have "asks ?rq VerbDelete ns (Some name) (Some (BodyOptions opts))" by (simp add: asks_defs)
  from server_laws(4) [OF assms this, of w] obtain w' where "Do_Error rc ?rq w =
      (if stored w (ns, name) = None then Some (not_found name) else None, w')"
    "stored w' = (stored w)((ns, name) := None)"
    by (elim exE conjE) (rule that)
  then show ?thesis by (cases "stored w (ns, name)") (simp_all add: rest_store_defs fun_upd_idem)
qed

lemma rest_list:
  assumes "server_contract rc stored api" "ns \<noteq> ''''"
  shows "\<exists>w'. exec_op (rest_store rc opts) (OpList ns lopts) w =
      (Return (fst (spec_op api (OpList ns lopts) (stored w))), w') \<and> stored w' = stored w"
proof -
  let ?rq = "\<lparr>rqVerb = VerbGet, rqCalls = [CallNamespace ns, CallResource ''placementpolicies'',
    CallVersionedParams (ListParams lopts), CallTimeout (timeout_of lopts)]\<rparr>"
  have "asks_list ?rq ns lopts" by (simp add: asks_defs asks_list_def params_of_def map_filter_simps)
  from server_laws(5) [OF assms this, of w] obtain l w' where "Do_Into_list rc ?rq w = ((l, None), w')"
    "set (Items l) = {p. (\<exists>name. stored w (ns, name) = Some p) \<and> asked_for api lopts p}" "stored w' = stored w"
    by (elim exE conjE) (rule that)
  then show ?thesis by (simp add: rest_store_defs)
qed

interpretation rest: policy_store "rest_store rc opts" stored api "\<lambda>w. server_contract rc stored api"
  for rc :: "'w RESTClient" and opts stored api
proof unfold_locales
  fix w :: 'w and op
  assume s: "server_contract rc stored api" and ok: "op_ok op"
  show "\<exists>w'. exec_op (rest_store rc opts) op w = (Return (fst (spec_op api op (stored w))), w') \<and>
      stored w' = snd (spec_op api op (stored w)) \<and> server_contract rc stored api"
  proof (cases op)
    case (OpGet ns name)
    with ok rest_get [OF s, of ns name opts w] s show ?thesis by (auto split: option.splits)
  next
    case (OpCreate ns p)
    with ok rest_create [OF s, of p opts w] s show ?thesis by auto
  next
    case (OpUpdate ns p)
    with ok rest_update [OF s, of p opts w] s show ?thesis by auto
  next
    case (OpDelete ns name)
    with ok rest_delete [OF s, of ns name opts w] s show ?thesis by auto
  next
    case (OpList ns lopts)
    with ok rest_list [OF s, of ns opts lopts w] s show ?thesis by auto
  qed
qed

subsection \<open>Objects given to NewSimpleClientset\<close>

text \<open>
  Adding to the tracker asks the scheme for the object's type: a type that is not registered
  is an error, a registered one is stored, unless the tracker holds an object of the same
  namespace and name already, which is an error too.
\<close>

definition adding_contract ::
    "('f, 't, 's, 'sel) testing_package \<Rightarrow> ('t \<Rightarrow> policy_map) \<Rightarrow> ('t \<Rightarrow> bool)
      \<Rightarrow> ('s \<Rightarrow> GroupVersion \<Rightarrow> api_type \<Rightarrow> bool) \<Rightarrow> bool" where
  "adding_contract tp held knows recognizes \<longleftrightarrow>
     (\<forall>s. (knows (NewObjectTracker tp s) \<longleftrightarrow> recognizes s SchemeGroupVersion TypePlacementPolicy) \<and>
        held (NewObjectTracker tp s) = Map.empty) \<and>
     (\<forall>p t. if knows t \<and> held t (ppNamespace p, ppName p) = None
        then \<exists>t'. Tracker_Add tp (PolicyObject p) t = (None, t') \<and> knows t' \<and>
          held t' = (held t)((ppNamespace p, ppName p) \<mapsto> p)
        else \<exists>e t'. Tracker_Add tp (PolicyObject p) t = (Some e, t'))"

lemma adding_laws:
  assumes "adding_contract tp held knows recognizes"
  shows "knows t \<Longrightarrow> held t (ppNamespace p, ppName p) = None \<Longrightarrow>
      \<exists>t'. Tracker_Add tp (PolicyObject p) t = (None, t') \<and> knows t' \<and>
        held t' = (held t)((ppNamespace p, ppName p) \<mapsto> p)"
    and "\<not> knows t \<or> held t (ppNamespace p, ppName p) \<noteq> None \<Longrightarrow>
      \<exists>e t'. Tracker_Add tp (PolicyObject p) t = (Some e, t')"
  using assms [unfolded adding_contract_def, THEN conjunct2, rule_format, of t p] by (auto split: if_splits)

abbreviation policy_key :: "PlacementPolicy \<Rightarrow> string \<times> string" where
  "policy_key p \<equiv> (ppNamespace p, ppName p)"

text \<open>Adding succeeds as long as every policy has a key of its own, and panics otherwise.\<close>

lemma add_objects_known:
  assumes "adding_contract tp held knows recognizes"
  shows "knows t \<Longrightarrow> distinct (map policy_key pps) \<Longrightarrow> \<forall>p \<in> set pps. held t (policy_key p) = None \<Longrightarrow>
    \<exists>t'. add_objects tp (map PolicyObject pps) t = Return t' \<and>
      held t' = held t ++ map_of (map (\<lambda>p. (policy_key p, p)) pps)"
proof (induction pps arbitrary: t)
  case (Cons p pps)
  from adding_laws(1) [OF assms Cons.prems(1), of p] Cons.prems(3) obtain t' where
    t': "Tracker_Add tp (PolicyObject p) t = (None, t')" "knows t'" "held t' = (held t)(policy_key p \<mapsto> p)" by auto
  have "\<forall>q \<in> set pps. held t' (policy_key q) = None"
    using Cons.prems(2,3) t'(3) by (auto simp: image_iff)
  from Cons.IH [OF t'(2) _ this] Cons.prems(2) obtain t'' where
    t'': "add_objects tp (map PolicyObject pps) t' = Return t''"
    "held t'' = held t' ++ map_of (map (\<lambda>p. (policy_key p, p)) pps)" by auto
  have "map_of (map (\<lambda>p. (policy_key p, p)) pps) (policy_key p) = None"
    using Cons.prems(2) by (force simp: map_of_eq_None_iff image_iff)
  then have "held t'' = held t ++ map_of (map (\<lambda>p. (policy_key p, p)) (p # pps))"
    using t'(3) t''(2) by (auto simp: fun_eq_iff map_add_def split: option.split)
  moreover have "add_objects tp (map PolicyObject (p # pps)) t = Return t''" using t'(1) t''(1) by simp
  ultimately show ?case by blast
qed simp

lemma add_objects_fails:
  assumes "adding_contract tp held knows recognizes"
  shows "\<not> knows t \<and> pps \<noteq> [] \<or> \<not> distinct (map policy_key pps) \<or> (\<exists>p \<in> set pps. held t (policy_key p) \<noteq> None) \<Longrightarrow>
    add_objects tp (map PolicyObject pps) t = Panic (PanicWith ''err'')"
proof (induction pps arbitrary: t)
  case (Cons p pps)
  show ?case
  proof (cases "knows t \<and> held t (policy_key p) = None")
    case True
    with adding_laws(1) [OF assms, of t p] obtain t' where
      t': "Tracker_Add tp (PolicyObject p) t = (None, t')" "held t' = (held t)(policy_key p \<mapsto> p)" by auto
    have "\<not> distinct (map policy_key pps) \<or> (\<exists>q \<in> set pps. held t' (policy_key q) \<noteq> None)"
      using Cons.prems True t'(2) by (auto simp: image_iff split: if_splits)
    with Cons.IH [of t'] t'(1) show ?thesis by auto
  next
    case False
    with adding_laws(2) [OF assms, of t p] show ?thesis by auto
  qed
qed simp

lemma map_of_policies: "map_of (map (\<lambda>p. (policy_key p, p)) pps) (ns, name) =
    find (\<lambda>p. ppNamespace p = ns \<and> ppName p = name) pps"
  by (induction pps) auto

end
