(* ===== verification/Fake_Properties.thy ===== *)
theory Fake_Properties
  imports Policy_Store Example_Cluster "HOL-Library.AList"
begin

section \<open>Properties of the fake clientset and of the registration\<close>

text \<open>
  The fake client and the REST client as stores of policies; what the fake client returns
  and when it panics; the types registered when the program starts.
\<close>

subsection \<open>A small package testing\<close>

text \<open>
  For the witnesses: a scheme is a list of registered types, a tracker an association list
  with a note whether its scheme knows policies, a \<open>Fake\<close> its chain of reactors, a server
  an association list.
\<close>

type_synonym ex_scheme = "(GroupVersion \<times> api_type) list"
type_synonym ex_objects = "((string \<times> string) \<times> PlacementPolicy) list"
type_synonym ex_tracker = "bool \<times> ex_objects"
type_synonym ex_fake = "(string \<times> string \<times> ex_tracker reaction) list"

definition ex_inuse :: "string \<Rightarrow> goerror" where
  "ex_inuse name = External (''already exists: '' @ name)"

text \<open>The options ask for a label \<open>tier\<close>, or for every policy.\<close>

definition ex_rules :: api_rules where
  "ex_rules = \<lparr>in_use = ex_inuse, asked_for = (\<lambda>opts p.
     loLabelSelector opts = '''' \<or> map_of (ppLabels p) ''tier'' = Some (loLabelSelector opts))\<rparr>"

definition ex_held :: "ex_tracker \<Rightarrow> policy_map" where
  "ex_held t = map_of (snd t)"

definition ex_reaction :: "ex_tracker reaction" where
  "ex_reaction action t =
     (case action of
        NewGetAction gvr ns name \<Rightarrow>
          ((True, case ex_held t (ns, name) of None \<Rightarrow> (None, Some (not_found name)) | Some p \<Rightarrow> (Some (PolicyObject p), None)), t)
      | NewListAction gvr kind ns opts \<Rightarrow>
          ((True, Some (PolicyListObject \<lparr>ListResourceVersion = '''',
             Items = map snd (filter (\<lambda>e. fst (fst e) = ns) (AList.clearjunk (snd t)))\<rparr>), None), t)
      | NewCreateAction gvr ns ob \<Rightarrow>
          (case ob of
             PolicyObject p \<Rightarrow>
               (case ex_held t (ns, ppName p) of
                  None \<Rightarrow> ((True, Some (PolicyObject p), None), (fst t, ((ns, ppName p), p) # snd t))
                | Some q \<Rightarrow> ((True, None, Some (ex_inuse (ppName p))), t))
           | _ \<Rightarrow> ((False, None, None), t))
      | NewUpdateAction gvr ns ob \<Rightarrow>
          (case ob of
             PolicyObject p \<Rightarrow>
               (case ex_held t (ns, ppName p) of
                  None \<Rightarrow> ((True, None, Some (not_found (ppName p))), t)
                | Some q \<Rightarrow> ((True, Some (PolicyObject p), None), (fst t, ((ns, ppName p), p) # snd t)))
           | _ \<Rightarrow> ((False, None, None), t))
      | NewDeleteAction gvr ns name \<Rightarrow>
          ((True, None, if ex_held t (ns, name) = None then Some (not_found name) else None),
           (fst t, AList.delete (ns, name) (snd t)))
      | _ \<Rightarrow> ((False, None, None), t))"

definition ex_testing :: "(ex_fake, ex_tracker, ex_scheme, strmap) testing_package" where
  "ex_testing =
     \<lparr>zero_Fake = [],
      NewObjectTracker = (\<lambda>s. ((SchemeGroupVersion, TypePlacementPolicy) \<in> set s, [])),
      Tracker_Add = (\<lambda>ob t. case ob of
         PolicyObject p \<Rightarrow> if \<not> fst t then (Some (External ''no kind is registered''), t)
           else if ex_held t (ppNamespace p, ppName p) \<noteq> None then (Some (ex_inuse (ppName p)), t)
           else (None, (fst t, ((ppNamespace p, ppName p), p) # snd t))
       | _ \<Rightarrow> (Some (External ''no kind is registered''), t)),
      Tracker_Watch = (\<lambda>gvr ns t. ((None, None), t)),
      ObjectReaction = ex_reaction,
      AddReactor = (\<lambda>f v r react. f @ [(v, r, react)]),
      AddWatchReactor = (\<lambda>f r react. f),
      Invokes = (\<lambda>action dflt f t. case f of
         [] \<Rightarrow> ((Some dflt, None), f, t)
       | (v, r, react) # rest \<Rightarrow>
           (case react action t of ((handled, obj, err), t') \<Rightarrow>
              (if handled then (obj, err) else (Some dflt, None), f, t'))),
      InvokesWatch = (\<lambda>action f t. ((None, None), f, t)),
      ExtractLabel = (\<lambda>opts. if loLabelSelector opts = '''' then None else Some [(''tier'', loLabelSelector opts)]),
      Everything = [],
      Matches = (\<lambda>sel l. list_all (\<lambda>(k, v). map_of l k = Some v) sel)\<rparr>"

definition ex_runtime :: "ex_scheme runtime_package" where
  "ex_runtime =
     \<lparr>NewScheme = [], AddKnownTypes = (\<lambda>s gv ts. map (Pair gv) ts @ s), AddToGroupVersion = (\<lambda>s gv. s),
      Builder_Register = (\<lambda>b fs. b @ fs),
      Builder_AddToScheme = (\<lambda>b s. fold (\<lambda>f (err, s). case err of None \<Rightarrow> f s | Some e \<Rightarrow> (Some e, s)) b (None, s)),
      Must = (\<lambda>err. case err of None \<Rightarrow> Return () | Some e \<Rightarrow> Panic (PanicWith ''err''))\<rparr>"

definition ex_recognizes :: "ex_scheme \<Rightarrow> GroupVersion \<Rightarrow> api_type \<Rightarrow> bool" where
  "ex_recognizes s gv t \<longleftrightarrow> (gv, t) \<in> set s"

lemma ex_runtime_contract: "runtime_contract ex_runtime ex_recognizes"
proof -
  have keep: "fold (\<lambda>f (err, s). case err of None \<Rightarrow> f s | Some e \<Rightarrow> (Some e, s)) fs (Some e, s) = (Some e, s)"
    for fs :: "ex_scheme scheme_func list" and e s
    by (induction fs) simp_all
  have step: "Builder_AddToScheme ex_runtime (f # fs) s =
      (case f s of (Some e, s') \<Rightarrow> (Some e, s') | (None, s') \<Rightarrow> Builder_AddToScheme ex_runtime fs s')"
    for f :: "ex_scheme scheme_func" and fs s
    by (cases "f s"; cases "fst (f s)") (simp_all add: ex_runtime_def keep)
  show ?thesis
    unfolding runtime_contract_def by (intro conjI allI step) (auto simp: ex_runtime_def ex_recognizes_def)
qed

lemma ex_fake_contract: "fake_contract ex_testing (\<lambda>f. f)"
  by (auto simp: fake_contract_def ex_testing_def split: prod.splits)

lemma ex_objects_listed:
  "set (map snd (filter (\<lambda>e. fst (fst e) = ns) (AList.clearjunk xs))) = {p. \<exists>name. map_of xs (ns, name) = Some p}"
  for ns :: string and xs :: ex_objects
proof -
  have "((ns, name), p) \<in> set (AList.clearjunk xs) \<longleftrightarrow> map_of xs (ns, name) = Some p" for name p
    using map_of_eq_Some_iff [OF distinct_clearjunk, of xs "(ns, name)" p] by (simp add: map_of_clearjunk)
  then show ?thesis by (force simp: image_iff)
qed

lemma ex_tracker_contract: "tracker_contract ex_testing ex_held ex_rules"
  using ex_objects_listed
  by (auto simp: tracker_contract_def ex_testing_def ex_reaction_def ex_held_def ex_rules_def delete_conv split: option.split)

lemma ex_adding_contract: "adding_contract ex_testing ex_held fst ex_recognizes"
  by (auto simp: adding_contract_def ex_testing_def ex_held_def ex_recognizes_def)

definition ex_server :: "ex_objects RESTClient" where
  "ex_server =
     \<lparr>Do_Into_policy = (\<lambda>rq w.
        let bad = ((zero_PlacementPolicy, Some (External ''bad request'')), w); a = addressed rq in
        case rqVerb rq of
          VerbGet \<Rightarrow>
            (case (adNamespace a, adName a) of
               (Some ns, Some name) \<Rightarrow>
                 (case map_of w (ns, name) of
                    None \<Rightarrow> ((zero_PlacementPolicy, Some (not_found name)), w) | Some p \<Rightarrow> ((p, None), w))
             | _ \<Rightarrow> bad)
        | VerbPost \<Rightarrow>
            (case adBody a of
               Some (BodyPolicy p) \<Rightarrow>
                 (case map_of w (ppNamespace p, ppName p) of
                    None \<Rightarrow> ((p, None), ((ppNamespace p, ppName p), p) # w)
                  | Some q \<Rightarrow> ((zero_PlacementPolicy, Some (ex_inuse (ppName p))), w))
             | _ \<Rightarrow> bad)
        | VerbPut \<Rightarrow>
            (case adBody a of
               Some (BodyPolicy p) \<Rightarrow>
                 (case map_of w (ppNamespace p, ppName p) of
                    None \<Rightarrow> ((zero_PlacementPolicy, Some (not_found (ppName p))), w)
                  | Some q \<Rightarrow> ((p, None), ((ppNamespace p, ppName p), p) # w))
             | _ \<Rightarrow> bad)
        | _ \<Rightarrow> bad),
      Do_Into_list = (\<lambda>rq w.
        case (adNamespace (addressed rq), params_of rq) of
          (Some ns, [ListParams opts]) \<Rightarrow>
            ((\<lparr>ListResourceVersion = '''', Items = filter (asked_for ex_rules opts)
               (map snd (filter (\<lambda>e. fst (fst e) = ns) (AList.clearjunk w)))\<rparr>, None), w)
        | _ \<Rightarrow> ((zero_PlacementPolicyList, Some (External ''bad request'')), w)),
      Do_Error = (\<lambda>rq w. case (adNamespace (addressed rq), adName (addressed rq)) of
          (Some ns, Some name) \<Rightarrow>
            (if map_of w (ns, name) = None then Some (not_found name) else None, AList.delete (ns, name) w)
        | _ \<Rightarrow> (Some (External ''bad request''), w)),
      Request_Watch = (\<lambda>rq w. ((None, None), w))\<rparr>"

lemma ex_server_list:
  assumes "asks_list rq ns opts"
  shows "Do_Into_list ex_server rq w = ((\<lparr>ListResourceVersion = '''', Items = filter (asked_for ex_rules opts)
    (map snd (filter (\<lambda>e. fst (fst e) = ns) (AList.clearjunk w)))\<rparr>, None), w)"
  using assms by (simp add: ex_server_def asks_list_def asks_def)

lemma ex_server_contract: "server_contract ex_server map_of ex_rules"
  unfolding server_contract_def
proof (intro conjI allI impI)
  fix rq ns opts and w :: ex_objects
  assume "ns \<noteq> ''''" "asks_list rq ns opts"
  let ?l = "\<lparr>ListResourceVersion = '''', Items = filter (asked_for ex_rules opts)
    (map snd (filter (\<lambda>e. fst (fst e) = ns) (AList.clearjunk w)))\<rparr>"
  have "set (Items ?l) = {p. (\<exists>name. map_of w (ns, name) = Some p) \<and> asked_for ex_rules opts p}"
    unfolding PlacementPolicyList.select_convs set_filter ex_objects_listed by blast
  with ex_server_list [OF \<open>asks_list rq ns opts\<close>, of w]
  show "\<exists>l w'. Do_Into_list ex_server rq w = ((l, None), w') \<and>
      set (Items l) = {p. (\<exists>name. map_of w (ns, name) = Some p) \<and> asked_for ex_rules opts p} \<and> map_of w' = map_of w"
    by blast
qed (auto simp: ex_server_def asks_def ex_rules_def Let_def delete_conv split: option.split)

definition ex_light :: PlacementPolicy where
  "ex_light = ex_policy_of ''light'' 10 EnforcementModeBestEffort"

definition ex_empty_clientset :: "(ex_fake, ex_tracker) fake_Clientset" where
  "ex_empty_clientset = \<lparr>fcFake = [(''*'', ''*'', ex_reaction)], fcDiscovery = \<lparr>fdFake = OwnFake\<rparr>, fcTracker = (True, [])\<rparr>"

lemma ex_empty_simple: "simple ex_testing (\<lambda>f. f) ex_empty_clientset"
  using ex_fake_contract by (simp add: simple_def ex_empty_clientset_def ex_testing_def)

lemma ex_policy_names [simp]:
  "ppName ex_policy = ''strict-must''" "ppNamespace ex_policy = ''default''" "ppLabels ex_policy = []"
  "ppName ex_light = ''light''" "ppNamespace ex_light = ''default''"
  by (simp_all add: ex_policy_def ex_light_def ex_policy_of_def)

subsection \<open>Registration\<close>

text \<open>
  C40: when the program has started, the schemes of the typed clientset and of the fake one
  know the two API types under the group and version of the policies and nothing else, and
  no \<open>init\<close> has panicked; \<open>AddToScheme\<close> and \<open>Install\<close> add the same types to a scheme of the
  caller and keep what it knows.
\<close>

theorem scheme_knows_policies:
  assumes "runtime_contract rt recognizes"
  shows "(\<exists>v. scheme_started rt = (Return (), v) \<and> fake_started rt = (Return (), v) \<and>
      (\<forall>gv t. recognizes (SchemeVar v) gv t \<longleftrightarrow> gv = SchemeGroupVersion)) \<and>
    (\<exists>s'. scheme_AddToScheme rt (scheme_declared rt (v1alpha1_init rt v1alpha1_declared)) s = (None, s') \<and>
      v1alpha1_Install rt (v1alpha1_init rt v1alpha1_declared) s = (None, s') \<and>
      (\<forall>gv t. recognizes s' gv t \<longleftrightarrow> recognizes s gv t \<or> gv = SchemeGroupVersion))"
  using started_knows [OF assms] AddToScheme_adds [OF assms] unfolding fake_started_eq by blast

theorem scheme_knows_policies_witness:
  "\<exists>v. fake_started ex_runtime = (Return (), v) \<and> (SchemeGroupVersion, TypePlacementPolicyList) \<in> set (SchemeVar v)"
  using scheme_knows_policies [OF ex_runtime_contract, of "[]"] by (auto simp: ex_recognizes_def)

text \<open>
  C38: \<open>NewSimpleClientset\<close> with the scheme of the started program serves exactly the policies
  it is given, if no two have the same namespace and name; it panics when two do, and with a
  scheme nothing was registered in it panics on the first object.
\<close>

theorem simple_clientset_serves:
  assumes "runtime_contract rt recognizes" "fake_contract tp chain" "tracker_contract tp held api"
    and "adding_contract tp held knows recognizes"
  shows "(if distinct (map (\<lambda>p. (ppNamespace p, ppName p)) pps)
     then \<exists>cs. NewSimpleClientset tp (snd (fake_started rt)) (map PolicyObject pps) = Return cs \<and>
       (\<forall>ns name. fst (exec_op (fake_store tp opts) (OpGet ns name) cs) =
         Return (case find (\<lambda>p. ppNamespace p = ns \<and> ppName p = name) pps of
           None \<Rightarrow> Failed (not_found name) | Some p \<Rightarrow> Found p))
     else NewSimpleClientset tp (snd (fake_started rt)) (map PolicyObject pps) = Panic (PanicWith ''err'')) \<and>
    (pps \<noteq> [] \<longrightarrow> NewSimpleClientset tp (fake_declared rt v1alpha1_declared) (map PolicyObject pps) =
      Panic (PanicWith ''err''))"
proof (intro conjI impI)
  obtain v where v: "fake_started rt = (Return (), v)" "recognizes (SchemeVar v) SchemeGroupVersion TypePlacementPolicy"
    using started_knows [OF assms(1)] unfolding fake_started_eq by blast
  let ?t = "NewObjectTracker tp (SchemeVar v)"
  have t: "knows ?t" "held ?t = Map.empty" using v(2) assms(4) by (simp_all add: adding_contract_def)
  show "if distinct (map (\<lambda>p. (ppNamespace p, ppName p)) pps)
     then \<exists>cs. NewSimpleClientset tp (snd (fake_started rt)) (map PolicyObject pps) = Return cs \<and>
       (\<forall>ns name. fst (exec_op (fake_store tp opts) (OpGet ns name) cs) =
         Return (case find (\<lambda>p. ppNamespace p = ns \<and> ppName p = name) pps of
           None \<Rightarrow> Failed (not_found name) | Some p \<Rightarrow> Found p))
     else NewSimpleClientset tp (snd (fake_started rt)) (map PolicyObject pps) = Panic (PanicWith ''err'')"
  proof (cases "distinct (map (\<lambda>p. (ppNamespace p, ppName p)) pps)")
    case True
    from add_objects_known [OF assms(4) t(1) True] obtain t' where t': "add_objects tp (map PolicyObject pps) ?t = Return t'"
      "held t' = map_of (map (\<lambda>p. ((ppNamespace p, ppName p), p)) pps)" by (auto simp: t(2))
    then obtain cs where cs: "NewSimpleClientset tp v (map PolicyObject pps) = Return cs"
      by (simp add: NewSimpleClientset_def Let_def)
    note s = NewSimpleClientset_simple [OF assms(2) cs]
    have "fst (exec_op (fake_store tp opts) (OpGet ns name) cs) =
        Return (fst (spec_op api (OpGet ns name) (held t')))" for ns name
      using fake_get [OF conjunct1 [OF s] assms(3), of opts ns name] s t'(1) by (auto split: option.split)
    then have "fst (exec_op (fake_store tp opts) (OpGet ns name) cs) =
        Return (case find (\<lambda>p. ppNamespace p = ns \<and> ppName p = name) pps of
          None \<Rightarrow> Failed (not_found name) | Some p \<Rightarrow> Found p)" for ns name
      by (simp add: t'(2) map_of_policies split: option.split)
    with True cs v(1) show ?thesis by simp
  next
    case False
    with v(1) show ?thesis by (simp add: NewSimpleClientset_def add_objects_fails [OF assms(4)])
  qed
next
  assume "pps \<noteq> []"
  moreover have "\<not> knows (NewObjectTracker tp (SchemeVar (fake_declared rt v1alpha1_declared)))"
    using assms(1,4) by (simp add: adding_contract_def fake_declared_def runtime_laws)
  ultimately show "NewSimpleClientset tp (fake_declared rt v1alpha1_declared) (map PolicyObject pps) = Panic (PanicWith ''err'')"
    by (simp add: NewSimpleClientset_def add_objects_fails [OF assms(4)])
qed

theorem simple_clientset_serves_witness:
  "(\<exists>cs. NewSimpleClientset ex_testing (snd (fake_started ex_runtime)) [PolicyObject ex_policy, PolicyObject ex_light] = Return cs \<and>
     fst (exec_op (fake_store ex_testing (Handle 0)) (OpGet ''default'' ''light'') cs) = Return (Found ex_light) \<and>
     fst (exec_op (fake_store ex_testing (Handle 0)) (OpGet ''default'' ''heavy'') cs) = Return (Failed (not_found ''heavy''))) \<and>
   NewSimpleClientset ex_testing (snd (fake_started ex_runtime)) [PolicyObject ex_light, PolicyObject ex_light] = Panic (PanicWith ''err'')"
  using simple_clientset_serves [OF ex_runtime_contract ex_fake_contract ex_tracker_contract ex_adding_contract,
      of "[ex_policy, ex_light]" "Handle 0"]
    simple_clientset_serves [OF ex_runtime_contract ex_fake_contract ex_tracker_contract ex_adding_contract,
      of "[ex_light, ex_light]" "Handle 0"]
  by auto

subsection \<open>The fake client as a store\<close>

text \<open>
  C37: the fake clientset stands for the real one: against an API server that stores
  policies, the REST client and the fake client, starting from the same policies, give the
  same results to the same operations (reads, creations, updates, deletions and lists by
  label), namely those of a map from namespace and name to policies, and never panic.
\<close>

theorem fake_stands_for_server:
  assumes "simple tp chain cs" "tracker_contract tp held api" "server_contract rc stored api"
    and "held (fcTracker cs) = stored w" "list_all op_ok ops"
  shows "fst (exec_run (fake_store tp opts) ops cs) = map Return (fst (spec_run api ops (stored w))) \<and>
    fst (exec_run (rest_store rc opts') ops w) = map Return (fst (spec_run api ops (stored w)))"
proof
  have "fake_invar tp chain held api cs" using assms(1,2) by (simp add: fake_invar_def)
  from fake.run [OF this assms(5), of opts]
  show "fst (exec_run (fake_store tp opts) ops cs) = map Return (fst (spec_run api ops (stored w)))"
    by (auto simp: assms(4))
  from rest.run [OF assms(3,5), of opts' w]
  show "fst (exec_run (rest_store rc opts') ops w) = map Return (fst (spec_run api ops (stored w)))" by auto
qed

definition ex_gold :: ListOptions where
  "ex_gold = \<lparr>loLabelSelector = ''gold'', loFieldSelector = '''', loWatch = False, loTimeoutSeconds = None\<rparr>"

definition ex_golden :: PlacementPolicy where
  "ex_golden = ex_light\<lparr>ppLabels := [(''tier'', ''gold'')]\<rparr>"

theorem fake_stands_for_server_witness:
  "let ops = [OpCreate ''default'' ex_policy, OpCreate ''default'' ex_golden, OpList ''default'' ex_gold]
   in fst (exec_run (fake_store ex_testing (Handle 0)) ops ex_empty_clientset) = fst (exec_run (rest_store ex_server (Handle 1)) ops []) \<and>
     fst (exec_run (rest_store ex_server (Handle 1)) ops []) =
       map Return [Found ex_policy, Found ex_golden, Listed {ex_golden}]"
proof -
  let ?ops = "[OpCreate ''default'' ex_policy, OpCreate ''default'' ex_golden, OpList ''default'' ex_gold]"
  have g: "ppName ex_golden = ''light''" "ppNamespace ex_golden = ''default''" "ppLabels ex_golden = [(''tier'', ''gold'')]"
    by (simp_all add: ex_golden_def)
  let ?m = "Map.empty((''default'', ''strict-must'') \<mapsto> ex_policy, (''default'', ''light'') \<mapsto> ex_golden)"
  have asked: "asked_for ex_rules ex_gold ex_golden" "\<not> asked_for ex_rules ex_gold ex_policy"
    by (simp_all add: ex_rules_def ex_gold_def g)
  have "{p. (\<exists>name. ?m (''default'', name) = Some p) \<and> asked_for ex_rules ex_gold p} = {ex_golden}"
  proof (intro equalityI subsetI)
    fix p
    assume "p \<in> {p. (\<exists>name. ?m (''default'', name) = Some p) \<and> asked_for ex_rules ex_gold p}"
    then obtain name where "?m (''default'', name) = Some p" and a: "asked_for ex_rules ex_gold p" by blast
    then have "p = ex_policy \<or> p = ex_golden" by (simp split: if_split_asm)
    with a asked(2) show "p \<in> {ex_golden}" by blast
  next
    fix p
    assume "p \<in> {ex_golden}"
    moreover have "?m (''default'', ''light'') = Some ex_golden" by simp
    ultimately show "p \<in> {p. (\<exists>name. ?m (''default'', name) = Some p) \<and> asked_for ex_rules ex_gold p}"
      using asked(1) by blast
  qed
  then have spec: "fst (spec_run ex_rules ?ops (map_of [])) = [Found ex_policy, Found ex_golden, Listed {ex_golden}]"
    by (simp add: g)
  have "ex_held (fcTracker ex_empty_clientset) = map_of []" by (simp add: ex_empty_clientset_def ex_held_def)
  moreover have "list_all op_ok ?ops" by (simp add: g ex_gold_def)
  ultimately show ?thesis
    using fake_stands_for_server [OF ex_empty_simple ex_tracker_contract ex_server_contract, of "[]" ?ops "Handle 0" "Handle 1"]
    by (simp only: Let_def spec)
qed

subsection \<open>Type assertions\<close>

text \<open>
  What \<open>testing.Fake\<close> asks of its users: a reactor answers with nil or with an object of the
  type of the default it would replace.
\<close>

definition answers_typed :: "('f, 't, 's, 'sel) testing_package \<Rightarrow> bool" where
  "answers_typed tp \<longleftrightarrow>
     (\<forall>action p f t. policy_or_nil (fst (fst (Invokes tp action (PolicyObject p) f t)))) \<and>
     (\<forall>action l f t. list_or_nil (fst (fst (Invokes tp action (PolicyListObject l) f t))))"

text \<open>
  C39: type safety of the fake client: whatever reactors a test adds, as long as they answer
  with nil or an object of the type of the default, no method's type assertion panics; and a
  single policy method panics exactly when it is answered with an object of another type.
\<close>

theorem fake_methods_type_safe:
  "(answers_typed tp \<longrightarrow>
      (\<exists>r. fst (Fake_Get tp c name o1 cs) = Return r) \<and> (\<exists>r. fst (Fake_List tp c opts cs) = Return r) \<and>
      (\<exists>r. fst (Fake_Create tp c p o1 cs) = Return r) \<and> (\<exists>r. fst (Fake_Update tp c p o1 cs) = Return r) \<and>
      (\<exists>r. fst (Fake_UpdateStatus tp c p o1 cs) = Return r) \<and>
      (\<exists>r. fst (Fake_Patch tp c name pt data o1 subs cs) = Return r)) \<and>
   (fst (Fake_Get tp c name o1 cs) = Panic TypeAssertion \<longleftrightarrow>
      \<not> policy_or_nil (fst (fst (invoke tp c (NewGetAction placementpoliciesResource (fppNs c) name)
        (PolicyObject zero_PlacementPolicy) cs))))"
proof (intro conjI impI)
  assume "answers_typed tp"
  then have p: "policy_or_nil (fst (fst (invoke tp c action (PolicyObject zero_PlacementPolicy) cs)))"
    and l: "list_or_nil (fst (fst (invoke tp c action (PolicyListObject zero_PlacementPolicyList) cs)))" for action
    by (simp_all add: answers_typed_def invoke_fst)
  show "\<exists>r. fst (Fake_Get tp c name o1 cs) = Return r" "\<exists>r. fst (Fake_Create tp c p o1 cs) = Return r"
    "\<exists>r. fst (Fake_Update tp c p o1 cs) = Return r" "\<exists>r. fst (Fake_UpdateStatus tp c p o1 cs) = Return r"
    "\<exists>r. fst (Fake_Patch tp c name pt data o1 subs cs) = Return r"
    by (simp_all only: Fake_Get_def Fake_Create_def Fake_Update_def Fake_UpdateStatus_def Fake_Patch_def
        policy_result_returns p)
  show "\<exists>r. fst (Fake_List tp c opts cs) = Return r"
    by (rule Fake_List_returns [OF l])
next
  show "fst (Fake_Get tp c name o1 cs) = Panic TypeAssertion \<longleftrightarrow>
      \<not> policy_or_nil (fst (fst (invoke tp c (NewGetAction placementpoliciesResource (fppNs c) name)
        (PolicyObject zero_PlacementPolicy) cs)))"
    unfolding Fake_Get_def by (rule policy_result_panics)
qed

theorem fake_methods_type_safe_witness:
  "\<exists>r. fst (Fake_Get (ex_testing\<lparr>Invokes := (\<lambda>action dflt f t. ((Some dflt, None), f, t))\<rparr>)
     (fake_PlacementPolicies (fake_PlacementpolicyV1alpha1 ex_empty_clientset) ''default'') ''x'' (Handle 0) ex_empty_clientset) = Return r"
proof -
  have "answers_typed (ex_testing\<lparr>Invokes := (\<lambda>action dflt f t. ((Some dflt, None), f, t))\<rparr>)"
    by (simp add: answers_typed_def policy_or_nil_def list_or_nil_def)
  then show ?thesis by (simp only: fake_methods_type_safe)
qed

end
