(* ===== verification/Scheduler_Command.thy ===== *)
theory Scheduler_Command
  imports Plugin_Bootstrap
begin

section \<open>The scheduler's command\<close>

text \<open>
  \<open>cmd/scheduler/main.go\<close>. The command is kube-scheduler's and a parameter: options, the
  command made from them, and running it. The result is the exit status of the process.
\<close>

type_synonym ('w, 'sel, 'inf) plugin_factory =
  "('w, 'sel) scheduler_handle \<Rightarrow> ('w, 'inf) new_result go"

record ('w, 'sel, 'inf, 'opt, 'cmd) app_package =
  WithPlugin :: "string \<Rightarrow> ('w, 'sel, 'inf) plugin_factory \<Rightarrow> 'opt"
  NewSchedulerCommand :: "'opt list \<Rightarrow> 'cmd"
  Execute :: "'cmd \<Rightarrow> 'w \<Rightarrow> goerror option \<times> 'w"

definition main ::
    "('w, 'sel, 'inf, 'opt, 'cmd) app_package \<Rightarrow> ('w, 'sel, 'inf) environment \<Rightarrow> 'sel packages
      \<Rightarrow> 'w \<Rightarrow> nat \<times> 'w" where
  "main app env pk w =
     (let command = NewSchedulerCommand app [WithPlugin app PluginName (New env pk)] in
      case Execute app command w of (err, w') \<Rightarrow>
      case err of Some e \<Rightarrow> (1, w') | None \<Rightarrow> (0, w'))"

text \<open>
  A command that makes the plugins it is configured for from a registry of factories by
  name finds the plugin's constructor under the plugin's name, and nothing else.
\<close>

lemma main_registers:
  assumes "\<And>opts w. Execute app (NewSchedulerCommand app opts) w =
      (case find (\<lambda>opt. fst (registered opt) = wanted) opts of
         None \<Rightarrow> (Some (External ''plugin not registered''), w) | Some opt \<Rightarrow> run (snd (registered opt)) w)"
    and "\<And>n f. registered (WithPlugin app n f) = (n, f)"
  shows "main app env pk w =
    (if wanted = PluginName then (case run (New env pk) w of (err, w') \<Rightarrow> (if err = None then 0 else 1, w')) else (1, w))"
  using assms by (auto simp: main_def Let_def split: prod.split option.split)

end
