(* ===== verification/Spec2Isabelle.thy ===== *)
theory Spec2Isabelle
  imports Policy_Properties Hook_Properties Selection_Properties Counting_Properties Informer_Properties Client_Properties
    Workload_Properties Cycle_Properties Fake_Properties Scheduler_Command
begin

text \<open>
  A verification development for the placement-policy scheduler plugin
  (\<open>Azure/placement-policy-scheduler-plugins\<close>, Go).

  \<^bold>\<open>The program.\<close> A PlacementPolicy names pods (\<open>podSelector\<close>), nodes (\<open>nodeSelector\<close>) and a rule
  (\<open>Must\<close> or \<open>MustNot\<close>, with a target size). The plugin runs in a kube-scheduler. For each
  pod being scheduled a pre-hook finds the pod's policy, counts the policy's pods that are
  or will be on the policy's nodes, compares the count with the target, and writes the
  outcome (prefer the policy's nodes, or the others) into an annotation of the pod; the hook
  after it reads the annotation back for every node. \<open>PreFilter\<close> and \<open>Filter\<close> do this for
  Strict policies and reject nodes, \<open>PreScore\<close>, \<open>Score\<close> and \<open>NormalizeScore\<close> do it for
  BestEffort policies and rank nodes. Policies are read from an informer's cache through a
  generated lister; pods from the scheduler's pod lister; the annotated pod is sent to the
  API server.

  \<^bold>\<open>Theories, in the order of the code's layers.\<close>
  \<^item> \<open>Prelude\<close>: the fragment of Go the others share: calls that return or panic
    (type \<open>go\<close>), nil pointers (\<open>option\<close>, \<open>deref\<close>), slices and the range loop, maps with
    string keys as entry lists (their order is the order of a range), 64-bit integers as
    \<open>64 word\<close>.
  \<^item> \<open>Api_Types\<close>: \<open>apis/v1alpha1/placementpolicy_types.go\<close> and \<open>zz_generated.register.go\<close>;
    the fields of Pod and Node the plugin reads; errors and statuses; the process: the Pod
    structs by address (\<open>mem\<close>), and everything outside (\<open>world\<close>), of a type left open.
  \<^item> \<open>Labels\<close>: \<open>pkg/utils/labels.go\<close> and \<open>checkHasLabels\<close>; the locale \<open>label_matcher\<close> is
    their common contract, interpreted on both.
  \<^item> \<open>Label_Selectors\<close>: what the resource definition under \<open>config/crd/bases\<close> documents of label
    selectors; the reference for what the plugin makes of them.
  \<^item> \<open>Weight_Sort\<close>: \<open>pkg/plugins/placementpolicy/core/sort.go\<close>, with \<open>sort.Reverse\<close> and,
    for up to twelve elements, \<open>sort.Sort\<close> of the standard library; the locale
    \<open>sort_interface\<close> is the contract of \<open>sort.Interface\<close>, interpreted on \<open>ByWeight\<close> and on
    its reverse.
  \<^item> \<open>Lister\<close>: \<open>pkg/client/listers/apis/v1alpha1/placementpolicy.go\<close>; the locale
    \<open>policy_lister\<close> is the contract of its interface \<open>PlacementPolicyLister\<close>, interpreted on the
    generated lister over an informer's cache.
  \<^item> \<open>Policy_Manager\<close>: \<open>pkg/plugins/placementpolicy/core/core.go\<close>; the locale
    \<open>policy_manager\<close> has the laws of the interface \<open>core.Manager\<close> that the plugin relies on,
    interpreted on the manager of the code.
  \<^item> \<open>Node_Pod_Groups\<close>, \<open>Plugin_State\<close>, \<open>Plugin_Hooks\<close>:
    \<open>pkg/plugins/placementpolicy/placementpolicy.go\<close> and \<open>state.go\<close>, every hook with every
    branch; a hook returns its status with the cycle state and the process it leaves.
  \<^item> \<open>Placement_Decision\<close>: the computation both pre-hooks repeat, as one definition; both are
    shown equal to it behind their guards, and the decision is analysed once, in the context
    of \<open>policy_manager\<close>.
  \<^item> \<open>Placement_System\<close>: a workload (the pods of a policy) in a cluster, what a single step may
    do to it (\<open>moves\<close>: a pod is decided, bound, sent back, or something else happens), and the
    invariant \<open>enforced\<close>: the promise of a policy at every moment.
  \<^item> \<open>Quota_Refinement\<close>: the abstract specification, a machine in which pods decide and
    settle. The locale \<open>placement_system\<close> is any step relation whose steps are \<open>moves\<close>: its runs
    keep the invariant, refine the quota machine and settle; \<open>completing_system\<close> adds that a
    willing system can always place all pods, and that its fair runs do.
  \<^item> \<open>Enforcement\<close>: the scheduler around the filtering hooks as a step relation \<open>sched_step\<close>:
    cycles of any unplaced pod in any order, binding later, failing updates and bindings, a
    changing world; an interpretation of both locales for Strict policies.
  \<^item> \<open>Scheduling_Cycle\<close>: whole cycles through all hooks, \<open>cycle_step\<close>: the nodes the other
    plugins leave, the shortcut of the framework when one node is left, the scores of all
    nodes, the choice by score; an interpretation of both locales for BestEffort policies.
  \<^item> \<open>Workload_Turnover\<close>: workloads whose pods are added, removed and replaced between whole
    cycles while nodes and policies change (\<open>lives\<close>), under either mode, with the condition on
    the target under which the invariant survives, and that fixed numbers and percentages
    meet it; an interpretation of both locales for either kind of policy.
  \<^item> \<open>Normalization\<close>: what \<open>NormalizeScore\<close> computes on unbounded integers, and that the
    64-bit arithmetic agrees.
  \<^item> \<open>Informer_Factory\<close>: \<open>pkg/client/informers/externalversions/factory.go\<close>;
    \<open>Plugin_Bootstrap\<close>: \<open>New\<close>, the policy informer and its accessors under
    \<open>pkg/client/informers/externalversions/apis\<close>, and \<open>generic.go\<close>.
  \<^item> \<open>Deep_Copy\<close>: \<open>apis/v1alpha1/zz_generated.deepcopy.go\<close>, on a heap of cells where pointers are
    addresses; the locale \<open>copyable\<close> is the contract of a copying method and \<open>pointer\<close> that of
    copying behind a pointer, interpreted on the method of every struct.
  \<^item> \<open>Rest_Client\<close>: under \<open>pkg/client/clientset/versioned\<close>, \<open>clientset.go\<close> and, under
    \<open>typed/apis/v1alpha1\<close>, \<open>placementpolicy.go\<close> and \<open>apis_client.go\<close>: the requests of the typed
    client and the making of clients.
  \<^item> \<open>Scheme_Registration\<close>: \<open>zz_generated.register.go\<close>, \<open>versioned/scheme/register.go\<close> and
    \<open>versioned/fake/register.go\<close>: the package variables and \<open>init\<close> functions.
  \<^item> \<open>Fake_Client\<close>: \<open>versioned/fake/clientset_generated.go\<close> and, under
    \<open>versioned/typed/apis/v1alpha1/fake\<close>, \<open>fake_placementpolicy.go\<close> and \<open>fake_apis_client.go\<close>.
  \<^item> \<open>Policy_Interface\<close>: the interfaces of the clients as records of methods, and both clients as
    values of them.
  \<^item> \<open>Policy_Store\<close>: the locale \<open>policy_store\<close>, what a caller of \<open>PlacementPolicyInterface\<close> relies
    on (a map from namespace and name to policies, with lists by label), interpreted on the
    fake client over an object tracker and on the REST client against a storing server.
  \<^item> \<open>Scheduler_Command\<close>: \<open>cmd/scheduler/main.go\<close>.
  \<^item> \<open>Example_Cluster\<close>: concrete instances of all parameters, for the witnesses.
  \<^item> \<open>Policy_Properties\<close>, \<open>Hook_Properties\<close>, \<open>Selection_Properties\<close>, \<open>Counting_Properties\<close>, \<open>Informer_Properties\<close>,
    \<open>Client_Properties\<close>, \<open>Workload_Properties\<close>, \<open>Cycle_Properties\<close>, \<open>Fake_Properties\<close> and the sections
    below: the properties, each with an instance where it has hypotheses.

  \<^bold>\<open>What is shown.\<close> Below: over any interleaving of whole scheduling cycles a Strict policy
  ends with exactly its target on its nodes, never exceeds it on the way, never blocks
  itself, even when updates are refused and forgotten, and can always be completed. \<open>Cycle_Properties\<close>: for a Strict policy the scoring half
  changes nothing; a BestEffort policy keeps the same promise when the scheduler follows
  the scores and the nodes left for a pod show the policy's placed pods and both kinds of
  node, and breaks it when the nodes in use are not among them; under a policy without a mode the
  two halves of a cycle contradict each other. \<open>Workload_Properties\<close>: the same while pods and nodes come and go,
  for either mode, that such a workload can be completed at any moment, that every fair run
  completes it, and the refinement of the abstract machine. \<open>Hook_Properties\<close>: one cycle follows the comparison of count
  and target; which hooks a mode switches off; what a hook may change; the error and nil
  paths. \<open>Selection_Properties\<close>: match expressions are not evaluated, pods of other namespaces
  and pods another policy decided on are counted. \<open>Policy_Properties\<close>: label matching, ordering, listing, the choice of a policy and its look-up by name.
  \<open>Counting_Properties\<close>: what is counted, and the normalised scores.
  \<open>Informer_Properties\<close>: informers are made, started and waited for once, and the plugin
  reads from the one that is started. \<open>Client_Properties\<close>: copies share no memory with their
  originals, requests stay in their namespace, the clients of a clientset share a limiter.
  \<open>Fake_Properties\<close>: the fake client answers like the REST client against a server, what a
  fake clientset is made of, type safety; the types known when the program has started.

  \<^bold>\<open>Parameters.\<close> Code outside the repository is an argument of the definitions that use it:
  the functions of apimachinery and the standard library the manager and the hooks call
  (\<open>packages\<close>), the update of a pod (\<open>KubeClient\<close>), the cache (\<open>Indexer\<close>), the pod lister,
  the cycle state (\<open>CycleOps\<close>), the snapshot and the score bounds (\<open>FrameworkHandle\<close>), the nodes the other plugins leave and
  the choice among scored nodes (\<open>scheduler\<close>), the
  making of informers and clients (\<open>environment\<close>), \<open>metav1\<close>'s own copies (\<open>meta_package\<close>), the
  sending of requests (\<open>RESTClient\<close>), the packages \<open>rest\<close> and \<open>discovery\<close> (\<open>rest_package\<close>),
  \<open>runtime\<close> (\<open>runtime_package\<close>), \<open>testing\<close> (\<open>testing_package\<close>) and the scheduler's command
  (\<open>app_package\<close>). What the theorems assume of it is
  \<open>cycle_contract\<close> (a value written is read back, other keys are kept), \<open>sort_contract\<close>
  (a permutation, sorted by \<open>Less\<close>), \<open>cache_contract\<close> (the lists and keys of an informer's
  cache), \<open>pod_cache\<close> (a pod lister lists the pods with given labels), \<open>follows_scores\<close>, \<open>roomy\<close> and \<open>obliging\<close> (of the scheduler, for BestEffort policies), \<open>meta_faithful\<close> (a copy equals its original),
  the contracts of \<open>Scheme_Registration\<close>, \<open>Fake_Client\<close> and \<open>Policy_Store\<close> (registration, reactors,
  object tracker, server: names and namespaces that are not empty, objects added once) and what a theorem states of single answers.
  The steps of pods other than hooks (bindings, refreshed structs) are those of the scheduler
  and the API server; \<open>fair\<close> says that what is possible again and again happens.

  \<^bold>\<open>Bounds.\<close> The decision is exact for fewer than 2^62 pods and scaled targets of at least
  - 2^62: then neither the length nor \<open>len(podList) - targetSize\<close> wraps. \<open>NormalizeScore\<close> is
  exact for scores and bounds of less than 2^30 in size: then the product of the two ranges
  fits. Timeouts of requests are exact up to 9223372036 seconds. No definition uses fuel; every loop is structural recursion.

  \<^bold>\<open>Not modelled.\<close> The klog calls, contexts, codecs, and the locks (each locked section is one
  step; the plugin's own mutex is never locked). Aliasing is modelled where the code depends
  on it: for Pod structs, where the in-place change of \<open>AnnotatePod\<close> is seen by every holder
  of the pointer, and for deep copies; two Pod structs that share one annotation map are
  not. A whole cycle is one step, and one address stands for both the struct being scheduled
  and the one in the pod cache: the informer replaces its contents, by those the last accepted
  update left, or without the annotation when an update was refused; that an older
  annotation which differs from a refused one comes back is left out. In \<open>Enforcement\<close> and
  \<open>Scheduling_Cycle\<close> the nodes and the policies stay fixed; in \<open>Workload_Turnover\<close> pods, nodes,
  policies and the scaled target change. A workload is promised its target if its policy is
  the lightest of those that select its pods; heavier policies may overlap with it, and get
  no such promise (\<open>Selection_Properties\<close>). Of a list's options the stores compare label
  selectors only: the fake client drops field selectors. The one-method interfaces of the informer packages (\<open>apis.Interface\<close>,
  \<open>v1alpha1.Interface\<close>) are their only implementations. Deployment manifests and
  the repository's tests are not modelled.
\<close>

section \<open>Properties of a strictly enforced workload\<close>

text \<open>
  C1: once every pod of a workload under a Strict policy has a node, the number of pods on
  the policy's nodes is the target exactly, cut to what is possible: not below zero, not
  above the number of pods. It holds after any interleaving of whole scheduling cycles,
  failed updates and bindings, and structs the informer replaces, from fresh pods, whatever the other plugins
  leave and the scheduler selects.
\<close>

theorem strict_target_met:
  assumes "steady pk m h wl" "cycle_contract cy" "fresh_workload wl \<sigma>"
    and "(cycle_step pk cy m h sch wl)\<^sup>*\<^sup>* (starts \<sigma>) S" "\<forall>r \<in> set (wlPods wl). node_of S r \<noteq> ''''"
  shows "int (length (filter (\<lambda>r. node_of S r \<in> wl_names wl) (wlPods wl))) =
    max 0 (min (wl_target wl) (int (length (wlPods wl))))"
  using keeps_quota [OF reachable_enforced [OF assms(1,2) strict_cycles_reachable [OF assms(1-4)]] steady_ok [OF assms(1)]]
    assms(5)
  by (simp add: wl_quota_def)

theorem strict_target_met_witness:
  "int (length (filter (\<lambda>r. node_of ex_placed r \<in> wl_names ex_workload) (wlPods ex_workload))) = 1"
proof -
  have "\<forall>r \<in> set (wlPods ex_workload). node_of ex_placed r \<noteq> ''''"
    using ex_placed_nodes by (simp add: ex_workload_def)
  from strict_target_met [OF ex_steady ex_cycle_contract ex_fresh ex_placed_cycles this]
  show ?thesis by (simp add: ex_workload_target ex_workload_size)
qed

text \<open>
  At no moment are more pods of the workload on the policy's nodes than the target.
\<close>

theorem target_never_exceeded:
  assumes "steady pk m h wl" "cycle_contract cy" "reachable pk cy m h wl S"
  shows "int (length (filter (\<lambda>r. node_of S r \<in> wl_names wl) (wlPods wl))) \<le> max 0 (wl_target wl)"
proof -
  have e: "enforced wl S" by (rule reachable_enforced [OF assms])
  then have "int (length (meant wl (machine_of S))) \<le> max 0 (wl_target wl)" by (simp add: enforced_def)
  with placed_on_meant [OF steady_ok [OF assms(1)] e] show ?thesis by linarith
qed

theorem target_never_exceeded_witness:
  "int (length (filter (\<lambda>r. node_of ex_half r \<in> wl_names ex_workload) (wlPods ex_workload))) \<le> 1"
  using target_never_exceeded [OF ex_steady ex_cycle_contract ex_half_reachable]
  by (simp add: ex_workload_target)

text \<open>
  At no moment are more pods of the workload placed off the policy's nodes than the
  target leaves over, so the pods still to come can always fill the target.
\<close>

theorem off_target_bounded:
  assumes "steady pk m h wl" "cycle_contract cy" "reachable pk cy m h wl S"
  shows "int (length (filter (\<lambda>r. node_of S r \<noteq> '''' \<and> node_of S r \<notin> wl_names wl) (wlPods wl))) \<le>
    int (length (wlPods wl)) - max 0 (min (wl_target wl) (int (length (wlPods wl))))"
  using placed_off_bound [OF reachable_enforced [OF assms]] by (simp add: wl_quota_def)

theorem off_target_bounded_witness:
  "int (length (filter (\<lambda>r. node_of ex_half r \<noteq> '''' \<and> node_of ex_half r \<notin> wl_names ex_workload)
     (wlPods ex_workload))) \<le> 1"
  using off_target_bounded [OF ex_steady ex_cycle_contract ex_half_reachable]
  by (simp add: ex_workload_target ex_workload_size)

text \<open>
  C6: if the API server accepts updates and there is a node with the policy's labels and
  one without, then from every reachable state a run of further steps gives every pod of
  the workload a node, with the target met: enforcement never blocks itself.
\<close>

theorem placement_completes:
  assumes "steady pk m h wl" "cycle_contract cy" "reachable pk cy m h wl S"
    and "both_sides wl" "accepting m"
  shows "\<exists>S'. (sched_step pk cy m h wl)\<^sup>*\<^sup>* S S' \<and> (\<forall>r \<in> set (wlPods wl). node_of S' r \<noteq> '''') \<and>
    int (length (filter (\<lambda>r. node_of S' r \<in> wl_names wl) (wlPods wl))) =
      max 0 (min (wl_target wl) (int (length (wlPods wl))))"
  using strict.completes [of pk m h wl cy S] reachable_invariant [OF assms(1-3)] steady_ok [OF assms(1)] assms(1,2,4,5)
  by (simp add: wl_quota_def)

theorem placement_completes_witness:
  "\<exists>S'. ex_step\<^sup>*\<^sup>* ex_half S' \<and> node_of S' 0 \<noteq> '''' \<and> node_of S' 1 \<noteq> ''''"
proof -
  have "both_sides ex_workload" "accepting ex_manager"
    by (simp_all add: both_sides_def wl_matches_def accepting_def) (simp_all add: ex_defs label_defs)
  from placement_completes [OF ex_steady ex_cycle_contract ex_half_reachable this]
  show ?thesis by (auto simp: ex_workload_def)
qed

text \<open>
  A pod of the workload that has a node is on the side its annotation names: the
  annotation that later cycles count is never at odds with the placement.
\<close>

theorem placed_on_annotated_side:
  assumes "steady pk m h wl" "cycle_contract cy" "reachable pk cy m h wl S"
    and "r \<in> set (wlPods wl)" "mem (machine_of S) r = Some pod" "podNodeName pod \<noteq> ''''"
  shows "ParseBool (pod_annotation pod PlacementPolicyPreferenceAnnotationKey) =
    Some (podNodeName pod \<in> wl_names wl)"
  using node_preference [OF reachable_enforced [OF assms(1,2,3)] assms(4)] assms(5,6)
  by (simp add: node_of_def preference_def)

theorem placed_on_annotated_side_witness:
  "ParseBool (pod_annotation (ex_pod0 (Some True) ''worker'') PlacementPolicyPreferenceAnnotationKey) =
    Some (''worker'' \<in> wl_names ex_workload)"
  using placed_on_annotated_side [OF ex_steady ex_cycle_contract ex_half_reachable, of 0
      "ex_pod0 (Some True) ''worker''"]
  by (simp add: ex_half_def ex_state_def ex_workload_def ex_pod0_def)

text \<open>
  C11: for a target between zero and the number of pods, a \<open>MustNot\<close> rule ends with exactly
  the target many pods off the policy's nodes, and any other rule with exactly the target
  many on them.
\<close>

theorem rule_is_met_exactly:
  assumes "steady pk m h wl" "cycle_contract cy" "reachable pk cy m h wl S"
    and "\<forall>r \<in> set (wlPods wl). node_of S r \<noteq> ''''"
    and "0 \<le> sint (wlTarget wl)" "sint (wlTarget wl) \<le> int (length (wlPods wl))"
  shows "sint (wlTarget wl) =
    (if PolicyAction (wlRule wl) = ActionMustNot
     then int (length (filter (\<lambda>r. node_of S r \<notin> wl_names wl) (wlPods wl)))
     else int (length (filter (\<lambda>r. node_of S r \<in> wl_names wl) (wlPods wl))))"
proof -
  have e: "enforced wl S" by (rule reachable_enforced [OF assms(1,2,3)])
  have "int (length (filter (\<lambda>r. node_of S r \<in> wl_names wl) (wlPods wl))) =
      max 0 (min (wl_target wl) (int (length (wlPods wl))))"
    using all_meant_or_filled [OF e] placed_when_done [OF steady_ok [OF assms(1)] e assms(4)] by (simp add: wl_quota_def)
  moreover have "length (filter (\<lambda>r. node_of S r \<in> wl_names wl) (wlPods wl)) +
      length (filter (\<lambda>r. node_of S r \<notin> wl_names wl) (wlPods wl)) = length (wlPods wl)"
    by (rule sum_length_filter_compl)
  ultimately show ?thesis using assms(5,6) by (simp add: wl_target_def target_def split: if_splits)
qed

theorem rule_is_met_exactly_witness:
  "sint (wlTarget ex_workload) =
     int (length (filter (\<lambda>r. node_of ex_placed r \<in> wl_names ex_workload) (wlPods ex_workload)))"
proof -
  have "\<forall>r \<in> set (wlPods ex_workload). node_of ex_placed r \<noteq> ''''"
    "0 \<le> sint (wlTarget ex_workload)" "sint (wlTarget ex_workload) \<le> int (length (wlPods ex_workload))"
    using ex_placed_nodes by (simp_all add: ex_workload_def)
  from rule_is_met_exactly [OF ex_steady ex_cycle_contract ex_placed_reachable this]
  show ?thesis by (simp add: ex_workload_def ex_rule_def api_constants)
qed

end
